(* ===== verification/Prelude.thy ===== *)
theory Prelude
  imports Main "HOL-Library.Word" "HOL-Library.Sublist"
begin

text \<open>
  Shared vocabulary of the StegEM development: the types that stand for the
  Python values the tool manipulates (bytes of a pixel channel, strings of
  characters, code points), the error type of the Python exceptions the code
  can raise, the Python built-ins the code calls on strings (\<open>in\<close>,
  \<open>str.find\<close>, \<open>int(c)\<close>), and the generic lemmas on lists and
  substrings that the component theories share.
\<close>

unbundle bit_operations_syntax

named_theorems py_simps \<open>evaluation rules for the modelled Python built-ins\<close>

section \<open>Types\<close>

text \<open>A channel value of a PIL RGB pixel: an integer in 0..255.\<close>

type_synonym byte = "8 word"

text \<open>A Python code point (\<open>ord(c)\<close>): an unbounded non-negative integer.\<close>

type_synonym codepoint = nat

text \<open>
  Python exceptions the modelled code can raise. \<open>ValueError\<close> is what
  \<open>int(c)\<close>, \<open>int(s, 2)\<close> and \<open>chr(n)\<close> raise on a bad argument.
\<close>

datatype py_error = ValueError

section \<open>Python built-ins on strings\<close>

text \<open>\<open>needle in haystack\<close> for Python strings: substring containment.\<close>

definition py_contains :: "string \<Rightarrow> string \<Rightarrow> bool" where
  "py_contains needle haystack = sublist needle haystack"

text \<open>
  \<open>haystack.find(needle)\<close>: the least index at which \<open>needle\<close> starts in
  \<open>haystack\<close>, or \<open>-1\<close>. \<open>py_find_from\<close> scans from offset \<open>k\<close>.
\<close>

fun py_find_from :: "string \<Rightarrow> string \<Rightarrow> nat \<Rightarrow> int" where
  "py_find_from needle hs k =
     (if prefix needle hs then int k
      else (case hs of [] \<Rightarrow> -1 | _ # t \<Rightarrow> py_find_from needle t (Suc k)))"

declare py_find_from.simps [simp del, py_simps]

definition py_find :: "string \<Rightarrow> string \<Rightarrow> int" where
  "py_find haystack needle = py_find_from needle haystack 0"

text \<open>\<open>s[:k]\<close>: a negative \<open>k\<close> counts from the end.\<close>

definition py_slice_to :: "'a list \<Rightarrow> int \<Rightarrow> 'a list" where
  "py_slice_to s k = (if 0 \<le> k then take (nat k) s else take (length s - nat (- k)) s)"

text \<open>
  \<open>int(c)\<close> for a one-character string: the decimal digits give their value,
  every other character of the Latin-1 range raises \<open>ValueError\<close>.
\<close>

definition py_isdecimal :: "char \<Rightarrow> bool" where
  "py_isdecimal c \<longleftrightarrow> 48 \<le> (of_char c :: nat) \<and> (of_char c :: nat) \<le> 57"

definition py_int_char :: "char \<Rightarrow> py_error + nat" where
  "py_int_char c = (if py_isdecimal c then Inr (of_char c - 48) else Inl ValueError)"

text \<open>
  \<open>s.strip()\<close>: leading and trailing white space removed (the white-space
  characters of the Latin-1 range).
\<close>

definition py_isspace :: "char \<Rightarrow> bool" where
  "py_isspace c \<longleftrightarrow> (of_char c :: nat) \<in> {9, 10, 11, 12, 13, 28, 29, 30, 31, 32, 133, 160}"

definition py_strip :: "string \<Rightarrow> string" where
  "py_strip s = rev (dropWhile py_isspace (rev (dropWhile py_isspace s)))"

text \<open>
  \<open>s.strip().upper() == t\<close> for a one-letter ASCII capital \<open>t\<close>: the
  stripped string is \<open>t\<close> or its lower-case letter (no other string
  upper-cases to a single ASCII capital other than I, S and K, which the
  program never compares with).
\<close>

definition answer_is :: "string \<Rightarrow> char \<Rightarrow> bool" where
  "answer_is s t \<longleftrightarrow> py_strip s = [t] \<or> py_strip s = [char_of (of_char t + (32::nat))]"

lemma eq_char_of_iff: "c = char_of n \<longleftrightarrow> take_bit 8 n = (of_char c :: nat)"
  by (subst eq_commute) (rule char_of_eq_iff)

lemmas answer_is_eval = answer_is_def py_strip_def py_isspace_def char_of_eq_iff eq_char_of_iff

definition is_bit_char :: "char \<Rightarrow> bool" where
  "is_bit_char c \<longleftrightarrow> c = CHR ''0'' \<or> c = CHR ''1''"

definition bit_val :: "char \<Rightarrow> nat" where
  "bit_val c = (if c = CHR ''1'' then 1 else 0)"

definition bit_char :: "nat \<Rightarrow> char" where
  "bit_char b = (if b = 0 then CHR ''0'' else CHR ''1'')"

section \<open>Generic lemmas\<close>

lemma py_contains_append_right [intro]:
  "py_contains d xs \<Longrightarrow> py_contains d (xs @ ys)"
  unfolding py_contains_def
  by (metis sublist_append_rightI sublist_order.order_trans)

lemma py_contains_Cons_right [intro]:
  "py_contains d xs \<Longrightarrow> py_contains d (x # xs)"
  unfolding py_contains_def
  by (metis append_Cons append_Nil sublist_append_leftI sublist_order.order_trans)

lemma py_int_char_bit [simp]:
  "is_bit_char c \<Longrightarrow> py_int_char c = Inr (bit_val c)"
  by (auto simp: is_bit_char_def py_int_char_def bit_val_def py_isdecimal_def)

lemma py_int_char_Inl_iff: "(\<exists>e. py_int_char c = Inl e) \<longleftrightarrow> \<not> py_isdecimal c"
  by (simp add: py_int_char_def)

lemma is_bit_char_digit: "is_bit_char c \<Longrightarrow> py_isdecimal c"
  by (auto simp: is_bit_char_def py_isdecimal_def)

lemma bit_char_val [simp]: "is_bit_char c \<Longrightarrow> bit_char (bit_val c) = c"
  by (auto simp: is_bit_char_def bit_char_def bit_val_def)

lemma is_bit_char_bit_char [simp]: "is_bit_char (bit_char b)"
  by (simp add: is_bit_char_def bit_char_def)

lemma bit_val_le_1 [simp]: "bit_val c \<le> 1"
  by (simp add: bit_val_def)

text \<open>
  A prefix of \<open>xs @ d @ r\<close> as long as \<open>d\<close>, with \<open>xs\<close> non-empty, already
  lies in \<open>xs @ butlast d\<close>: the occurrence ends before the last character of
  \<open>d\<close>.
\<close>

lemma prefix_shifted_sublist:
  assumes "prefix d (xs @ d @ r)" and "xs \<noteq> []"
  shows "sublist d (xs @ butlast d)"
proof -
  have len: "length d \<le> length (xs @ butlast d)"
    using assms(2) by (cases xs) auto
  have eq: "xs @ d @ r = (xs @ butlast d) @ (drop (length d - 1) d @ r)"
    by (cases "d = []") (simp_all add: butlast_conv_take)
  have "prefix d ((xs @ butlast d) @ (drop (length d - 1) d @ r))"
    using assms(1) by (simp only: eq)
  then have "prefix d (xs @ butlast d)"
    using len by (metis prefix_def prefix_length_prefix)
  then show ?thesis by (rule prefix_imp_sublist)
qed

lemma sublist_Cons_mono:
  "\<not> sublist d (x # xs) \<Longrightarrow> \<not> sublist d xs"
  by (auto simp: sublist_Cons_right)

text \<open>
  The first occurrence of \<open>d\<close> in \<open>p @ d @ r\<close> starts at the end of \<open>p\<close>
  when \<open>d\<close> does not already occur in \<open>p\<close> followed by a proper prefix of \<open>d\<close>.
\<close>

lemma py_find_from_first:
  "\<not> sublist d (p @ butlast d) \<Longrightarrow> py_find_from d (p @ d @ r) k = int (k + length p)"
proof (induction p arbitrary: k)
  case Nil
  then show ?case by (simp add: py_find_from.simps)
next
  case (Cons x p)
  have np: "\<not> prefix d ((x # p) @ d @ r)"
    using Cons.prems prefix_shifted_sublist by blast
  have "\<not> sublist d (p @ butlast d)"
    using Cons.prems sublist_Cons_mono by (metis append_Cons)
  then have "py_find_from d (p @ d @ r) (Suc k) = int (Suc k + length p)"
    by (rule Cons.IH)
  with np show ?case by (simp add: py_find_from.simps [of d "x # p @ d @ r"])
qed

lemma py_find_first:
  "\<not> sublist d (p @ butlast d) \<Longrightarrow> py_find (p @ d @ r) d = int (length p)"
  by (simp add: py_find_def py_find_from_first)

lemma nonmember_take:
  "j < n \<Longrightarrow> j < length xs \<Longrightarrow> \<not> P (xs ! j) \<Longrightarrow> \<not> list_all P (take n xs)"
  by (auto simp: list_all_length)

end
