(* ===== verification/Image.thy ===== *)
theory Image
  imports Prelude
begin

text \<open>
  The bitmap that \<open>embed_message\<close> and \<open>retrieve_message\<close> of
  \<open>src/Steganography.py\<close> work on. PIL is an external library: an image is a
  mode, a size and, per pixel, the list of its channel values;
  \<open>image.convert('RGB')\<close> keeps the first three channels of an RGBA pixel and
  replicates the grey value of an L pixel. After the conversion both functions
  see an RGB image, \<open>rgb_image\<close>, whose rows are lists of
  \<open>(r, g, b)\<close> triples: \<open>pixels img ! y ! x\<close> is PIL's \<open>pixels[x, y]\<close>.
  \<open>flat_channels\<close> lists the channels in the order both functions visit
  them (rows top to bottom, pixels left to right, then red, green, blue): it is
  the abstraction the refinement lemmas of the embedder and the extractor are
  stated over. The section proves that a well-formed image has
  \<open>3 * width * height\<close> channels.
\<close>

type_synonym rgb = "byte \<times> byte \<times> byte"

datatype image_mode = Mode_RGB | Mode_RGBA | Mode_L

record image =
  mode :: image_mode
  size :: "nat \<times> nat"
  data :: "byte list list list"

record rgb_image =
  width :: nat
  height :: nat
  pixels :: "rgb list list"

definition mode_channels :: "image_mode \<Rightarrow> nat" where
  "mode_channels m = (case m of Mode_RGB \<Rightarrow> 3 | Mode_RGBA \<Rightarrow> 4 | Mode_L \<Rightarrow> 1)"

text \<open>A decoded PIL image: \<open>height\<close> rows of \<open>width\<close> pixels of the mode's channel count.\<close>

definition wf_pil_image :: "image \<Rightarrow> bool" where
  "wf_pil_image im \<longleftrightarrow>
     length (data im) = snd (size im) \<and>
     (\<forall>row \<in> set (data im). length row = fst (size im) \<and>
        (\<forall>p \<in> set row. length p = mode_channels (mode im)))"

definition wf_image :: "rgb_image \<Rightarrow> bool" where
  "wf_image img \<longleftrightarrow>
     length (pixels img) = height img \<and> (\<forall>row \<in> set (pixels img). length row = width img)"

text \<open>
  PIL's conversion of one pixel to RGB (\<open>image.convert('RGB')\<close>): RGB and RGBA
  keep their first three channels, L replicates its grey value.
\<close>

definition pixel_to_rgb :: "image_mode \<Rightarrow> byte list \<Rightarrow> rgb" where
  "pixel_to_rgb m p =
     (case m of Mode_L \<Rightarrow> (p ! 0, p ! 0, p ! 0) | _ \<Rightarrow> (p ! 0, p ! 1, p ! 2))"

definition convert_rgb :: "image \<Rightarrow> rgb_image" where
  "convert_rgb im =
     \<lparr>width = fst (size im), height = snd (size im),
      pixels = map (map (pixel_to_rgb (mode im))) (data im)\<rparr>"

text \<open>
  \<open>if image.mode != 'RGB': image = image.convert('RGB')\<close> followed by
  \<open>pixels = image.load()\<close> and \<open>width, height = image.size\<close>
  (lines 79--84 and 119--124 of \<open>src/Steganography.py\<close>): the RGB view
  both functions read. An RGB image is read as it is.
\<close>

definition ensure_rgb :: "image \<Rightarrow> rgb_image" where
  "ensure_rgb im =
     (if mode im \<noteq> Mode_RGB then convert_rgb im
      else \<lparr>width = fst (size im), height = snd (size im),
            pixels = map (map (\<lambda>p. (p ! 0, p ! 1, p ! 2))) (data im)\<rparr>)"

text \<open>
  \<open>image.save(output_path)\<close> as PNG and a later \<open>Image.open\<close> of that file:
  PNG is lossless, so the reloaded image is an RGB image with the same pixels.
\<close>

definition rgb_to_image :: "rgb_image \<Rightarrow> image" where
  "rgb_to_image img =
     \<lparr>mode = Mode_RGB, size = (width img, height img),
      data = map (map (\<lambda>(r, g, b). [r, g, b])) (pixels img)\<rparr>"

definition pixel_channels :: "rgb \<Rightarrow> byte list" where
  "pixel_channels p = (case p of (r, g, b) \<Rightarrow> [r, g, b])"

definition row_channels :: "rgb list \<Rightarrow> byte list" where
  "row_channels ps = concat (map pixel_channels ps)"

definition flat_channels :: "rgb list list \<Rightarrow> byte list" where
  "flat_channels rows = concat (map row_channels rows)"

subsection \<open>Small images for the concrete instances of the theorems\<close>

definition rgb_1x1 :: rgb_image where
  "rgb_1x1 = \<lparr>width = 1, height = 1, pixels = [[(0, 0, 0)]]\<rparr>"

definition pil_1x1 :: image where
  "pil_1x1 = \<lparr>mode = Mode_RGB, size = (1, 1), data = [[[0, 0, 0]]]\<rparr>"

definition pil_2x2 :: image where
  "pil_2x2 = \<lparr>mode = Mode_RGB, size = (2, 2), data = [[[0, 0, 0], [0, 0, 0]], [[0, 0, 0], [0, 0, 0]]]\<rparr>"

definition pil_4x2 :: image where
  "pil_4x2 = \<lparr>mode = Mode_RGB, size = (4, 2),
     data = [[[0, 0, 0], [0, 0, 0], [0, 0, 0], [0, 0, 0]], [[0, 0, 0], [0, 0, 0], [0, 0, 0], [0, 0, 0]]]\<rparr>"

text \<open>A black \<open>w \<times> h\<close> RGB image, as \<open>Image.new('RGB', (w, h))\<close> creates it.\<close>

definition blank_pil :: "nat \<Rightarrow> nat \<Rightarrow> image" where
  "blank_pil w h = \<lparr>mode = Mode_RGB, size = (w, h), data = replicate h (replicate w [0, 0, 0])\<rparr>"

section \<open>Lemmas\<close>

lemma length_pixel_channels [simp]: "length (pixel_channels p) = 3"
  by (cases p) (simp add: pixel_channels_def)

lemma row_channels_simps [simp]:
  "row_channels [] = []"
  "row_channels (p # ps) = pixel_channels p @ row_channels ps"
  by (simp_all add: row_channels_def)

lemma flat_channels_simps [simp]:
  "flat_channels [] = []"
  "flat_channels (row # rows) = row_channels row @ flat_channels rows"
  by (simp_all add: flat_channels_def)

lemma length_row_channels [simp]: "length (row_channels ps) = 3 * length ps"
  by (induction ps) simp_all

lemma length_flat_channels_wf:
  "\<forall>row \<in> set rows. length row = w \<Longrightarrow> length (flat_channels rows) = 3 * w * length rows"
  by (induction rows) simp_all

lemma wf_image_channels:
  "wf_image img \<Longrightarrow> length (flat_channels (pixels img)) = 3 * width img * height img"
  unfolding wf_image_def by (metis length_flat_channels_wf)

lemma ensure_rgb_wf: "wf_pil_image im \<Longrightarrow> wf_image (ensure_rgb im)"
  by (auto simp: wf_pil_image_def wf_image_def ensure_rgb_def convert_rgb_def)

lemma ensure_rgb_size [simp]:
  "width (ensure_rgb im) = fst (size im)" "height (ensure_rgb im) = snd (size im)"
  by (simp_all add: ensure_rgb_def convert_rgb_def)

lemma ensure_rgb_to_image [simp]: "ensure_rgb (rgb_to_image img) = img"
  by (simp add: ensure_rgb_def rgb_to_image_def map_idI split_beta)

lemma wf_rgb_to_image: "wf_image img \<Longrightarrow> wf_pil_image (rgb_to_image img)"
  by (auto simp: wf_image_def wf_pil_image_def rgb_to_image_def mode_channels_def)

lemma wf_fixtures:
  "wf_image rgb_1x1" "wf_pil_image pil_1x1" "wf_pil_image pil_2x2" "wf_pil_image pil_4x2"
  by (simp_all add: rgb_1x1_def pil_1x1_def pil_2x2_def pil_4x2_def wf_image_def wf_pil_image_def
      mode_channels_def)

lemma wf_blank_pil: "wf_pil_image (blank_pil w h)"
  by (simp add: blank_pil_def wf_pil_image_def mode_channels_def)

end
