(* ===== verification/Bitstring.thy ===== *)
theory Bitstring
  imports Prelude
begin

text \<open>
  The bit-string conversions of \<open>src/Steganography.py\<close>: the serialisation of
  the message in \<open>embed_message\<close> (line 75, \<open>format(ord(char), '08b')\<close> per
  character, concatenated) and its inverse in \<open>retrieve_message\<close> (line 153,
  \<open>chr(int(binary_message[i:i + 8], 2))\<close> for every \<open>i\<close> in
  \<open>range(0, len(binary_message), 8)\<close>). A message is a list of code points.
  The lemmas show that the serialisation of code points below 256 is 8
  characters each and decodes back (the round trip), that larger code points
  take more than 8 characters, and that decoding never fails on a string of
  bit characters.
\<close>

section \<open>Definitions\<close>

text \<open>
  \<open>format(n, 'b')\<close>: the binary digits of \<open>n\<close>, most significant first,
  without leading zeros (\<open>'0'\<close> for zero).
\<close>

fun bin_digits :: "nat \<Rightarrow> string" where
  "bin_digits n = (if n < 2 then [bit_char n] else bin_digits (n div 2) @ [bit_char (n mod 2)])"

declare bin_digits.simps [simp del]

text \<open>\<open>format(n, '08b')\<close>: the binary digits zero-padded on the left to width 8.\<close>

definition format_08b :: "codepoint \<Rightarrow> string" where
  "format_08b n = (let ds = bin_digits n in replicate (8 - length ds) CHR ''0'' @ ds)"

text \<open>
  \<open>''.join(format(ord(char), '08b') for char in message)\<close>, the payload part
  of \<open>binary_message\<close> at line 75.
\<close>

definition message_bits :: "codepoint list \<Rightarrow> string" where
  "message_bits msg = concat (map format_08b msg)"

text \<open>
  \<open>int(s, 2)\<close>. A non-empty string of \<open>'0'\<close>/\<open>'1'\<close> characters reads as the
  binary number it spells; an empty string or any other character raises
  \<open>ValueError\<close>. (Python also accepts surrounding blanks, a sign, a \<open>0b\<close>
  prefix and underscores; none of these occurs in the strings
  \<open>retrieve_message\<close> builds, which hold bit characters only.)
\<close>

definition bits_value :: "string \<Rightarrow> nat" where
  "bits_value s = foldl (\<lambda>acc c. 2 * acc + bit_val c) 0 s"

definition int_base2 :: "string \<Rightarrow> py_error + nat" where
  "int_base2 s = (if s \<noteq> [] \<and> list_all is_bit_char s then Inr (bits_value s) else Inl ValueError)"

text \<open>\<open>chr(n)\<close>: a code point below \<open>0x110000\<close>, else \<open>ValueError\<close>.\<close>

definition py_chr :: "nat \<Rightarrow> py_error + codepoint" where
  "py_chr n = (if n < 1114112 then Inr n else Inl ValueError)"

text \<open>
  Evaluating a generator expression inside \<open>''.join(...)\<close>: the elements in
  order, the first exception propagating.
\<close>

fun py_map_err :: "('a \<Rightarrow> py_error + 'b) \<Rightarrow> 'a list \<Rightarrow> py_error + 'b list" where
  "py_map_err f [] = Inr []"
| "py_map_err f (x # xs) =
     (case f x of Inl e \<Rightarrow> Inl e
      | Inr y \<Rightarrow> (case py_map_err f xs of Inl e \<Rightarrow> Inl e | Inr ys \<Rightarrow> Inr (y # ys)))"

text \<open>
  \<open>[s[i:i + 8] for i in range(0, len(s), 8)]\<close>: the \<open>k\<close>-th slice starts at
  \<open>8 * k\<close>, and there are \<open>\<lceil>len(s) / 8\<rceil>\<close> of them; the last may be
  shorter than 8.
\<close>

definition chunks8 :: "string \<Rightarrow> string list" where
  "chunks8 s = map (\<lambda>k. take 8 (drop (8 * k) s)) [0..<(length s + 7) div 8]"

text \<open>The decoding at line 153 of \<open>retrieve_message\<close>.\<close>

definition decode_message :: "string \<Rightarrow> py_error + codepoint list" where
  "decode_message s =
     py_map_err (\<lambda>chunk. case int_base2 chunk of Inl e \<Rightarrow> Inl e | Inr n \<Rightarrow> py_chr n) (chunks8 s)"

section \<open>Binary digits\<close>

lemma bin_digits_bits: "list_all is_bit_char (bin_digits n)"
proof (induction n rule: bin_digits.induct)
  case (1 n)
  then show ?case by (simp add: bin_digits.simps [of n])
qed

lemma bin_digits_nonempty: "bin_digits n \<noteq> []"
  by (simp add: bin_digits.simps [of n])

lemma bits_value_snoc [simp]: "bits_value (s @ [c]) = 2 * bits_value s + bit_val c"
  by (simp add: bits_value_def)

lemma bit_val_bit_char [simp]: "bit_val (bit_char b) = (if b = 0 then 0 else 1)"
  by (simp add: bit_val_def bit_char_def)

lemma bits_value_bin_digits [simp]: "bits_value (bin_digits n) = n"
proof (induction n rule: bin_digits.induct)
  case (1 n)
  show ?case
  proof (cases "n < 2")
    case True
    then show ?thesis
      by (auto simp: bin_digits.simps [of n] bits_value_def)
  next
    case False
    then have "bits_value (bin_digits (n div 2)) = n div 2" by (rule "1.IH")
    with False show ?thesis
      by (simp add: bin_digits.simps [of n]) presburger
  qed
qed

lemma bits_value_zeros [simp]: "bits_value (replicate k CHR ''0'' @ s) = bits_value s"
proof -
  have "foldl (\<lambda>acc c. 2 * acc + bit_val c) 0 (replicate k CHR ''0'') = 0"
    by (induction k) (simp_all add: bit_val_def)
  then show ?thesis by (simp add: bits_value_def)
qed

lemma length_bin_digits_le: "n < 2 ^ Suc k \<Longrightarrow> length (bin_digits n) \<le> Suc k"
proof (induction k arbitrary: n)
  case 0
  then show ?case by (simp add: bin_digits.simps [of n])
next
  case (Suc k)
  show ?case
  proof (cases "n < 2")
    case True
    then show ?thesis by (simp add: bin_digits.simps [of n])
  next
    case False
    have "n div 2 < 2 ^ Suc k" using Suc.prems by simp
    then have "length (bin_digits (n div 2)) \<le> Suc k" by (rule Suc.IH)
    with False show ?thesis by (simp add: bin_digits.simps [of n])
  qed
qed

lemma length_bin_digits_gt: "2 ^ k \<le> n \<Longrightarrow> k < length (bin_digits n)"
proof (induction k arbitrary: n)
  case 0
  then show ?case by (simp add: bin_digits_nonempty)
next
  case (Suc k)
  have "(2::nat) \<le> 2 ^ Suc k" by simp
  then have "\<not> n < 2" using Suc.prems by linarith
  have "2 ^ k \<le> n div 2"
    using div_le_mono [OF Suc.prems, of 2] by simp
  moreover have "k < length (bin_digits (n div 2))"
    using \<open>2 ^ k \<le> n div 2\<close> by (rule Suc.IH)
  ultimately show ?case using \<open>\<not> n < 2\<close> by (simp add: bin_digits.simps [of n])
qed

section \<open>The 8-character serialisation\<close>

lemma format_08b_length [simp]: "n < 256 \<Longrightarrow> length (format_08b n) = 8"
  using length_bin_digits_le [of n 7] by (simp add: format_08b_def Let_def)

lemma zeros_bits: "list_all is_bit_char (replicate k CHR ''0'')"
  by (induction k) (simp_all add: is_bit_char_def)

lemma format_08b_bits: "list_all is_bit_char (format_08b n)"
  by (simp add: format_08b_def Let_def bin_digits_bits zeros_bits)

lemma format_08b_value: "bits_value (format_08b n) = n"
  by (simp add: format_08b_def Let_def)

lemma int_base2_format_08b: "int_base2 (format_08b n) = Inr n"
  using format_08b_bits [of n]
  by (simp add: int_base2_def format_08b_value format_08b_def Let_def bin_digits_nonempty)

lemma format_08b_long: "256 \<le> n \<Longrightarrow> 8 < length (format_08b n)"
  using length_bin_digits_gt [of 8 n] by (simp add: format_08b_def Let_def)

section \<open>The message serialisation and its decoding\<close>

lemma message_bits_bits: "list_all is_bit_char (message_bits msg)"
  by (induction msg) (simp_all add: message_bits_def format_08b_bits)

lemma length_message_bits:
  "\<forall>c \<in> set msg. c < 256 \<Longrightarrow> length (message_bits msg) = 8 * length msg"
  by (induction msg) (simp_all add: message_bits_def)

lemma bits_value_less: "bits_value s < 2 ^ length s"
proof (induction s rule: rev_induct)
  case Nil
  then show ?case by (simp add: bits_value_def)
next
  case (snoc c s)
  then show ?case using bit_val_le_1 [of c] by simp
qed

lemma take_drop_concat_fixed:
  assumes "\<forall>x \<in> set xs. length (f x) = n" and "k < length xs"
  shows "take n (drop (n * k) (concat (map f xs))) = f (xs ! k)"
  using assms
proof (induction xs arbitrary: k)
  case Nil
  then show ?case by simp
next
  case (Cons x xs)
  show ?case
  proof (cases k)
    case 0
    with Cons.prems show ?thesis by simp
  next
    case (Suc j)
    with Cons.prems have "take n (drop (n * j) (concat (map f xs))) = f (xs ! j)"
      by (intro Cons.IH) auto
    with Suc Cons.prems show ?thesis by (simp add: add.commute)
  qed
qed

lemma chunks8_message_bits:
  "\<forall>c \<in> set msg. c < 256 \<Longrightarrow> chunks8 (message_bits msg) = map format_08b msg"
proof -
  assume small: "\<forall>c \<in> set msg. c < 256"
  then have len: "(length (message_bits msg) + 7) div 8 = length msg"
    by (simp add: length_message_bits)
  have "take 8 (drop (8 * k) (message_bits msg)) = format_08b (msg ! k)"
    if "k < length msg" for k
    using small that unfolding message_bits_def
    by (intro take_drop_concat_fixed) simp_all
  then show ?thesis
    by (simp add: chunks8_def len map_equality_iff map_nth [symmetric])
qed

lemma py_map_err_Inr:
  "\<forall>x \<in> set xs. f x = Inr (g x) \<Longrightarrow> py_map_err f xs = Inr (map g xs)"
  by (induction xs) simp_all

lemma py_map_err_map: "py_map_err f (map g xs) = py_map_err (f \<circ> g) xs"
  by (induction xs) (simp_all split: sum.splits)

lemma py_map_err_Inl_iff:
  "(\<exists>e. py_map_err f xs = Inl e) \<longleftrightarrow> (\<exists>x \<in> set xs. \<exists>e. f x = Inl e)"
  by (induction xs) (auto split: sum.splits)

lemma py_map_err_bits:
  "list_all is_bit_char s \<Longrightarrow> py_map_err py_int_char s = Inr (map bit_val s)"
  by (simp add: py_map_err_Inr list_all_iff)

lemma chunks8_nonempty:
  "ch \<in> set (chunks8 s) \<Longrightarrow> ch \<noteq> [] \<and> length ch \<le> 8 \<and> set ch \<subseteq> set s"
  by (auto simp: chunks8_def dest: in_set_takeD in_set_dropD)

section \<open>Decoding\<close>

lemma decode_chunk_bits:
  assumes "ch \<noteq> []" and "length ch \<le> 8" and "list_all is_bit_char ch"
  shows "(case int_base2 ch of Inl e \<Rightarrow> Inl e | Inr n \<Rightarrow> py_chr n) = Inr (bits_value ch)"
proof -
  have "bits_value ch < 2 ^ length ch" by (rule bits_value_less)
  also have "(2::nat) ^ length ch \<le> 2 ^ 8" using assms(2) by (intro power_increasing) simp_all
  finally have "bits_value ch < 1114112" by simp
  with assms show ?thesis by (simp add: int_base2_def py_chr_def)
qed

lemma decode_message_bits:
  "\<forall>c \<in> set msg. c < 256 \<Longrightarrow> decode_message (message_bits msg) = Inr msg"
proof -
  assume small: "\<forall>c \<in> set msg. c < 256"
  have "\<forall>c \<in> set msg.
          (case int_base2 (format_08b c) of Inl e \<Rightarrow> Inl e | Inr n \<Rightarrow> py_chr n) = Inr (id c)"
    using small by (auto simp: int_base2_format_08b py_chr_def)
  then have "py_map_err (\<lambda>c. case int_base2 (format_08b c) of Inl e \<Rightarrow> Inl e | Inr n \<Rightarrow> py_chr n) msg
               = Inr (map id msg)"
    by (rule py_map_err_Inr)
  then show ?thesis
    using small by (simp add: decode_message_def chunks8_message_bits py_map_err_map comp_def)
qed

text \<open>
  C5: decoding the serialisation of a message of code points below 256 gives
  the message back.
\<close>

theorem decode_message_roundtrip:
  "\<forall>c \<in> set msg. c < 256 \<Longrightarrow> decode_message (message_bits msg) = Inr msg"
  by (rule decode_message_bits)

theorem decode_message_roundtrip_witness:
  "(72::nat) < 256 \<and> (105::nat) < 256 \<and> decode_message (message_bits [72, 105]) = Inr [72, 105]"
  using decode_message_roundtrip [of "[72, 105]"] by simp

lemma decode_message_bit_string:
  "list_all is_bit_char s \<Longrightarrow> decode_message s = Inr (map bits_value (chunks8 s))"
proof -
  assume bits: "list_all is_bit_char s"
  have "\<forall>ch \<in> set (chunks8 s).
          (case int_base2 ch of Inl e \<Rightarrow> Inl e | Inr n \<Rightarrow> py_chr n) = Inr (bits_value ch)"
  proof
    fix ch assume ch: "ch \<in> set (chunks8 s)"
    then have "ch \<noteq> []" "length ch \<le> 8" "set ch \<subseteq> set s" by (auto dest: chunks8_nonempty)
    moreover from this(3) bits have "list_all is_bit_char ch" by (auto simp: list_all_iff)
    ultimately show "(case int_base2 ch of Inl e \<Rightarrow> Inl e | Inr n \<Rightarrow> py_chr n) = Inr (bits_value ch)"
      by (intro decode_chunk_bits)
  qed
  then show ?thesis by (simp add: decode_message_def py_map_err_Inr)
qed

lemma chunks8_length: "length (chunks8 s) = (length s + 7) div 8"
  by (simp add: chunks8_def)

lemma chunks8_last:
  assumes "length s mod 8 \<noteq> 0"
  shows "last (chunks8 s) = drop (8 * (length s div 8)) s"
proof -
  have n: "(length s + 7) div 8 = Suc (length s div 8)" using assms by presburger
  have "length (drop (8 * (length s div 8)) s) \<le> 8"
    by (simp add: minus_mod_eq_mult_div [symmetric])
  then show ?thesis by (simp add: chunks8_def n last_map)
qed

text \<open>
  C15: a bit string whose length is no multiple of 8 is not cut to whole
  bytes: its last, shorter chunk of \<open>length mod 8\<close> bits is decoded as a code
  point of its own, below \<open>2 ^ (length mod 8)\<close>, after the
  \<open>length div 8\<close> whole bytes.
\<close>

theorem decode_message_partial_chunk:
  assumes "list_all is_bit_char s" and "length s mod 8 \<noteq> 0"
  shows "\<exists>cs. decode_message s = Inr cs \<and> length cs = length s div 8 + 1 \<and>
    last cs = bits_value (drop (8 * (length s div 8)) s) \<and> last cs < 2 ^ (length s mod 8)"
proof -
  have n: "(length s + 7) div 8 = length s div 8 + 1" using assms(2) by presburger
  have ne: "chunks8 s \<noteq> []" using n by (simp add: chunks8_def)
  have "length (drop (8 * (length s div 8)) s) = length s mod 8" by (simp add: minus_mod_eq_mult_div [symmetric])
  then have "bits_value (drop (8 * (length s div 8)) s) < 2 ^ (length s mod 8)" by (metis bits_value_less)
  then show ?thesis
    using decode_message_bit_string [OF assms(1)] chunks8_last [OF assms(2)] ne n
    by (simp add: last_map chunks8_length)
qed

theorem decode_message_partial_chunk_witness:
  "list_all is_bit_char ''0100000101'' \<and> length ''0100000101'' mod 8 \<noteq> 0 \<and>
   (\<exists>cs. decode_message ''0100000101'' = Inr cs \<and> length cs = length ''0100000101'' div 8 + 1 \<and>
      last cs = bits_value (drop (8 * (length ''0100000101'' div 8)) ''0100000101'') \<and>
      last cs < 2 ^ (length ''0100000101'' mod 8))"
proof -
  have h1: "list_all is_bit_char ''0100000101''" by (simp add: is_bit_char_def)
  have h2: "length ''0100000101'' mod 8 \<noteq> 0" by simp
  show ?thesis by (intro conjI h1 h2 decode_message_partial_chunk [OF h1 h2])
qed

end
