(* ===== verification/Capacity.thy ===== *)
theory Capacity
  imports Prelude
begin

text \<open>
  The capacity estimator, \<open>calculate_max_message_size\<close> of
  \<open>src/Steganography.py\<close> (lines 26--31): one bit per colour channel, three
  channels per pixel, eight bits per character. The lemmas bound the number of
  channel bits a message of at most that many 8-bit characters needs.
\<close>

definition calculate_max_message_size :: "nat \<times> nat \<Rightarrow> nat" where
  "calculate_max_message_size sz =
     (case sz of (width, height) \<Rightarrow>
        let max_bits = width * height * 3 in max_bits div 8)"

lemma capacity_bits_le: "8 * calculate_max_message_size (w, h) \<le> 3 * w * h"
  by (simp add: calculate_max_message_size_def)

lemma capacity_bits_gt: "3 * w * h < 8 * (calculate_max_message_size (w, h) + 1)"
  by (simp add: calculate_max_message_size_def)

text \<open>
  C9: the estimate is exactly the largest number of 8-bit characters whose bits
  fit into the \<open>3 * width * height\<close> channels.
\<close>

theorem capacity_is_max_chars:
  "8 * n \<le> 3 * w * h \<longleftrightarrow> n \<le> calculate_max_message_size (w, h)"
  by (simp add: calculate_max_message_size_def less_eq_div_iff_mult_less_eq ac_simps)

end
