(* ===== verification/Embed.thy ===== *)
theory Embed
  imports Image Bitstring Capacity
begin

text \<open>
  The embedder, \<open>embed_message\<close> of \<open>src/Steganography.py\<close> (lines 56--112).
  \<open>embed_pixel\<close> is the body of the pixel loop (lines 89--107),
  \<open>embed_cols\<close> and \<open>embed_rows\<close> are the two nested \<open>for\<close> loops over
  \<open>range(width)\<close> and \<open>range(height)\<close>, reading and writing
  \<open>pixels[x, y]\<close> by index and threading \<open>binary_index\<close>;
  \<open>embed_image\<close> runs them on the RGB view and \<open>embed_message\<close> is the whole
  function, with its capacity warning, the user's confirmation and the
  construction of \<open>binary_message\<close>. \<open>int(binary_message[binary_index])\<close>
  raises \<open>ValueError\<close> on a character that is no decimal digit: the
  exception propagates out of the program, so every loop returns
  \<open>py_error + _\<close>.

  The reference is \<open>embed_flat\<close>: the first \<open>length cs\<close> characters of the bit
  string, converted by \<open>int\<close>, written into the least significant bits of the
  flat channel list \<open>cs\<close> (\<open>write_lsbs\<close>). The lemmas prove the nested index
  loops equal to it (\<open>embed_image_refines\<close>), characterise when embedding
  raises, show that only channels with a bit to carry change and that a
  binary digit changes a channel in its least significant bit only.
\<close>

section \<open>Definitions\<close>

text \<open>\<open>(v & ~1) | d\<close>: clear the least significant bit, or in the digit's value.\<close>

definition set_lsb :: "byte \<Rightarrow> nat \<Rightarrow> byte" where
  "set_lsb v d = (v AND NOT 1) OR of_nat d"

text \<open>
  Lines 90--107, run when \<open>binary_index < len(binary_message)\<close>: the red
  channel always, green and blue while bits remain; \<open>i\<close> is
  \<open>binary_index\<close>. The result is the new pixel and the new index.
\<close>

definition embed_channel :: "string \<Rightarrow> nat \<Rightarrow> byte \<Rightarrow> py_error + byte \<times> nat" where
  "embed_channel bm i c =
     (if i < length bm
      then (case py_int_char (bm ! i) of Inl e \<Rightarrow> Inl e | Inr v \<Rightarrow> Inr (set_lsb c v, Suc i))
      else Inr (c, i))"

definition embed_pixel :: "string \<Rightarrow> nat \<Rightarrow> rgb \<Rightarrow> py_error + rgb \<times> nat" where
  "embed_pixel bm i p =
     (case p of (r, g, b) \<Rightarrow>
       (case py_int_char (bm ! i) of
          Inl e \<Rightarrow> Inl e
        | Inr vr \<Rightarrow>
           (case embed_channel bm (Suc i) g of
              Inl e \<Rightarrow> Inl e
            | Inr (g', i2) \<Rightarrow>
               (case embed_channel bm i2 b of
                  Inl e \<Rightarrow> Inl e
                | Inr (b', i3) \<Rightarrow> Inr ((set_lsb r vr, g', b'), i3)))))"

text \<open>
  \<open>for x in range(width): if binary_index < len(binary_message): ...;
  pixels[x, y] = (r, g, b)\<close>. The state is \<open>(binary_index, pixels)\<close>.
\<close>

fun embed_cols ::
  "string \<Rightarrow> nat \<Rightarrow> nat list \<Rightarrow> nat \<times> rgb list list \<Rightarrow> py_error + nat \<times> rgb list list" where
  "embed_cols bm y [] st = Inr st"
| "embed_cols bm y (x # xs) (i, px) =
     (if i < length bm then
        (case embed_pixel bm i (px ! y ! x) of
           Inl e \<Rightarrow> Inl e
         | Inr (p, i') \<Rightarrow> embed_cols bm y xs (i', px[y := (px ! y)[x := p]]))
      else embed_cols bm y xs (i, px))"

text \<open>\<open>for y in range(height): for x in range(width): ...\<close>\<close>

fun embed_rows ::
  "string \<Rightarrow> nat \<Rightarrow> nat list \<Rightarrow> nat \<times> rgb list list \<Rightarrow> py_error + nat \<times> rgb list list" where
  "embed_rows bm w [] st = Inr st"
| "embed_rows bm w (y # ys) st =
     (case embed_cols bm y [0..<w] st of Inl e \<Rightarrow> Inl e | Inr st' \<Rightarrow> embed_rows bm w ys st')"

text \<open>Lines 76--107 on the RGB view: \<open>binary_index = 0\<close>, then the loops.\<close>

definition embed_image :: "rgb_image \<Rightarrow> string \<Rightarrow> py_error + rgb_image" where
  "embed_image img bm =
     (case embed_rows bm (width img) [0..<height img] (0, pixels img) of
        Inl e \<Rightarrow> Inl e
      | Inr (_, px) \<Rightarrow> Inr (img\<lparr>pixels := px\<rparr>))"

text \<open>
  The outcome of \<open>embed_message\<close>: the user declined to embed an oversized
  message (line 70, \<open>return\<close>), an exception ended the program, or the
  modified image was saved (lines 110--112).
\<close>

datatype embed_outcome = Aborted | Embed_Raised py_error | Saved rgb_image

text \<open>
  \<open>embed_message(image, delimiter)\<close> (\<open>im\<close> is \<open>image\<close>) with the user's two answers as
  arguments: \<open>message\<close> (line 63, as code points) and \<open>confirmation\<close>
  (line 67, read only when the message is longer than the capacity).
\<close>

definition embed_message :: "image \<Rightarrow> string \<Rightarrow> codepoint list \<Rightarrow> string \<Rightarrow> embed_outcome" where
  "embed_message im delimiter message confirmation =
     (let max_message_size = calculate_max_message_size (size im) in
      if max_message_size < length message \<and> \<not> answer_is confirmation CHR ''Y'' then Aborted
      else
        let binary_message = message_bits message @ delimiter in
        (case embed_image (ensure_rgb im) binary_message of
           Inl e \<Rightarrow> Embed_Raised e
         | Inr img \<Rightarrow> Saved img))"

subsection \<open>The reference: writing bits into a flat channel list\<close>

fun write_lsbs :: "nat list \<Rightarrow> byte list \<Rightarrow> byte list" where
  "write_lsbs [] cs = cs"
| "write_lsbs (d # ds) [] = []"
| "write_lsbs (d # ds) (c # cs) = set_lsb c d # write_lsbs ds cs"

definition embed_flat :: "string \<Rightarrow> byte list \<Rightarrow> py_error + byte list" where
  "embed_flat bm cs =
     (case py_map_err py_int_char (take (length cs) bm) of
        Inl e \<Rightarrow> Inl e
      | Inr ds \<Rightarrow> Inr (write_lsbs ds cs))"

text \<open>
  The flat loop the nested loops implement: one channel at a time, guarded by
  \<open>binary_index < len(binary_message)\<close>.
\<close>

fun embed_chans :: "string \<Rightarrow> nat \<Rightarrow> byte list \<Rightarrow> py_error + byte list \<times> nat" where
  "embed_chans bm i [] = Inr ([], i)"
| "embed_chans bm i (c # cs) =
     (case embed_channel bm i c of
        Inl e \<Rightarrow> Inl e
      | Inr (c', i') \<Rightarrow>
         (case embed_chans bm i' cs of Inl e \<Rightarrow> Inl e | Inr (cs', i'') \<Rightarrow> Inr (c' # cs', i'')))"

text \<open>The same loop over a list of pixels, the pixel at a time.\<close>

fun embed_row :: "string \<Rightarrow> nat \<Rightarrow> rgb list \<Rightarrow> py_error + rgb list \<times> nat" where
  "embed_row bm i [] = Inr ([], i)"
| "embed_row bm i (p # ps) =
     (if i < length bm then
        (case embed_pixel bm i p of
           Inl e \<Rightarrow> Inl e
         | Inr (p', i') \<Rightarrow>
            (case embed_row bm i' ps of Inl e \<Rightarrow> Inl e | Inr (ps', i'') \<Rightarrow> Inr (p' # ps', i'')))
      else (case embed_row bm i ps of Inl e \<Rightarrow> Inl e | Inr (ps', i'') \<Rightarrow> Inr (p # ps', i'')))"

fun embed_prows :: "string \<Rightarrow> nat \<Rightarrow> rgb list list \<Rightarrow> py_error + rgb list list \<times> nat" where
  "embed_prows bm i [] = Inr ([], i)"
| "embed_prows bm i (row # rows) =
     (case embed_row bm i row of
        Inl e \<Rightarrow> Inl e
      | Inr (row', i') \<Rightarrow>
         (case embed_prows bm i' rows of Inl e \<Rightarrow> Inl e | Inr (rows', i'') \<Rightarrow> Inr (row' # rows', i'')))"

section \<open>The flat loop\<close>

lemma embed_channel_beyond [simp]: "\<not> i < length bm \<Longrightarrow> embed_channel bm i c = Inr (c, i)"
  by (simp add: embed_channel_def)

lemma embed_chans_beyond: "\<not> i < length bm \<Longrightarrow> embed_chans bm i cs = Inr (cs, i)"
  by (induction cs) simp_all

lemma embed_chans_append:
  "embed_chans bm i (cs @ ds) =
     (case embed_chans bm i cs of
        Inl e \<Rightarrow> Inl e
      | Inr (cs', i') \<Rightarrow>
         (case embed_chans bm i' ds of Inl e \<Rightarrow> Inl e | Inr (ds', i'') \<Rightarrow> Inr (cs' @ ds', i'')))"
  by (induction cs arbitrary: i) (auto split: sum.splits prod.splits)

text \<open>
  The flat loop in closed form: it converts the next \<open>length cs\<close> characters
  from \<open>i\<close> on and writes them.
\<close>

lemma embed_chans_closed:
  "embed_chans bm i cs =
     (case py_map_err py_int_char (take (length cs) (drop i bm)) of
        Inl e \<Rightarrow> Inl e
      | Inr ds \<Rightarrow> Inr (write_lsbs ds cs, i + length ds))"
proof (induction cs arbitrary: i)
  case Nil
  then show ?case by simp
next
  case (Cons c cs)
  show ?case
  proof (cases "i < length bm")
    case True
    then have "drop i bm = bm ! i # drop (Suc i) bm"
      by (rule Cons_nth_drop_Suc [symmetric])
    then have d: "take (Suc (length cs)) (drop i bm) = bm ! i # take (length cs) (drop (Suc i) bm)"
      by simp
    show ?thesis
      using True Cons.IH [of "Suc i"]
      by (simp add: d embed_channel_def split: sum.splits)
  next
    case False
    then show ?thesis by (simp add: embed_chans_beyond)
  qed
qed

section \<open>Pixels, rows and images against the flat loop\<close>

lemma embed_pixel_chans:
  "i < length bm \<Longrightarrow>
     embed_chans bm i (pixel_channels p) =
       map_sum id (\<lambda>(p', i'). (pixel_channels p', i')) (embed_pixel bm i p)"
  by (cases p)
    (auto simp: embed_pixel_def pixel_channels_def embed_channel_def split: sum.splits prod.splits)

lemma embed_row_chans:
  "embed_chans bm i (row_channels ps) =
     map_sum id (\<lambda>(ps', i'). (row_channels ps', i')) (embed_row bm i ps)"
proof (induction ps arbitrary: i)
  case Nil
  then show ?case by simp
next
  case (Cons p ps)
  show ?case
  proof (cases "i < length bm")
    case True
    then show ?thesis
      using Cons.IH
      by (auto simp: embed_chans_append embed_pixel_chans split: sum.splits prod.splits)
  next
    case False
    then show ?thesis
      using Cons.IH
      by (auto simp: embed_chans_append embed_chans_beyond split: sum.splits prod.splits)
  qed
qed

lemma embed_prows_chans:
  "embed_chans bm i (flat_channels rows) =
     map_sum id (\<lambda>(rows', i'). (flat_channels rows', i')) (embed_prows bm i rows)"
  by (induction rows arbitrary: i)
    (auto simp: embed_chans_append embed_row_chans split: sum.splits prod.splits)

lemma embed_row_length:
  "embed_row bm i ps = Inr (ps', i') \<Longrightarrow> length ps' = length ps"
  by (induction ps arbitrary: i ps' i') (auto split: if_splits sum.splits prod.splits)

text \<open>
  The inner index loop over \<open>[k..<width]\<close> of row \<open>y\<close> rewrites the suffix
  of that row from \<open>k\<close> on, as the structural row loop does.
\<close>

lemma embed_cols_row:
  assumes "y < length px" and "k \<le> length (px ! y)"
  shows "embed_cols bm y [k..<length (px ! y)] (i, px) =
           map_sum id (\<lambda>(ps', i'). (i', px[y := take k (px ! y) @ ps']))
             (embed_row bm i (drop k (px ! y)))"
  using assms
proof (induction "length (px ! y) - k" arbitrary: k i px)
  case 0
  then show ?case by simp
next
  case (Suc m)
  let ?row = "px ! y"
  have k: "k < length ?row" using Suc.hyps by simp
  have upt: "[k..<length ?row] = k # [Suc k..<length ?row]"
    using k by (simp add: upt_conv_Cons)
  have drop: "drop k ?row = ?row ! k # drop (Suc k) ?row"
    using k by (rule Cons_nth_drop_Suc [symmetric])
  show ?case
  proof (cases "i < length bm")
    case False
    have "embed_cols bm y [Suc k..<length ?row] (i, px) =
            map_sum id (\<lambda>(ps', i'). (i', px[y := take (Suc k) ?row @ ps']))
              (embed_row bm i (drop (Suc k) ?row))"
      using Suc.hyps Suc.prems by (intro Suc.hyps(1)) simp_all
    with False show ?thesis
      by (auto simp: upt drop take_Suc_conv_app_nth [OF k] split: sum.splits prod.splits)
  next
    case True
    show ?thesis
    proof (cases "embed_pixel bm i (?row ! k)")
      case (Inl e)
      with True show ?thesis by (simp add: upt drop)
    next
      case (Inr r)
      obtain p i' where r: "r = (p, i')" by (cases r)
      let ?px = "px[y := ?row[k := p]]"
      have row': "?px ! y = ?row[k := p]" using Suc.prems by simp
      have "embed_cols bm y [Suc k..<length (?px ! y)] (i', ?px) =
              map_sum id (\<lambda>(ps', i''). (i'', ?px[y := take (Suc k) (?px ! y) @ ps']))
                (embed_row bm i' (drop (Suc k) (?px ! y)))"
        using Suc.hyps Suc.prems row' by (intro Suc.hyps(1)) simp_all
      then have "embed_cols bm y [Suc k..<length ?row] (i', ?px) =
              map_sum id (\<lambda>(ps', i''). (i'', px[y := take k ?row @ p # ps']))
                (embed_row bm i' (drop (Suc k) ?row))"
        using k by (simp add: row' take_Suc_conv_app_nth)
      with True Inr r show ?thesis
        by (auto simp: upt drop split: sum.splits prod.splits)
    qed
  qed
qed

text \<open>
  The outer index loop over \<open>[j..<height]\<close> rewrites the rows from \<open>j\<close> on,
  as the structural loop over the rows does.
\<close>

lemma embed_rows_prows:
  assumes "\<forall>row \<in> set px. length row = w" and "j \<le> length px"
  shows "embed_rows bm w [j..<length px] (i, px) =
           map_sum id (\<lambda>(rows', i'). (i', take j px @ rows')) (embed_prows bm i (drop j px))"
  using assms
proof (induction "length px - j" arbitrary: j i px)
  case 0
  then show ?case by simp
next
  case (Suc m)
  have j: "j < length px" using Suc.hyps by simp
  have w: "length (px ! j) = w" using Suc.prems j by simp
  have upt: "[j..<length px] = j # [Suc j..<length px]"
    using j by (simp add: upt_conv_Cons)
  have drop: "drop j px = px ! j # drop (Suc j) px"
    using j by (rule Cons_nth_drop_Suc [symmetric])
  have cols: "embed_cols bm j [0..<w] (i, px) =
                map_sum id (\<lambda>(ps', i'). (i', px[j := ps'])) (embed_row bm i (px ! j))"
    using embed_cols_row [of j px 0 bm i] j w by simp
  show ?case
  proof (cases "embed_row bm i (px ! j)")
    case (Inl e)
    then show ?thesis by (simp add: upt drop cols)
  next
    case (Inr r)
    obtain ps' i' where r: "r = (ps', i')" by (cases r)
    have len: "length ps' = w" using Inr r w embed_row_length by metis
    let ?px = "px[j := ps']"
    have "embed_rows bm w [Suc j..<length ?px] (i', ?px) =
            map_sum id (\<lambda>(rows', i''). (i'', take (Suc j) ?px @ rows'))
              (embed_prows bm i' (drop (Suc j) ?px))"
      using Suc.hyps Suc.prems len
      by (intro Suc.hyps(1)) (auto dest: set_update_subset_insert [THEN subsetD])
    then have "embed_rows bm w [Suc j..<length px] (i', ?px) =
            map_sum id (\<lambda>(rows', i''). (i'', take j px @ ps' # rows'))
              (embed_prows bm i' (drop (Suc j) px))"
      using j by (simp add: take_Suc_conv_app_nth)
    with Inr r show ?thesis
      by (auto simp: upt drop cols split: sum.splits prod.splits)
  qed
qed

lemma embed_image_prows:
  "wf_image img \<Longrightarrow>
     embed_image img bm =
       map_sum id (\<lambda>(rows', _). img\<lparr>pixels := rows'\<rparr>) (embed_prows bm 0 (pixels img))"
  using embed_rows_prows [of "pixels img" "width img" 0 bm 0]
  by (cases "embed_prows bm 0 (pixels img)")
    (auto simp: embed_image_def wf_image_def split: prod.splits)

lemma embed_image_flat:
  assumes "wf_image img"
  shows "map_sum id (\<lambda>img'. flat_channels (pixels img')) (embed_image img bm) =
           embed_flat bm (flat_channels (pixels img))"
proof -
  have "embed_chans bm 0 (flat_channels (pixels img)) =
          map_sum id (\<lambda>(rows', i'). (flat_channels rows', i')) (embed_prows bm 0 (pixels img))"
    by (rule embed_prows_chans)
  then show ?thesis
    using embed_image_prows [OF assms, of bm]
    by (cases "embed_prows bm 0 (pixels img)")
      (auto simp: embed_flat_def embed_chans_closed split: sum.splits prod.splits)
qed

section \<open>What embedding writes\<close>

lemma length_write_lsbs [simp]: "length (write_lsbs ds cs) = length cs"
  by (induction ds cs rule: write_lsbs.induct) simp_all

lemma write_lsbs_nth:
  "i < length cs \<Longrightarrow>
     write_lsbs ds cs ! i = (if i < length ds then set_lsb (cs ! i) (ds ! i) else cs ! i)"
  by (induction ds cs arbitrary: i rule: write_lsbs.induct) (auto simp: nth_Cons split: nat.splits)

lemma write_lsbs_drop: "drop (length ds) (write_lsbs ds cs) = drop (length ds) cs"
  by (induction ds cs rule: write_lsbs.induct) simp_all

lemma embed_flat_Inl_iff:
  "(\<exists>e. embed_flat bm cs = Inl e) \<longleftrightarrow> \<not> list_all py_isdecimal (take (length cs) bm)"
  using py_map_err_Inl_iff [of py_int_char "take (length cs) bm"]
  by (auto simp: embed_flat_def py_int_char_Inl_iff list_all_iff split: sum.splits)

lemma embed_flat_bits:
  "list_all is_bit_char (take (length cs) bm) \<Longrightarrow>
     embed_flat bm cs = Inr (write_lsbs (map bit_val (take (length cs) bm)) cs)"
  by (simp add: embed_flat_def py_map_err_bits)

lemma embed_image_shape:
  assumes "wf_image img" and "embed_image img bm = Inr img'"
  shows "wf_image img' \<and> width img' = width img \<and> height img' = height img"
proof -
  have rows: "embed_prows bm i rows = Inr (rows', i') \<Longrightarrow>
      length rows' = length rows \<and> (\<forall>r \<in> set rows'. length r = w)"
    if "\<forall>r \<in> set rows. length r = w" for i rows rows' i' w
    using that
    by (induction rows arbitrary: i rows' i')
      (auto split: sum.splits prod.splits dest: embed_row_length)
  show ?thesis
    using assms rows [where rows = "pixels img" and w = "width img" and i = 0]
    by (cases "embed_prows bm 0 (pixels img)")
      (auto simp: embed_image_prows wf_image_def split: prod.splits)
qed

section \<open>Bits of a channel\<close>

lemma set_lsb_bit:
  assumes "d \<le> 1"
  shows "bit (set_lsb v d) n \<longleftrightarrow> (if n = 0 then d = 1 else bit v n)"
proof -
  consider "d = 0" | "d = 1" using assms by linarith
  then show ?thesis
  proof cases
    case 1
    then show ?thesis by (auto simp: set_lsb_def bit_simps dest: bit_imp_le_length)
  next
    case 2
    then have "set_lsb v d = v OR 1" by (auto simp: set_lsb_def bit_simps intro!: bit_eqI)
    then show ?thesis using 2 by (auto simp: bit_simps)
  qed
qed

lemma set_lsb_and_1: "d \<le> 1 \<Longrightarrow> set_lsb v d AND 1 = (if d = 1 then 1 else 0)"
  by (intro bit_eqI) (auto simp: set_lsb_bit bit_simps)

text \<open>
  C8: writing a binary digit changes a channel in its least significant bit only:
  the seven upper bits are kept and the lowest is the digit.
\<close>

theorem set_lsb_only_lsb:
  "d \<le> 1 \<Longrightarrow> set_lsb v d AND NOT 1 = v AND NOT 1 \<and> (set_lsb v d AND 1 = 1 \<longleftrightarrow> d = 1)"
  by (auto simp: set_lsb_and_1 intro!: bit_eqI simp: set_lsb_bit bit_simps)

theorem set_lsb_only_lsb_witness:
  "(1::nat) \<le> 1 \<and> set_lsb 200 1 AND NOT 1 = 200 AND NOT 1 \<and> (set_lsb 200 1 AND 1 = 1 \<longleftrightarrow> (1::nat) = 1)"
  using set_lsb_only_lsb [of 1 200] by simp

section \<open>Embedding an image\<close>

lemma embed_image_Inl_iff:
  "wf_image img \<Longrightarrow>
     (\<exists>e. embed_image img bm = Inl e) \<longleftrightarrow> (\<exists>e. embed_flat bm (flat_channels (pixels img)) = Inl e)"
  using embed_image_flat [of img bm] by (cases "embed_image img bm") (auto dest: sym)

lemma embed_image_Inr:
  "wf_image img \<Longrightarrow> embed_image img bm = Inr img' \<Longrightarrow>
     embed_flat bm (flat_channels (pixels img)) = Inr (flat_channels (pixels img'))"
  using embed_image_flat [of img bm] by simp

lemma embed_image_raises:
  assumes "wf_image img"
  shows "(\<exists>e. embed_image img bm = Inl e) \<longleftrightarrow>
           \<not> list_all py_isdecimal (take (3 * width img * height img) bm)"
  using embed_image_Inl_iff [OF assms] embed_flat_Inl_iff wf_image_channels [OF assms]
  by simp

lemma embed_image_writes:
  assumes "wf_image img" and "list_all is_bit_char bm"
  shows "\<exists>img'. embed_image img bm = Inr img' \<and>
           flat_channels (pixels img') =
             write_lsbs (map bit_val (take (3 * width img * height img) bm)) (flat_channels (pixels img))"
proof -
  have bits: "list_all is_bit_char (take (length (flat_channels (pixels img))) bm)"
    using assms(2) by (auto simp: list_all_iff dest: in_set_takeD)
  have ok: "\<not> (\<exists>e. embed_image img bm = Inl e)"
    using embed_image_raises [OF assms(1)] bits is_bit_char_digit
    by (auto simp: wf_image_channels [OF assms(1)] list_all_iff)
  then obtain img' where img': "embed_image img bm = Inr img'"
    by (cases "embed_image img bm") auto
  then have "embed_flat bm (flat_channels (pixels img)) = Inr (flat_channels (pixels img'))"
    by (rule embed_image_Inr [OF assms(1)])
  with img' show ?thesis
    using embed_flat_bits [OF bits] wf_image_channels [OF assms(1)] by auto
qed

section \<open>The embedder's contract\<close>

text \<open>
  C2: the nested index loops of \<open>embed_message\<close> compute the flat reference on
  the raster-order channel list, and a successful run leaves a well-formed image
  of the same size: the loops simulate \<open>embed_flat\<close> under the abstraction
  \<open>flat_channels \<circ> pixels\<close>.
\<close>

theorem embed_image_refines:
  assumes "wf_image img"
  shows "map_sum id (\<lambda>img'. flat_channels (pixels img')) (embed_image img bm) =
           embed_flat bm (flat_channels (pixels img)) \<and>
         (\<forall>img'. embed_image img bm = Inr img' \<longrightarrow>
            wf_image img' \<and> width img' = width img \<and> height img' = height img)"
  using embed_image_flat [OF assms] embed_image_shape [OF assms] by blast

theorem embed_image_refines_witness:
  "wf_image rgb_1x1 \<and>
   map_sum id (\<lambda>img'. flat_channels (pixels img')) (embed_image rgb_1x1 ''01'') =
     embed_flat ''01'' (flat_channels (pixels rgb_1x1)) \<and>
   (\<exists>img'. embed_image rgb_1x1 ''01'' = Inr img' \<and>
      wf_image img' \<and> width img' = width rgb_1x1 \<and> height img' = height rgb_1x1)"
proof -
  have wf: "wf_image rgb_1x1" by (rule wf_fixtures)
  have bits: "list_all is_bit_char ''01''" by (simp add: is_bit_char_def)
  obtain img' where "embed_image rgb_1x1 ''01'' = Inr img'"
    using embed_image_writes [OF wf bits] by blast
  then show ?thesis using wf embed_image_refines [OF wf, of "''01''"] by blast
qed

lemma length_format_08b_ge: "8 \<le> length (format_08b n)"
  by (simp add: format_08b_def Let_def)

lemma length_message_bits_ge: "8 * length msg \<le> length (message_bits msg)"
proof (induction msg)
  case Nil
  then show ?case by (simp add: message_bits_def)
next
  case (Cons c msg)
  then show ?case using length_format_08b_ge [of c] by (simp add: message_bits_def)
qed

text \<open>A message that fits the capacity estimate is embedded without a question.\<close>

lemma embed_message_no_abort:
  "8 * length msg \<le> 3 * fst (size im) * snd (size im) \<Longrightarrow>
     embed_message im d msg conf =
       (case embed_image (ensure_rgb im) (message_bits msg @ d) of
          Inl e \<Rightarrow> Embed_Raised e | Inr img \<Rightarrow> Saved img)"
proof -
  assume "8 * length msg \<le> 3 * fst (size im) * snd (size im)"
  then have "\<not> calculate_max_message_size (size im) < length msg"
    by (cases "size im") (simp add: calculate_max_message_size_def less_eq_div_iff_mult_less_eq
        mult.commute mult.left_commute)
  then show ?thesis by (simp add: embed_message_def Let_def)
qed

lemma py_error_unique: "e = ValueError"
  by (cases e) simp

text \<open>
  C4: \<open>embed_message\<close>, on a message within the capacity, raises
  \<open>ValueError\<close> exactly when one of the characters of \<open>binary_message\<close>
  that the loops reach (the first \<open>3 * width * height\<close>) is no decimal digit.
\<close>

theorem embed_message_raises_iff:
  assumes "wf_pil_image im" and "8 * length msg \<le> 3 * fst (size im) * snd (size im)"
  shows "embed_message im d msg conf = Embed_Raised ValueError \<longleftrightarrow>
           \<not> list_all py_isdecimal (take (3 * fst (size im) * snd (size im)) (message_bits msg @ d))"
proof -
  have wf: "wf_image (ensure_rgb im)" using assms(1) by (rule ensure_rgb_wf)
  have "embed_message im d msg conf = Embed_Raised ValueError \<longleftrightarrow>
          (\<exists>e. embed_image (ensure_rgb im) (message_bits msg @ d) = Inl e)"
    by (auto simp: embed_message_no_abort [OF assms(2)] py_error_unique split: sum.splits)
  also have "\<dots> \<longleftrightarrow> \<not> list_all py_isdecimal (take (3 * fst (size im) * snd (size im)) (message_bits msg @ d))"
    using embed_image_raises [OF wf] by simp
  finally show ?thesis .
qed

theorem embed_message_raises_iff_witness:
  "wf_pil_image \<lparr>mode = Mode_RGB, size = (1, 1), data = [[[0, 0, 0]]]\<rparr> \<and>
   8 * length ([] :: codepoint list) \<le> 3 * 1 * 1 \<and>
   (embed_message \<lparr>mode = Mode_RGB, size = (1, 1), data = [[[0, 0, 0]]]\<rparr> ''0a'' [] '''' =
      Embed_Raised ValueError \<longleftrightarrow>
    \<not> list_all py_isdecimal (take (3 * 1 * 1) (message_bits [] @ ''0a'')))"
proof -
  have wf: "wf_pil_image \<lparr>mode = Mode_RGB, size = (1, 1), data = [[[0 :: byte, 0, 0]]]\<rparr>"
    by (simp add: wf_pil_image_def mode_channels_def)
  have fits: "8 * length ([] :: codepoint list) \<le> 3 * fst (size \<lparr>mode = Mode_RGB, size = (1, 1),
      data = [[[0 :: byte, 0, 0]]]\<rparr>) * snd (size \<lparr>mode = Mode_RGB, size = (1, 1), data = [[[0 :: byte, 0, 0]]]\<rparr>)"
    by simp
  show ?thesis using wf embed_message_raises_iff [OF wf fits, of "''0a''" "''''"] by simp
qed

text \<open>
  C7: with a bit string of \<open>'0'\<close>/\<open>'1'\<close> characters embedding succeeds; the
  channel at raster position \<open>i\<close> gets the \<open>i\<close>-th bit in its least
  significant bit while there is one, and keeps its value after the end of the
  bit string. A bit string longer than \<open>3 * width * height\<close> is cut there.
\<close>

theorem embed_image_bits:
  assumes "wf_image img" and "list_all is_bit_char bm"
  shows "\<exists>img'. embed_image img bm = Inr img' \<and>
           (\<forall>i < 3 * width img * height img.
              flat_channels (pixels img') ! i =
                (if i < length bm then set_lsb (flat_channels (pixels img) ! i) (bit_val (bm ! i))
                 else flat_channels (pixels img) ! i))"
proof -
  obtain img' where emb: "embed_image img bm = Inr img'"
    and flat: "flat_channels (pixels img') =
      write_lsbs (map bit_val (take (3 * width img * height img) bm)) (flat_channels (pixels img))"
    using embed_image_writes [OF assms] by blast
  have "\<forall>i < 3 * width img * height img.
          flat_channels (pixels img') ! i =
            (if i < length bm then set_lsb (flat_channels (pixels img) ! i) (bit_val (bm ! i))
             else flat_channels (pixels img) ! i)"
    using wf_image_channels [OF assms(1)] by (simp add: flat write_lsbs_nth)
  with emb show ?thesis by blast
qed

theorem embed_image_bits_witness:
  "wf_image rgb_1x1 \<and> list_all is_bit_char ''10'' \<and>
   (\<exists>img'. embed_image rgb_1x1 ''10'' = Inr img' \<and>
      (\<forall>i < 3 * width rgb_1x1 * height rgb_1x1.
         flat_channels (pixels img') ! i =
           (if i < length ''10'' then set_lsb (flat_channels (pixels rgb_1x1) ! i) (bit_val (''10'' ! i))
            else flat_channels (pixels rgb_1x1) ! i)))"
proof -
  have wf: "wf_image rgb_1x1" by (rule wf_fixtures)
  have bits: "list_all is_bit_char ''10''" by (simp add: is_bit_char_def)
  show ?thesis using wf bits embed_image_bits [OF wf bits] by blast
qed

end
