(* ===== verification/Pipeline.thy ===== *)
theory Pipeline
  imports Embed Extract
begin

text \<open>
  Where the embedder and the extractor meet: the bit written into a channel
  by \<open>embed_message\<close> is the bit \<open>retrieve_message\<close> reads back, so the stream
  the extractor scans is the embedded bit string followed by the untouched
  channels. The core lemma \<open>embed_retrieve_core\<close> states the whole pipeline on
  any bit string \<open>q @ d @ t\<close> whose first occurrence of the delimiter \<open>d\<close>
  follows \<open>q\<close>: embedding succeeds and retrieving from the saved image decodes
  \<open>q\<close>. The round trip and the collision findings of the root theory are
  instances of it.
\<close>

lemma lsb_char_set_lsb [simp]: "is_bit_char c \<Longrightarrow> lsb_char (set_lsb v (bit_val c)) = c"
  by (auto simp: lsb_char_def set_lsb_and_1 bit_val_def bit_char_def is_bit_char_def)

lemma lsb_stream_write_lsbs:
  "list_all is_bit_char bits \<Longrightarrow> length bits \<le> length cs \<Longrightarrow>
     lsb_stream (write_lsbs (map bit_val bits) cs) = bits @ drop (length bits) (lsb_stream cs)"
proof (induction bits arbitrary: cs)
  case Nil
  then show ?case by simp
next
  case (Cons b bits)
  then obtain c cs' where "cs = c # cs'" by (cases cs) auto
  with Cons show ?case by simp
qed

lemma embed_retrieve_core:
  assumes wf: "wf_pil_image im"
    and bits: "list_all is_bit_char bm"
    and fits: "length bm \<le> 3 * fst (size im) * snd (size im)"
    and split: "bm = q @ d @ t" and d: "d \<noteq> []"
    and first: "\<not> sublist d (q @ butlast d)"
  shows "\<exists>img'. embed_image (ensure_rgb im) bm = Inr img' \<and>
           retrieve_message (rgb_to_image img') d = map_sum id Some (decode_message q)"
proof -
  let ?img = "ensure_rgb im"
  have wfi: "wf_image ?img" using wf by (rule ensure_rgb_wf)
  have take: "take (3 * width ?img * height ?img) bm = bm" using fits by simp
  obtain img' where emb: "embed_image ?img bm = Inr img'"
    and flat: "flat_channels (pixels img') = write_lsbs (map bit_val bm) (flat_channels (pixels ?img))"
    using embed_image_writes [OF wfi bits] take by auto
  have wf': "wf_image img'" using embed_image_shape [OF wfi emb] by simp
  have len: "length bm \<le> length (flat_channels (pixels ?img))"
    using fits wf_image_channels [OF wfi] by simp
  have stream: "lsb_stream (flat_channels (pixels img')) =
                  q @ d @ (t @ drop (length bm) (lsb_stream (flat_channels (pixels ?img))))"
    using lsb_stream_write_lsbs [OF bits len] flat split by simp
  have nohit: "\<not> py_contains d ([] @ butlast (q @ d))"
    using first d by (simp add: py_contains_def butlast_append)
  have hit: "py_contains d ([] @ (q @ d))" by (simp add: py_contains_def)
  have scan: "scan_lsb d [] (lsb_stream (flat_channels (pixels img'))) = q @ d"
    using scan_lsb_stop [OF nohit hit, of "t @ drop (length bm) (lsb_stream (flat_channels (pixels ?img)))"]
      stream d by simp
  have find: "py_find (q @ d) d = int (length q)"
    using py_find_first [OF first, of "[]"] by simp
  have "retrieve_message (rgb_to_image img') d = extract_flat d (flat_channels (pixels img'))"
    using retrieve_message_flat [OF wf_rgb_to_image [OF wf']] by simp
  also have "\<dots> = map_sum id Some (decode_message q)"
    using hit by (simp add: extract_flat_def scan find py_slice_to_def split: sum.splits)
  finally show ?thesis using emb by blast
qed

end
