(* ===== verification/Delimiter.thy ===== *)
theory Delimiter
  imports Prelude
begin

text \<open>
  The delimiter provider of \<open>src/Steganography.py\<close>: \<open>get_delimiter\<close> asks
  whether a custom delimiter is wanted and returns it, the hard-coded default,
  or a random one from \<open>generate_random_delimiter\<close>. The two answers typed at
  the prompts are parameters; the random source is a stream of 53-bit draws.
\<close>

section \<open>Python's \<open>random.choices\<close>\<close>

text \<open>
  \<open>random.choices(population, k=k)\<close> without weights picks
  \<open>population[floor(random() * n)]\<close> \<open>k\<close> times, \<open>n = len(population)\<close>.
  \<open>random()\<close> returns \<open>r / 2^53\<close> for a 53-bit draw \<open>r\<close>; the index is
  computed here exactly (the floating-point product is not rounded).
\<close>

definition random_below :: "nat \<Rightarrow> 53 word \<Rightarrow> nat" where
  "random_below n r = unat r * n div 2 ^ 53"

definition py_choices :: "'a list \<Rightarrow> nat \<Rightarrow> (nat \<Rightarrow> 53 word) \<Rightarrow> 'a list" where
  "py_choices population k rnd =
     map (\<lambda>i. population ! random_below (length population) (rnd i)) [0..<k]"

section \<open>The alphabet and the delimiters\<close>

text \<open>
  \<open>string.ascii_letters + string.digits + string.punctuation\<close>, by code
  point: \<open>a-z\<close>, \<open>A-Z\<close>, \<open>0-9\<close>, then the 32 ASCII punctuation
  characters in code point order.
\<close>

definition alphabet_codes :: "nat list" where
  "alphabet_codes = [97..<123] @ [65..<91] @ [48..<58] @
     [33..<48] @ [58..<65] @ [91..<97] @ [123..<127]"

definition delimiter_alphabet :: string where
  "delimiter_alphabet = map char_of alphabet_codes"

definition generate_random_delimiter :: "nat \<Rightarrow> (nat \<Rightarrow> 53 word) \<Rightarrow> string" where
  "generate_random_delimiter len rnd = py_choices delimiter_alphabet len rnd"

definition default_delimiter :: string where
  "default_delimiter = ''00001111000011110000111100001111''"

definition get_delimiter :: "string \<Rightarrow> string \<Rightarrow> (nat \<Rightarrow> 53 word) \<Rightarrow> string" where
  "get_delimiter choice custom rnd =
     (if answer_is choice CHR ''Y'' then
        (let custom_delimiter = py_strip custom in
         if \<not> list_all is_bit_char custom_delimiter \<or> length custom_delimiter < 15
         then generate_random_delimiter 32 rnd
         else custom_delimiter)
      else if answer_is choice CHR ''N'' then default_delimiter
      else generate_random_delimiter 32 rnd)"

section \<open>Lemmas\<close>

lemma random_below_less: "0 < n \<Longrightarrow> random_below n r < n"
proof -
  assume "0 < n"
  have "unat r < 2 ^ 53" using unsigned_less [of r] by simp
  then have "unat r * n < 2 ^ 53 * n" using \<open>0 < n\<close> by simp
  then show ?thesis by (simp add: random_below_def div_less_iff_less_mult mult.commute)
qed

lemma length_py_choices [simp]: "length (py_choices p k rnd) = k"
  by (simp add: py_choices_def)

lemma nth_py_choices:
  "i < k \<Longrightarrow> py_choices p k rnd ! i = p ! random_below (length p) (rnd i)"
  by (simp add: py_choices_def)

lemma set_py_choices: "p \<noteq> [] \<Longrightarrow> set (py_choices p k rnd) \<subseteq> set p"
  by (auto simp: py_choices_def random_below_less)

lemma length_alphabet_codes [simp]: "length alphabet_codes = 94"
  by (simp add: alphabet_codes_def)

lemma length_delimiter_alphabet [simp]: "length delimiter_alphabet = 94"
  by (simp add: delimiter_alphabet_def)

lemma alphabet_codes_nth:
  "i < 94 \<Longrightarrow> alphabet_codes ! i =
     (if i < 26 then i + 97 else if i < 52 then i + 39 else if i < 62 then i - 4
      else if i < 77 then i - 29 else if i < 84 then i - 19 else if i < 90 then i + 7
      else i + 33)"
proof -
  have eq: "alphabet_codes = map (\<lambda>i.
     if i < 26 then i + 97 else if i < 52 then i + 39 else if i < 62 then i - 4
      else if i < 77 then i - 29 else if i < 84 then i - 19 else if i < 90 then i + 7
      else i + 33) [0..<94]"
    by (simp add: alphabet_codes_def upt_rec)
  assume "i < 94"
  then show ?thesis unfolding eq by simp
qed

lemma alphabet_codes_less: "i < 94 \<Longrightarrow> alphabet_codes ! i < 127"
  by (simp add: alphabet_codes_nth) arith

lemma of_char_alphabet:
  "i < 94 \<Longrightarrow> of_char (delimiter_alphabet ! i) = alphabet_codes ! i"
  using alphabet_codes_less [of i] by (simp add: delimiter_alphabet_def)

lemma is_bit_char_alphabet:
  assumes "i < 94"
  shows "is_bit_char (delimiter_alphabet ! i) \<longleftrightarrow> i = 52 \<or> i = 53"
proof -
  have "is_bit_char c \<longleftrightarrow> (of_char c :: nat) = 48 \<or> (of_char c :: nat) = 49" for c
  proof -
    have "(of_char c :: nat) = of_char d \<longleftrightarrow> c = d" for d by simp
    from this [of "CHR ''0''"] this [of "CHR ''1''"] show ?thesis by (auto simp: is_bit_char_def)
  qed
  then show ?thesis using assms by (simp add: of_char_alphabet alphabet_codes_nth) arith
qed

lemma py_isdecimal_alphabet:
  "i < 94 \<Longrightarrow> py_isdecimal (delimiter_alphabet ! i) \<longleftrightarrow> 52 \<le> i \<and> i < 62"
  by (simp add: py_isdecimal_def of_char_alphabet alphabet_codes_nth) arith

lemma alphabet_52_53: "delimiter_alphabet ! 52 = CHR ''0''" "delimiter_alphabet ! 53 = CHR ''1''"
proof -
  have "(of_char (delimiter_alphabet ! 52) :: nat) = of_char (CHR ''0'')"
    "(of_char (delimiter_alphabet ! 53) :: nat) = of_char (CHR ''1'')"
    by (simp_all add: of_char_alphabet alphabet_codes_nth)
  then show "delimiter_alphabet ! 52 = CHR ''0''" "delimiter_alphabet ! 53 = CHR ''1''"
    by (simp_all only: of_char_eq_iff)
qed

lemma bit_chars_in_alphabet: "is_bit_char c \<Longrightarrow> c \<in> set delimiter_alphabet"
  using nth_mem [of 52 delimiter_alphabet] nth_mem [of 53 delimiter_alphabet]
  by (auto simp: is_bit_char_def alphabet_52_53)

lemma nth_generate_random_delimiter:
  "i < n \<Longrightarrow> generate_random_delimiter n rnd ! i = delimiter_alphabet ! random_below 94 (rnd i)"
  by (simp add: generate_random_delimiter_def nth_py_choices)

lemma random_below_94: "random_below 94 r < 94"
  by (rule random_below_less) simp

lemma generate_random_delimiter_shape:
  "length (generate_random_delimiter n rnd) = n \<and>
   set (generate_random_delimiter n rnd) \<subseteq> set delimiter_alphabet"
proof -
  have "delimiter_alphabet \<noteq> []" using length_delimiter_alphabet by (metis list.size(3) zero_neq_numeral)
  then show ?thesis using set_py_choices [of delimiter_alphabet n rnd]
    by (simp add: generate_random_delimiter_def)
qed

lemma list_all_nth_iff: "list_all P xs \<longleftrightarrow> (\<forall>i < length xs. P (xs ! i))"
  by (auto simp: list_all_length)

lemma default_delimiter_bits: "list_all is_bit_char default_delimiter \<and> length default_delimiter = 32"
  by (simp add: default_delimiter_def is_bit_char_def)

lemma get_delimiter_fallback:
  "\<not> answer_is choice CHR ''Y'' \<Longrightarrow> \<not> answer_is choice CHR ''N'' \<Longrightarrow>
     get_delimiter choice custom rnd = generate_random_delimiter 32 rnd"
  by (simp add: get_delimiter_def)

text \<open>
  C16: every delimiter \<open>get_delimiter\<close> returns has at least 15 characters,
  all from \<open>ascii_letters + digits + punctuation\<close>, and it is a string of
  \<open>'0'\<close>/\<open>'1'\<close> characters unless it is the random fallback.
\<close>

theorem get_delimiter_valid:
  "15 \<le> length (get_delimiter choice custom rnd) \<and>
   set (get_delimiter choice custom rnd) \<subseteq> set delimiter_alphabet \<and>
   (list_all is_bit_char (get_delimiter choice custom rnd) \<or>
    get_delimiter choice custom rnd = generate_random_delimiter 32 rnd)"
  using generate_random_delimiter_shape [of 32 rnd] default_delimiter_bits bit_chars_in_alphabet
  by (auto simp: get_delimiter_def Let_def list_all_iff)

theorem get_delimiter_valid_witness:
  "15 \<le> length (get_delimiter ''y'' '' 000011110000111100 '' (\<lambda>_. 0)) \<and>
   set (get_delimiter ''y'' '' 000011110000111100 '' (\<lambda>_. 0)) \<subseteq> set delimiter_alphabet \<and>
   (list_all is_bit_char (get_delimiter ''y'' '' 000011110000111100 '' (\<lambda>_. 0)) \<or>
    get_delimiter ''y'' '' 000011110000111100 '' (\<lambda>_. 0) = generate_random_delimiter 32 (\<lambda>_. 0))"
  by (rule get_delimiter_valid)

text \<open>
  C17: the random delimiter is a string of \<open>'0'\<close>/\<open>'1'\<close> characters (the only
  kind the extractor can ever find) exactly when every draw lands on index 52
  or 53 of the 94-character alphabet.
\<close>

theorem random_delimiter_binary_iff:
  "list_all is_bit_char (generate_random_delimiter n rnd) \<longleftrightarrow>
     (\<forall>i < n. random_below 94 (rnd i) \<in> {52, 53})"
  using generate_random_delimiter_shape [of n rnd]
  by (simp add: list_all_nth_iff nth_generate_random_delimiter is_bit_char_alphabet random_below_94)

theorem random_delimiter_binary_iff_witness:
  "generate_random_delimiter 2 (\<lambda>i. if i = 0 then 4982705970707783 else 5078527239375241) = ''01'' \<and>
   (list_all is_bit_char (generate_random_delimiter 2 (\<lambda>i. if i = 0 then 4982705970707783 else 5078527239375241)) \<longleftrightarrow>
     (\<forall>i < (2::nat). random_below 94 ((\<lambda>i. if i = 0 then 4982705970707783 else 5078527239375241) i) \<in> {52, 53}))"
proof -
  have "random_below 94 4982705970707783 = 52" "random_below 94 5078527239375241 = 53"
    by (simp_all add: random_below_def)
  then have "generate_random_delimiter 2 (\<lambda>i. if i = 0 then 4982705970707783 else 5078527239375241) = ''01''"
    by (simp add: generate_random_delimiter_def py_choices_def upt_rec alphabet_52_53)
  then show ?thesis
    using random_delimiter_binary_iff [of 2 "\<lambda>i. if i = 0 then 4982705970707783 else 5078527239375241"]
    by simp
qed

end
