(* ===== verification/PyInt.thy ===== *)
theory PyInt
  imports Prelude
begin

text \<open>
  Python's \<open>int(s)\<close> for a string typed at a prompt, and \<open>str(n)\<close> for an
  integer. The program converts user input with \<open>int(input(...))\<close> in four
  places: the Caesar shift (\<open>src/CaesarCipher.py\<close> line 3 and
  \<open>src/Steganography.py\<close> lines 212 and 217) and the watermark settings
  (\<open>src/Watermarking.py\<close> lines 20, 21, 29 and 36). For strings of the Latin-1
  range CPython's \<open>int(s)\<close> (base 10) strips white space, takes an optional
  sign, and reads decimal digits in which single underscores may separate
  digits; anything else raises \<open>ValueError\<close>.
\<close>

definition decimal_value :: "string \<Rightarrow> nat" where
  "decimal_value ds = foldl (\<lambda>acc c. 10 * acc + (of_char c - 48)) 0 ds"

definition py_int_digits :: "string \<Rightarrow> py_error + nat" where
  "py_int_digits ds =
     (if ds \<noteq> [] \<and> py_isdecimal (hd ds) \<and> py_isdecimal (last ds) \<and>
         list_all (\<lambda>c. py_isdecimal c \<or> c = CHR ''_'') ds \<and> \<not> sublist ''__'' ds
      then Inr (decimal_value (filter py_isdecimal ds))
      else Inl ValueError)"

definition py_int :: "string \<Rightarrow> py_error + int" where
  "py_int s =
     (case py_strip s of
        [] \<Rightarrow> Inl ValueError
      | c # r \<Rightarrow>
          (if c = CHR ''-'' then map_sum id (\<lambda>n. - int n) (py_int_digits r)
           else if c = CHR ''+'' then map_sum id int (py_int_digits r)
           else map_sum id int (py_int_digits (c # r))))"

fun dec_digits :: "nat \<Rightarrow> string" where
  "dec_digits n =
     (if n < 10 then [char_of (48 + n)] else dec_digits (n div 10) @ [char_of (48 + n mod 10)])"

declare dec_digits.simps [simp del]

definition py_str :: "int \<Rightarrow> string" where
  "py_str i = (if i < 0 then CHR ''-'' # dec_digits (nat (- i)) else dec_digits (nat i))"

section \<open>\<open>int(str(n)) = n\<close>\<close>

lemma dec_digits_decimal: "list_all py_isdecimal (dec_digits n)"
proof (induction n rule: dec_digits.induct)
  case (1 n)
  have d: "py_isdecimal (char_of (48 + k)) \<longleftrightarrow> True" if "k < 10" for k :: nat
    using that by (simp add: py_isdecimal_def)
  show ?case
  proof (cases "n < 10")
    case True
    then show ?thesis using d [of n] by (simp add: dec_digits.simps [of n])
  next
    case False
    then show ?thesis using 1 d [of "n mod 10"] by (simp add: dec_digits.simps [of n])
  qed
qed

lemma dec_digits_nonempty [simp]: "dec_digits n \<noteq> []"
  by (simp add: dec_digits.simps [of n])

lemma decimal_value_snoc: "decimal_value (ds @ [c]) = 10 * decimal_value ds + (of_char c - 48)"
  by (simp add: decimal_value_def)

lemma decimal_value_dec_digits: "decimal_value (dec_digits n) = n"
proof (induction n rule: dec_digits.induct)
  case (1 n)
  have v: "(of_char (char_of (48 + k) :: char) :: nat) = 48 + k" if "k < 10" for k :: nat
    using that by simp
  show ?case
  proof (cases "n < 10")
    case True
    then show ?thesis using v [of n] by (simp add: dec_digits.simps [of n] decimal_value_def)
  next
    case False
    then have "decimal_value (dec_digits n) = 10 * (n div 10) + n mod 10"
      using 1 v [of "n mod 10"] by (simp add: dec_digits.simps [of n] decimal_value_snoc)
    then show ?thesis by simp
  qed
qed

lemma decimal_not_space: "py_isdecimal c \<Longrightarrow> \<not> py_isspace c"
  by (auto simp: py_isdecimal_def py_isspace_def)

lemma decimal_not_sign: "py_isdecimal c \<Longrightarrow> c \<noteq> CHR ''-'' \<and> c \<noteq> CHR ''+''"
  by (auto simp: py_isdecimal_def)

lemma py_strip_id:
  assumes "s = [] \<or> (\<not> py_isspace (hd s) \<and> \<not> py_isspace (last s))"
  shows "py_strip s = s"
proof (cases "s = []")
  case False
  then have "dropWhile py_isspace s = s" and "dropWhile py_isspace (rev s) = rev s"
    using assms by (simp_all add: dropWhile_eq_self_iff hd_rev)
  then show ?thesis by (simp add: py_strip_def)
qed (simp add: py_strip_def)

lemma py_int_digits_decimal:
  assumes "ds \<noteq> []" and "list_all py_isdecimal ds"
  shows "py_int_digits ds = Inr (decimal_value ds)"
proof -
  have "\<not> py_isdecimal CHR ''_''" by (simp add: py_isdecimal_def)
  then have "CHR ''_'' \<notin> set ds" using assms(2) by (auto simp: list_all_iff)
  then have "\<not> sublist ''__'' ds" using set_mono_sublist [of "''__''" ds] by auto
  moreover have "filter py_isdecimal ds = ds" using assms(2) by (simp add: list_all_iff)
  ultimately show ?thesis
    using assms by (simp add: py_int_digits_def list_all_iff)
qed

lemma py_int_py_str: "py_int (py_str i) = Inr i"
proof -
  let ?ds = "dec_digits (nat \<bar>i\<bar>)"
  have dec: "list_all py_isdecimal ?ds" by (rule dec_digits_decimal)
  then have hd: "py_isdecimal (hd ?ds)" and lst: "py_isdecimal (last ?ds)"
    by (simp_all add: list_all_iff)
  have val: "py_int_digits ?ds = Inr (nat \<bar>i\<bar>)"
    using py_int_digits_decimal [OF dec_digits_nonempty dec] decimal_value_dec_digits by simp
  show ?thesis
  proof (cases "i < 0")
    case True
    have "py_strip (CHR ''-'' # ?ds) = CHR ''-'' # ?ds"
      using lst decimal_not_space by (intro py_strip_id) (simp add: py_isspace_def)
    then show ?thesis using True val by (simp add: py_int_def py_str_def)
  next
    case False
    obtain c r where cr: "?ds = c # r" by (cases ?ds) auto
    have "py_strip ?ds = ?ds"
      using hd lst decimal_not_space by (intro py_strip_id) simp
    moreover have "c \<noteq> CHR ''-'' \<and> c \<noteq> CHR ''+''" using hd cr decimal_not_sign by simp
    ultimately show ?thesis using False val cr by (simp add: py_int_def py_str_def)
  qed
qed

lemma py_strip_decimal:
  assumes "ds \<noteq> []" and "list_all py_isdecimal ds"
  shows "py_strip ds = ds" and "py_strip (CHR ''-'' # ds) = CHR ''-'' # ds"
proof -
  have h: "\<not> py_isspace (hd ds)" and l: "\<not> py_isspace (last ds)"
    using assms decimal_not_space by (simp_all add: list_all_iff)
  show "py_strip ds = ds" using h l by (intro py_strip_id) simp
  show "py_strip (CHR ''-'' # ds) = CHR ''-'' # ds"
    using l assms(1) by (intro py_strip_id) (simp add: py_isspace_def)
qed

lemma py_strip_py_str: "py_strip (py_str i) = py_str i"
  using py_strip_decimal [OF dec_digits_nonempty dec_digits_decimal]
  by (simp add: py_str_def)

end
