(* ===== verification/Caesar.thy ===== *)
theory Caesar
  imports PyInt
begin

text \<open>
  \<open>src/CaesarCipher.py\<close>: \<open>caesar_cipher_encrypt\<close> shifts letters within
  their case and decimal digits within \<open>0-9\<close> and keeps every other
  character; \<open>caesar_cipher_decrypt\<close> encrypts with the negated shift; the
  module's script reads a message and a shift and prints both directions.
  Characters are those of the Latin-1 range (Isabelle's \<open>char\<close>), on which
  \<open>str.isalpha\<close>, \<open>str.isupper\<close> and \<open>str.isdigit\<close> are written out from the
  Unicode character database; the shift is Python's unbounded \<open>int\<close>, and
  \<open>%\<close> is the floored modulus \<open>mod\<close> of \<open>int\<close>.
\<close>

section \<open>Character classes\<close>

text \<open>
  Letters of Latin-1: \<open>A-Z\<close>, \<open>a-z\<close>, the ordinal indicators \<open>170\<close> and
  \<open>186\<close>, the micro sign \<open>181\<close>, and \<open>192-255\<close> except the signs
  \<open>215\<close> and \<open>247\<close>. Upper case: \<open>A-Z\<close> and \<open>192-222\<close> except
  \<open>215\<close>. Digits: \<open>0-9\<close> and the superscripts \<open>178\<close>, \<open>179\<close>, \<open>185\<close>.
\<close>

definition py_isalpha :: "char \<Rightarrow> bool" where
  "py_isalpha c \<longleftrightarrow>
     (let n = (of_char c :: int) in
      (65 \<le> n \<and> n \<le> 90) \<or> (97 \<le> n \<and> n \<le> 122) \<or> n = 170 \<or> n = 181 \<or> n = 186 \<or>
      (192 \<le> n \<and> n \<noteq> 215 \<and> n \<noteq> 247))"

definition py_isupper :: "char \<Rightarrow> bool" where
  "py_isupper c \<longleftrightarrow>
     (let n = (of_char c :: int) in (65 \<le> n \<and> n \<le> 90) \<or> (192 \<le> n \<and> n \<le> 222 \<and> n \<noteq> 215))"

definition py_isdigit :: "char \<Rightarrow> bool" where
  "py_isdigit c \<longleftrightarrow>
     (let n = (of_char c :: int) in (48 \<le> n \<and> n \<le> 57) \<or> n = 178 \<or> n = 179 \<or> n = 185)"

section \<open>The cipher\<close>

text \<open>The body of \<open>for char in message\<close> (lines 8--14).\<close>

definition caesar_step :: "int \<Rightarrow> char \<Rightarrow> char" where
  "caesar_step shift char =
     (if py_isalpha char then
        (let shift_base = (if py_isupper char then of_char CHR ''A'' else of_char CHR ''a'') in
         char_of ((of_char char - shift_base + shift) mod 26 + shift_base))
      else if py_isdigit char then
        char_of ((of_char char - of_char CHR ''0'' + shift) mod 10 + (of_char CHR ''0'' :: int))
      else char)"

text \<open>\<open>encrypted = []; for char in message: ... encrypted.append(...)\<close>\<close>

fun caesar_loop :: "int \<Rightarrow> string \<Rightarrow> string \<Rightarrow> string" where
  "caesar_loop shift encrypted [] = encrypted"
| "caesar_loop shift encrypted (char # message) =
     caesar_loop shift (encrypted @ [caesar_step shift char]) message"

definition caesar_cipher_encrypt :: "string \<Rightarrow> int \<Rightarrow> string" where
  "caesar_cipher_encrypt message shift = caesar_loop shift [] message"

definition caesar_cipher_decrypt :: "string \<Rightarrow> int \<Rightarrow> string" where
  "caesar_cipher_decrypt encrypted_message shift = caesar_cipher_encrypt encrypted_message (- shift)"

text \<open>
  The module script (lines 2--3 and 20--26): the message and the shift are
  read, \<open>int(...)\<close> may raise, then both directions are printed.
\<close>

datatype caesar_run = Caesar_Raised py_error | Caesar_Printed string string int

definition caesar_script :: "string \<Rightarrow> string \<Rightarrow> caesar_run" where
  "caesar_script original_message shift_input =
     (case py_int shift_input of
        Inl e \<Rightarrow> Caesar_Raised e
      | Inr shift \<Rightarrow>
          (let encrypted_message = caesar_cipher_encrypt original_message shift;
               decrypted_message = caesar_cipher_decrypt encrypted_message shift
           in Caesar_Printed encrypted_message decrypted_message shift))"

text \<open>
  A character the cipher can invert: it is not a letter or digit outside
  ASCII.
\<close>

definition caesar_invertible :: "char \<Rightarrow> bool" where
  "caesar_invertible c \<longleftrightarrow> (py_isalpha c \<or> py_isdigit c \<longrightarrow> (of_char c :: int) < 128)"

section \<open>Lemmas\<close>

lemma caesar_loop_map: "caesar_loop shift acc m = acc @ map (caesar_step shift) m"
  by (induction m arbitrary: acc) simp_all

lemma caesar_cipher_encrypt_map: "caesar_cipher_encrypt m shift = map (caesar_step shift) m"
  by (simp add: caesar_cipher_encrypt_def caesar_loop_map)

lemma of_char_char_of_int: "0 \<le> x \<Longrightarrow> x < 256 \<Longrightarrow> (of_char (char_of x :: char) :: int) = x"
  by (simp add: of_char_of take_bit_eq_mod)

lemma of_char_int_bounds: "0 \<le> (of_char c :: int) \<and> (of_char c :: int) < 256"
proof -
  have "(of_char c :: int) = of_char c mod 256" by simp
  then show ?thesis by (metis pos_mod_bound pos_mod_sign zero_less_numeral)
qed

lemma char_eq_iff_int: "c = d \<longleftrightarrow> (of_char c :: int) = of_char d"
  by simp

text \<open>The value written for each class of character.\<close>

lemma caesar_step_upper:
  assumes "65 \<le> (of_char c :: int)" and "(of_char c :: int) \<le> 90"
  shows "(of_char (caesar_step s c) :: int) = ((of_char c :: int) - 65 + s) mod 26 + 65"
  using assms by (simp add: caesar_step_def py_isalpha_def py_isupper_def of_char_char_of_int)

lemma caesar_step_lower:
  assumes "97 \<le> (of_char c :: int)" and "(of_char c :: int) \<le> 122"
  shows "(of_char (caesar_step s c) :: int) = ((of_char c :: int) - 97 + s) mod 26 + 97"
  using assms by (simp add: caesar_step_def py_isalpha_def py_isupper_def of_char_char_of_int)

lemma caesar_step_digit:
  assumes "48 \<le> (of_char c :: int)" and "(of_char c :: int) \<le> 57"
  shows "(of_char (caesar_step s c) :: int) = ((of_char c :: int) - 48 + s) mod 10 + 48"
  using assms by (simp add: caesar_step_def py_isalpha_def py_isdigit_def of_char_char_of_int)

lemma caesar_step_other:
  "\<not> py_isalpha c \<Longrightarrow> \<not> py_isdigit c \<Longrightarrow> caesar_step s c = c"
  by (simp add: caesar_step_def)

lemma caesar_invertible_cases:
  assumes "caesar_invertible c"
  obtains (upper) "65 \<le> (of_char c :: int)" "(of_char c :: int) \<le> 90"
    | (lower) "97 \<le> (of_char c :: int)" "(of_char c :: int) \<le> 122"
    | (digit) "48 \<le> (of_char c :: int)" "(of_char c :: int) \<le> 57"
    | (other) "\<not> py_isalpha c" "\<not> py_isdigit c"
  using assms by (auto simp: caesar_invertible_def py_isalpha_def py_isdigit_def Let_def intro: that)

lemma caesar_step_compose:
  assumes "caesar_invertible c"
  shows "caesar_step b (caesar_step a c) = caesar_step (a + b) c"
  using assms
proof (cases rule: caesar_invertible_cases)
  case upper
  let ?r = "((of_char c :: int) - 65 + a) mod 26 + 65"
  have r: "(of_char (caesar_step a c) :: int) = ?r" using upper by (rule caesar_step_upper)
  have "65 \<le> ?r" "?r \<le> 90" by simp_all
  then have "(of_char (caesar_step b (caesar_step a c)) :: int) = (?r - 65 + b) mod 26 + 65"
    unfolding r [symmetric] by (rule caesar_step_upper)
  also have "\<dots> = (of_char (caesar_step (a + b) c) :: int)"
    using upper by (simp add: caesar_step_upper mod_add_left_eq mod_add_right_eq ac_simps)
  finally show ?thesis by simp
next
  case lower
  let ?r = "((of_char c :: int) - 97 + a) mod 26 + 97"
  have r: "(of_char (caesar_step a c) :: int) = ?r" using lower by (rule caesar_step_lower)
  have "97 \<le> ?r" "?r \<le> 122" by simp_all
  then have "(of_char (caesar_step b (caesar_step a c)) :: int) = (?r - 97 + b) mod 26 + 97"
    unfolding r [symmetric] by (rule caesar_step_lower)
  also have "\<dots> = (of_char (caesar_step (a + b) c) :: int)"
    using lower by (simp add: caesar_step_lower mod_add_left_eq mod_add_right_eq ac_simps)
  finally show ?thesis by simp
next
  case digit
  let ?r = "((of_char c :: int) - 48 + a) mod 10 + 48"
  have r: "(of_char (caesar_step a c) :: int) = ?r" using digit by (rule caesar_step_digit)
  have "48 \<le> ?r" "?r \<le> 57" by simp_all
  then have "(of_char (caesar_step b (caesar_step a c)) :: int) = (?r - 48 + b) mod 10 + 48"
    unfolding r [symmetric] by (rule caesar_step_digit)
  also have "\<dots> = (of_char (caesar_step (a + b) c) :: int)"
    using digit by (simp add: caesar_step_digit mod_add_left_eq mod_add_right_eq ac_simps)
  finally show ?thesis by simp
next
  case other
  then show ?thesis by (simp add: caesar_step_other)
qed

lemma caesar_step_zero:
  assumes "caesar_invertible c"
  shows "caesar_step 0 c = c"
  using assms
proof (cases rule: caesar_invertible_cases)
  case upper
  then have "(of_char (caesar_step 0 c) :: int) = of_char c" by (simp add: caesar_step_upper)
  then show ?thesis by simp
next
  case lower
  then have "(of_char (caesar_step 0 c) :: int) = of_char c" by (simp add: caesar_step_lower)
  then show ?thesis by simp
next
  case digit
  then have "(of_char (caesar_step 0 c) :: int) = of_char c" by (simp add: caesar_step_digit)
  then show ?thesis by simp
next
  case other
  then show ?thesis by (simp add: caesar_step_other)
qed

lemma caesar_step_alpha_range:
  assumes "py_isalpha c"
  shows "(65 \<le> (of_char (caesar_step s c) :: int) \<and> (of_char (caesar_step s c) :: int) \<le> 90) \<or>
         (97 \<le> (of_char (caesar_step s c) :: int) \<and> (of_char (caesar_step s c) :: int) \<le> 122)"
proof (cases "py_isupper c")
  case True
  then have "(of_char (caesar_step s c) :: int) = ((of_char c :: int) - 65 + s) mod 26 + 65"
    using assms by (simp add: caesar_step_def of_char_char_of_int)
  then show ?thesis
    using pos_mod_bound [of 26 "(of_char c :: int) - 65 + s"] pos_mod_sign [of 26 "(of_char c :: int) - 65 + s"]
    by linarith
next
  case False
  then have "(of_char (caesar_step s c) :: int) = ((of_char c :: int) - 97 + s) mod 26 + 97"
    using assms by (simp add: caesar_step_def of_char_char_of_int)
  then show ?thesis
    using pos_mod_bound [of 26 "(of_char c :: int) - 97 + s"] pos_mod_sign [of 26 "(of_char c :: int) - 97 + s"]
    by linarith
qed

lemma caesar_step_digit_range:
  assumes "\<not> py_isalpha c" and "py_isdigit c"
  shows "48 \<le> (of_char (caesar_step s c) :: int) \<and> (of_char (caesar_step s c) :: int) \<le> 57"
proof -
  have "(of_char (caesar_step s c) :: int) = ((of_char c :: int) - 48 + s) mod 10 + 48"
    using assms by (simp add: caesar_step_def of_char_char_of_int)
  then show ?thesis by simp
qed

text \<open>Every character \<open>chr\<close> is applied to is an ASCII letter or digit.\<close>

lemma caesar_step_bounds:
  assumes "py_isalpha c \<or> py_isdigit c"
  shows "48 \<le> (of_char (caesar_step s c) :: int) \<and> (of_char (caesar_step s c) :: int) < 123 \<and>
         (py_isalpha (caesar_step s c) \<or> py_isdigit (caesar_step s c))"
proof (cases "py_isalpha c")
  case True
  then show ?thesis using caesar_step_alpha_range [OF True, of s]
    by (auto simp: py_isalpha_def Let_def)
next
  case False
  then show ?thesis using assms caesar_step_digit_range [OF False, of s]
    by (auto simp: py_isdigit_def Let_def)
qed

lemma caesar_step_invertible: "caesar_invertible (caesar_step s c)"
proof (cases "py_isalpha c \<or> py_isdigit c")
  case True
  then show ?thesis using caesar_step_bounds [OF True, of s] by (simp add: caesar_invertible_def)
next
  case False
  then show ?thesis by (simp add: caesar_step_other caesar_invertible_def)
qed

lemma caesar_step_lost:
  assumes "\<not> caesar_invertible c"
  shows "caesar_step b (caesar_step a c) \<noteq> c"
proof -
  have cls: "py_isalpha c \<or> py_isdigit c" and big: "128 \<le> (of_char c :: int)"
    using assms by (auto simp: caesar_invertible_def)
  have "py_isalpha (caesar_step a c) \<or> py_isdigit (caesar_step a c)"
    using caesar_step_bounds [OF cls] by blast
  then have "(of_char (caesar_step b (caesar_step a c)) :: int) < 123"
    using caesar_step_bounds by blast
  with big show ?thesis by auto
qed




lemma map_eq_self_iff: "map f xs = xs \<longleftrightarrow> (\<forall>x \<in> set xs. f x = x)"
  by (induction xs) auto

lemma caesar_step_period: "caesar_step (s + 130 * k) c = caesar_step s c"
proof -
  have a: "(x + (s + 130 * k)) mod 26 = (x + s) mod 26" for x :: int
  proof -
    have "x + (s + 130 * k) = (x + s) + (5 * k) * 26" by simp
    then show ?thesis by (simp only: mod_mult_self1)
  qed
  have d: "(x + (s + 130 * k)) mod 10 = (x + s) mod 10" for x :: int
  proof -
    have "x + (s + 130 * k) = (x + s) + (13 * k) * 10" by simp
    then show ?thesis by (simp only: mod_mult_self1)
  qed
  show ?thesis by (simp add: caesar_step_def Let_def a d)
qed

section \<open>The cipher's contract\<close>

text \<open>
  C20: decryption undoes encryption exactly when the message has no letter or
  digit outside ASCII: every letter and digit of Latin-1 is sent into
  \<open>A-Z\<close>, \<open>a-z\<close> or \<open>0-9\<close>, so a non-ASCII one cannot come back.
\<close>

theorem caesar_roundtrip_iff:
  "caesar_cipher_decrypt (caesar_cipher_encrypt m s) s = m \<longleftrightarrow> list_all caesar_invertible m"
proof -
  have "caesar_cipher_decrypt (caesar_cipher_encrypt m s) s = map (\<lambda>c. caesar_step (- s) (caesar_step s c)) m"
    by (simp add: caesar_cipher_decrypt_def caesar_cipher_encrypt_map)
  moreover have "caesar_step (- s) (caesar_step s c) = c \<longleftrightarrow> caesar_invertible c" for c
    using caesar_step_compose [of c "- s" s] caesar_step_zero [of c] caesar_step_lost [of c "- s" s]
    by auto
  ultimately show ?thesis by (simp add: map_eq_self_iff list_all_iff)
qed

theorem caesar_roundtrip_iff_witness:
  "list_all caesar_invertible ''Hi 9!'' \<and>
   caesar_cipher_decrypt (caesar_cipher_encrypt ''Hi 9!'' 3) 3 = ''Hi 9!''"
proof -
  have inv: "list_all caesar_invertible ''Hi 9!''"
    by (simp add: caesar_invertible_def py_isalpha_def py_isdigit_def)
  then show ?thesis using caesar_roundtrip_iff [of "''Hi 9!''" 3] by simp
qed


text \<open>
  C22: on messages the cipher can invert, encryption is an action of the
  integers: encrypting with \<open>a\<close> then with \<open>b\<close> is encrypting with
  \<open>a + b\<close>.
\<close>

theorem caesar_compose:
  assumes "list_all caesar_invertible m"
  shows "caesar_cipher_encrypt (caesar_cipher_encrypt m a) b = caesar_cipher_encrypt m (a + b)"
  using assms caesar_step_compose by (simp add: caesar_cipher_encrypt_map list_all_iff)

theorem caesar_compose_witness:
  "list_all caesar_invertible ''Zz9'' \<and>
   caesar_cipher_encrypt (caesar_cipher_encrypt ''Zz9'' 1) 2 = caesar_cipher_encrypt ''Zz9'' 3"
proof -
  have inv: "list_all caesar_invertible ''Zz9''"
    by (simp add: caesar_invertible_def py_isalpha_def py_isdigit_def)
  then show ?thesis using caesar_compose [OF inv, of 1 2] by simp
qed

text \<open>
  The shift only matters modulo 130, the least common multiple of the
  alphabet's 26 and the digits' 10; this holds for every Latin-1 message.
\<close>

lemma caesar_shift_period:
  "caesar_cipher_encrypt m (s + 130 * k) = caesar_cipher_encrypt m s"
  by (simp add: caesar_cipher_encrypt_map caesar_step_period)

text \<open>
  C24: encryption keeps the length; each letter or digit becomes an ASCII
  letter or digit (so \<open>chr\<close> always gets a code point in \<open>[48, 123)\<close> and
  never raises), every other character is copied, and the output is always
  invertible.
\<close>

theorem caesar_encrypt_shape:
  "length (caesar_cipher_encrypt m s) = length m \<and>
   list_all caesar_invertible (caesar_cipher_encrypt m s) \<and>
   (\<forall>i < length m.
      (if py_isalpha (m ! i) \<or> py_isdigit (m ! i)
       then 48 \<le> (of_char (caesar_cipher_encrypt m s ! i) :: int) \<and>
            (of_char (caesar_cipher_encrypt m s ! i) :: int) < 123
       else caesar_cipher_encrypt m s ! i = m ! i))"
  using caesar_step_bounds caesar_step_other
  by (simp add: caesar_cipher_encrypt_map list_all_iff caesar_step_invertible)

theorem caesar_encrypt_shape_witness:
  "length (caesar_cipher_encrypt ''a-1'' 5) = 3 \<and>
   list_all caesar_invertible (caesar_cipher_encrypt ''a-1'' 5) \<and>
   48 \<le> (of_char (caesar_cipher_encrypt ''a-1'' 5 ! 0) :: int) \<and>
   (of_char (caesar_cipher_encrypt ''a-1'' 5 ! 0) :: int) < 123 \<and>
   caesar_cipher_encrypt ''a-1'' 5 ! 1 = CHR ''-'' \<and>
   48 \<le> (of_char (caesar_cipher_encrypt ''a-1'' 5 ! 2) :: int) \<and>
   (of_char (caesar_cipher_encrypt ''a-1'' 5 ! 2) :: int) < 123"
proof -
  have cls: "py_isalpha (''a-1'' ! 0)" "\<not> py_isalpha (''a-1'' ! 1) \<and> \<not> py_isdigit (''a-1'' ! 1)"
    "py_isdigit (''a-1'' ! 2)"
    by (simp_all add: py_isalpha_def py_isdigit_def)
  have "\<forall>i < length ''a-1''.
      (if py_isalpha (''a-1'' ! i) \<or> py_isdigit (''a-1'' ! i)
       then 48 \<le> (of_char (caesar_cipher_encrypt ''a-1'' 5 ! i) :: int) \<and>
            (of_char (caesar_cipher_encrypt ''a-1'' 5 ! i) :: int) < 123
       else caesar_cipher_encrypt ''a-1'' 5 ! i = ''a-1'' ! i)"
    and "length (caesar_cipher_encrypt ''a-1'' 5) = length ''a-1''"
    and "list_all caesar_invertible (caesar_cipher_encrypt ''a-1'' 5)"
    using caesar_encrypt_shape [of "''a-1''" 5] by blast+
  from this(1) [rule_format, of 0] this(1) [rule_format, of 1] this(1) [rule_format, of 2] this(2,3) cls
  show ?thesis by simp
qed

text \<open>
  C25: the module script prints the original message back whenever the shift
  typed is an integer and the message has no non-ASCII letter or digit, and it
  raises \<open>ValueError\<close> when the shift is not an integer.
\<close>

theorem caesar_script_roundtrip:
  assumes "list_all caesar_invertible m"
  shows "caesar_script m (py_str s) = Caesar_Printed (caesar_cipher_encrypt m s) m s \<and>
         (py_int t = Inl e \<longrightarrow> caesar_script m t = Caesar_Raised e)"
proof -
  have "caesar_cipher_decrypt (caesar_cipher_encrypt m s) s = m"
    using assms caesar_step_compose [where b = "- s" and a = s] caesar_step_zero
    by (simp add: caesar_cipher_decrypt_def caesar_cipher_encrypt_map list_all_iff map_eq_self_iff)
  then show ?thesis by (simp add: caesar_script_def py_int_py_str)
qed

theorem caesar_script_roundtrip_witness:
  "list_all caesar_invertible ''Hi'' \<and>
   caesar_script ''Hi'' (py_str (-4)) = Caesar_Printed (caesar_cipher_encrypt ''Hi'' (-4)) ''Hi'' (-4) \<and>
   py_int ''3.5'' = Inl ValueError \<and> caesar_script ''Hi'' ''3.5'' = Caesar_Raised ValueError"
proof -
  have inv: "list_all caesar_invertible ''Hi''"
    by (simp add: caesar_invertible_def py_isalpha_def py_isdigit_def)
  have err: "py_int ''3.5'' = Inl ValueError"
    by (simp add: py_int_def py_int_digits_def py_isdecimal_def answer_is_eval)
  show ?thesis using inv err caesar_script_roundtrip [OF inv, of "-4" "''3.5''" ValueError] by simp
qed

end
