(* ===== verification/FileSystem.thy ===== *)
theory FileSystem
  imports Image
begin

text \<open>
  The file system as the program sees it through \<open>os\<close> and PIL: a set of
  directories and a map from file paths to stored images with their format.
  Paths are normalised POSIX strings (no empty or \<open>.\<close> components); the
  working directory is \<open>''''\<close>. \<open>os.path.join\<close>, \<open>os.path.dirname\<close>,
  \<open>os.path.exists\<close>, \<open>os.makedirs(_, exist_ok=True)\<close>, \<open>os.mkdir\<close>,
  \<open>os.remove\<close>, \<open>Image.open\<close> and \<open>Image.save\<close> are modelled with the
  errors they raise on such a state.
\<close>

datatype os_error = FileNotFoundError | FileExistsError | IsADirectoryError | NotADirectoryError

record stored_file =
  file_image :: image
  file_format :: string

record fs_state =
  fs_dirs :: "string set"
  fs_files :: "string \<rightharpoonup> stored_file"

definition path_join :: "string \<Rightarrow> string \<Rightarrow> string" where
  "path_join a b =
     (if b \<noteq> [] \<and> hd b = CHR ''/'' then b
      else if a = [] \<or> last a = CHR ''/'' then a @ b
      else a @ ''/'' @ b)"

definition path_dirname :: "string \<Rightarrow> string" where
  "path_dirname p =
     (let head = rev (dropWhile (\<lambda>c. c \<noteq> CHR ''/'') (rev p)) in
      if head \<noteq> [] \<and> list_all (\<lambda>c. c = CHR ''/'') head then head
      else rev (dropWhile (\<lambda>c. c = CHR ''/'') (rev head)))"

text \<open>The directories \<open>os.makedirs(p)\<close> creates: every prefix of \<open>p\<close> ending before a slash, and \<open>p\<close>.\<close>

definition path_ancestors :: "string \<Rightarrow> string list" where
  "path_ancestors p =
     map (\<lambda>i. take i p) (filter (\<lambda>i. i = length p \<or> p ! i = CHR ''/'') [1..<Suc (length p)])"

definition path_exists :: "fs_state \<Rightarrow> string \<Rightarrow> bool" where
  "path_exists fs p \<longleftrightarrow> p = [] \<or> p \<in> fs_dirs fs \<or> p \<in> dom (fs_files fs)"

definition dir_exists :: "fs_state \<Rightarrow> string \<Rightarrow> bool" where
  "dir_exists fs p \<longleftrightarrow> p = [] \<or> p \<in> fs_dirs fs"

definition fs_makedirs :: "fs_state \<Rightarrow> string \<Rightarrow> os_error + fs_state" where
  "fs_makedirs fs p =
     (if p = [] then Inl FileNotFoundError
      else if list_ex (\<lambda>a. a \<in> dom (fs_files fs)) (path_ancestors p) then Inl FileExistsError
      else Inr (fs\<lparr>fs_dirs := fs_dirs fs \<union> set (path_ancestors p)\<rparr>))"

definition fs_mkdir :: "fs_state \<Rightarrow> string \<Rightarrow> os_error + fs_state" where
  "fs_mkdir fs p =
     (if path_exists fs p then Inl FileExistsError
      else if \<not> dir_exists fs (path_dirname p) then
        (if path_dirname p \<in> dom (fs_files fs) then Inl NotADirectoryError else Inl FileNotFoundError)
      else Inr (fs\<lparr>fs_dirs := insert p (fs_dirs fs)\<rparr>))"

definition fs_remove :: "fs_state \<Rightarrow> string \<Rightarrow> os_error + fs_state" where
  "fs_remove fs p =
     (if p \<in> dom (fs_files fs) then Inr (fs\<lparr>fs_files := (fs_files fs)(p := None)\<rparr>)
      else if dir_exists fs p then Inl IsADirectoryError
      else Inl FileNotFoundError)"

text \<open>\<open>Image.open(p)\<close>: the stored image, or the error of opening a missing path or a directory.\<close>

definition fs_open :: "fs_state \<Rightarrow> string \<Rightarrow> os_error + stored_file" where
  "fs_open fs p =
     (case fs_files fs p of
        Some f \<Rightarrow> Inr f
      | None \<Rightarrow> Inl (if dir_exists fs p then IsADirectoryError else FileNotFoundError))"

text \<open>\<open>img.save(p)\<close> of an RGB image as PNG.\<close>

definition fs_save_png :: "fs_state \<Rightarrow> string \<Rightarrow> rgb_image \<Rightarrow> os_error + fs_state" where
  "fs_save_png fs p img =
     (if dir_exists fs p \<and> p \<noteq> [] then Inl IsADirectoryError
      else if \<not> dir_exists fs (path_dirname p) then
        (if path_dirname p \<in> dom (fs_files fs) then Inl NotADirectoryError else Inl FileNotFoundError)
      else Inr (fs\<lparr>fs_files := (fs_files fs)(p \<mapsto> \<lparr>file_image = rgb_to_image img, file_format = ''PNG''\<rparr>)\<rparr>))"

section \<open>Lemmas\<close>

lemma path_ancestors_self: "p \<noteq> [] \<Longrightarrow> p \<in> set (path_ancestors p)"
proof -
  assume "p \<noteq> []"
  then have "length p \<in> set (filter (\<lambda>i. i = length p \<or> p ! i = CHR ''/'') [1..<Suc (length p)])"
    by (simp add: Suc_le_eq)
  then show ?thesis unfolding path_ancestors_def by force
qed

lemma path_ancestors_single: "p \<noteq> [] \<Longrightarrow> CHR ''/'' \<notin> set p \<Longrightarrow> path_ancestors p = [p]"
proof -
  assume "p \<noteq> []" and ns: "CHR ''/'' \<notin> set p"
  have u: "[1..<Suc (length p)] = [1..<length p] @ [length p]"
    using \<open>p \<noteq> []\<close> by (simp add: Suc_leI)
  have "filter (\<lambda>i. i = length p \<or> p ! i = CHR ''/'') [1..<length p] = []"
    using ns nth_mem by (fastforce simp: filter_empty_conv)
  then have "filter (\<lambda>i. i = length p \<or> p ! i = CHR ''/'') [1..<Suc (length p)] = [length p]"
    using \<open>p \<noteq> []\<close> by (simp add: u Suc_leI)
  then show ?thesis by (simp add: path_ancestors_def)
qed

lemma fs_makedirs_dir:
  "fs_makedirs fs p = Inr fs' \<Longrightarrow> dir_exists fs' p \<and> fs_files fs' = fs_files fs"
  by (auto simp: fs_makedirs_def dir_exists_def path_ancestors_self split: if_splits)

lemma fs_makedirs_existing:
  "p \<in> fs_dirs fs \<Longrightarrow> set (path_ancestors p) \<subseteq> fs_dirs fs \<Longrightarrow>
     \<not> list_ex (\<lambda>a. a \<in> dom (fs_files fs)) (path_ancestors p) \<Longrightarrow> p \<noteq> [] \<Longrightarrow>
     fs_makedirs fs p = Inr fs"
  by (simp add: fs_makedirs_def sup.absorb1)

lemma fs_save_png_files:
  "fs_save_png fs p img = Inr fs' \<Longrightarrow>
     fs_files fs' = (fs_files fs)(p \<mapsto> \<lparr>file_image = rgb_to_image img, file_format = ''PNG''\<rparr>) \<and>
     fs_dirs fs' = fs_dirs fs"
  by (auto simp: fs_save_png_def split: if_splits)

lemma fs_remove_files:
  "fs_remove fs p = Inr fs' \<Longrightarrow> fs_files fs' = (fs_files fs)(p := None) \<and> fs_dirs fs' = fs_dirs fs"
  by (auto simp: fs_remove_def split: if_splits)

lemma path_join_not_self: "b \<noteq> [] \<Longrightarrow> hd b \<noteq> CHR ''/'' \<Longrightarrow> path_join a b \<noteq> a"
  by (auto simp: path_join_def)

lemma path_dirname_join:
  assumes "a = [] \<or> last a \<noteq> CHR ''/''" and "b \<noteq> []" and "CHR ''/'' \<notin> set b"
  shows "path_dirname (path_join a b) = a"
proof -
  have hb: "hd b \<noteq> CHR ''/''" using assms(2,3) by (cases b) auto
  have nb: "\<forall>x \<in> set (rev b). x \<noteq> CHR ''/''" using assms(3) by auto
  show ?thesis
  proof (cases "a = []")
    case True
    have "dropWhile (\<lambda>c. c \<noteq> CHR ''/'') (rev b) = []" by (simp only: dropWhile_eq_Nil_conv) (rule nb)
    then show ?thesis using True hb
      by (simp add: path_join_def path_dirname_def del: dropWhile_eq_Nil_conv)
  next
    case False
    then have l: "last a \<noteq> CHR ''/''" using assms(1) by simp
    have j: "path_join a b = a @ ''/'' @ b" using False l hb by (simp add: path_join_def)
    have d: "dropWhile (\<lambda>c. c \<noteq> CHR ''/'') (rev (a @ ''/'' @ b)) = CHR ''/'' # rev a"
      using dropWhile_append2 [where xs = "rev b" and P = "\<lambda>c. c \<noteq> CHR ''/''" and ys = "CHR ''/'' # rev a"] nb
      by simp
    have "last a \<in> set a" using False by simp
    then have ns: "\<not> list_all (\<lambda>c. c = CHR ''/'') (a @ ''/'')" using l by (auto simp: list_all_iff)
    have "dropWhile (\<lambda>c. c = CHR ''/'') (rev a) = rev a"
      using False l by (simp add: dropWhile_eq_self_iff hd_rev)
    then show ?thesis using j d ns by (simp add: path_dirname_def Let_def)
  qed
qed

end
