(* ===== verification/Console.thy ===== *)
theory Console
  imports FileSystem
begin

text \<open>
  Standard input and the exceptions that end the program. Every
  \<open>input(...)\<close> of the program takes the next line of standard input and
  raises \<open>EOFError\<close> when there is none; a computation that reads lines is a
  function from the remaining lines to an exception or a result with the lines
  left (explicit state passing, written with \<open>io_bind\<close>).
\<close>

datatype run_exc = Raised py_error | EOF_Error | OS_Raised os_error

type_synonym 'a io = "string list \<Rightarrow> run_exc + 'a \<times> string list"

definition io_return :: "'a \<Rightarrow> 'a io" where
  "io_return a = (\<lambda>s. Inr (a, s))"

definition io_bind :: "'a io \<Rightarrow> ('a \<Rightarrow> 'b io) \<Rightarrow> 'b io" where
  "io_bind m f = (\<lambda>s. case m s of Inl e \<Rightarrow> Inl e | Inr (a, s') \<Rightarrow> f a s')"

text \<open>\<open>input(prompt)\<close>.\<close>

definition io_input :: "string io" where
  "io_input = (\<lambda>s. case s of [] \<Rightarrow> Inl EOF_Error | l # s' \<Rightarrow> Inr (l, s'))"

text \<open>A Python computation that may raise, run at the current point.\<close>

definition io_lift :: "py_error + 'a \<Rightarrow> 'a io" where
  "io_lift r = (\<lambda>s. case r of Inl e \<Rightarrow> Inl (Raised e) | Inr a \<Rightarrow> Inr (a, s))"

text \<open>
  A computation reads at most \<open>k\<close> lines: what it consumes is a prefix of at
  most \<open>k\<close> lines, and it only meets the end of the input when fewer than
  \<open>k\<close> lines are left.
\<close>

definition reads_le :: "nat \<Rightarrow> 'a io \<Rightarrow> bool" where
  "reads_le k m \<longleftrightarrow>
     (\<forall>s a s'. m s = Inr (a, s') \<longrightarrow> (\<exists>pre. s = pre @ s' \<and> length pre \<le> k)) \<and>
     (\<forall>s. m s = Inl EOF_Error \<longrightarrow> length s < k)"

lemma io_return_bind [simp]: "io_bind (io_return a) f = f a"
  by (simp add: io_bind_def io_return_def)

lemma io_bind_assoc: "io_bind (io_bind m f) g = io_bind m (\<lambda>a. io_bind (f a) g)"
  by (rule ext) (simp add: io_bind_def split: sum.splits prod.splits)

lemma io_input_Cons [simp]: "io_bind io_input f (l # s) = f l s"
  by (simp add: io_bind_def io_input_def)

lemma io_input_Nil [simp]: "io_bind io_input f [] = Inl EOF_Error"
  by (simp add: io_bind_def io_input_def)

lemma io_lift_Inr [simp]: "io_bind (io_lift (Inr a)) f = f a"
  by (rule ext) (simp add: io_bind_def io_lift_def)

lemma io_lift_Inl [simp]: "io_bind (io_lift (Inl e)) f s = Inl (Raised e)"
  by (simp add: io_bind_def io_lift_def)

lemma io_lift_bind: "io_bind (io_lift r) f s = (case r of Inl e \<Rightarrow> Inl (Raised e) | Inr a \<Rightarrow> f a s)"
  by (cases r) simp_all

lemma io_return_app [simp]: "io_return a s = Inr (a, s)"
  by (simp add: io_return_def)

lemma reads_le_mono: "reads_le k m \<Longrightarrow> k \<le> l \<Longrightarrow> reads_le l m"
  unfolding reads_le_def by (meson le_trans less_le_trans)

lemma reads_le_return [intro!]: "reads_le 0 (io_return a)"
  by (simp add: reads_le_def)

lemma reads_le_input [intro!]: "reads_le 1 io_input"
  by (auto simp: reads_le_def io_input_def split: list.splits)

lemma reads_le_lift [intro!]: "reads_le 0 (io_lift r)"
  by (auto simp: reads_le_def io_lift_def split: sum.splits)

lemma reads_le_bind [intro]:
  assumes m: "reads_le k m" and f: "\<And>a. reads_le l (f a)"
  shows "reads_le (k + l) (io_bind m f)"
  unfolding reads_le_def
proof (intro conjI allI impI)
  fix s b s''
  assume h: "io_bind m f s = Inr (b, s'')"
  then obtain a s' where ms: "m s = Inr (a, s')" and fs: "f a s' = Inr (b, s'')"
    by (auto simp: io_bind_def split: sum.splits)
  obtain p1 where "s = p1 @ s'" "length p1 \<le> k" using m ms unfolding reads_le_def by blast
  moreover obtain p2 where "s' = p2 @ s''" "length p2 \<le> l" using f [of a] fs unfolding reads_le_def by blast
  ultimately show "\<exists>pre. s = pre @ s'' \<and> length pre \<le> k + l"
    by (intro exI [of _ "p1 @ p2"]) simp
next
  fix s
  assume h: "io_bind m f s = Inl EOF_Error"
  show "length s < k + l"
  proof (cases "m s")
    case (Inl e)
    then have "m s = Inl EOF_Error" using h by (simp add: io_bind_def)
    then have "length s < k" using m unfolding reads_le_def by blast
    then show ?thesis by simp
  next
    case (Inr r)
    then obtain a s' where ms: "m s = Inr (a, s')" by (cases r) auto
    then have "f a s' = Inl EOF_Error" using h by (simp add: io_bind_def)
    then have "length s' < l" using f by (simp add: reads_le_def)
    moreover obtain p1 where "s = p1 @ s'" "length p1 \<le> k" using m ms unfolding reads_le_def by blast
    ultimately show ?thesis by simp
  qed
qed

lemma reads_le_if [intro!]:
  "reads_le k1 m1 \<Longrightarrow> reads_le k2 m2 \<Longrightarrow> reads_le (max k1 k2) (if b then m1 else m2)"
  using reads_le_mono [of k1 m1 "max k1 k2"] reads_le_mono [of k2 m2 "max k1 k2"] by simp

lemma reads_le_case_prod [intro!]: "(\<And>a b. reads_le k (f a b)) \<Longrightarrow> reads_le k (case x of (a, b) \<Rightarrow> f a b)"
  by (cases x) simp

lemmas reads_le_intros = reads_le_bind reads_le_input reads_le_return reads_le_lift reads_le_if reads_le_case_prod

end
