(* ===== verification/Watermark.thy ===== *)
theory Watermark
  imports PyInt Console
begin

text \<open>
  \<open>src/Watermarking.py\<close>, \<open>user_driven_watermarking\<close>. The four prompts
  that fix the watermark's text, position, opacity and font size (lines
  13--40) read standard input through \<open>Console\<close>; \<open>int(...)\<close> is
  \<open>py_int\<close>, and its \<open>ValueError\<close> leaves the function because these
  lines are outside its \<open>try\<close> block. The \<open>try\<close> block (lines 42--84)
  opens the image, renders the watermark, creates the output folder and saves
  the result; every exception there is caught and printed.
\<close>

record watermark_settings =
  wm_text :: string
  wm_position :: "int \<times> int"
  wm_opacity :: int
  wm_font_size :: int

text \<open>\<open>if not 0 <= opacity <= 255: opacity = 128\<close> (lines 30--32).\<close>

definition opacity_default :: "int \<Rightarrow> int" where
  "opacity_default opacity = (if \<not> (0 \<le> opacity \<and> opacity \<le> 255) then 128 else opacity)"

text \<open>\<open>if font_size <= 0: font_size = 30\<close> (lines 37--39).\<close>

definition font_size_default :: "int \<Rightarrow> int" where
  "font_size_default font_size = (if font_size \<le> 0 then 30 else font_size)"

text \<open>Lines 13--40 as they run: each \<open>input\<close> in turn, each \<open>int\<close> right after its \<open>input\<close>.\<close>

definition watermark_prompts :: "watermark_settings io" where
  "watermark_prompts =
     io_bind io_input (\<lambda>text_in. let watermark_text = py_strip text_in in
     io_bind io_input (\<lambda>position_choice.
     io_bind
       (if answer_is position_choice CHR ''Y'' then
          io_bind io_input (\<lambda>x_in. io_bind (io_lift (py_int x_in)) (\<lambda>x.
          io_bind io_input (\<lambda>y_in. io_bind (io_lift (py_int y_in)) (\<lambda>y.
          io_return (x, y)))))
        else io_return (10, 10))
       (\<lambda>position.
     io_bind io_input (\<lambda>opacity_in. io_bind (io_lift (py_int (py_strip opacity_in))) (\<lambda>opacity.
     io_bind io_input (\<lambda>font_in. io_bind (io_lift (py_int (py_strip font_in))) (\<lambda>font_size.
     io_return \<lparr>wm_text = watermark_text, wm_position = position,
                wm_opacity = opacity_default opacity, wm_font_size = font_size_default font_size\<rparr>)))))))"

subsection \<open>The prompts as a function of the answers\<close>

text \<open>
  A reference for the prompts: the answers as a record, and the settings
  they give, with the first failing conversion as the error.
\<close>

record watermark_answers =
  text_answer :: string
  position_answer :: string
  x_answer :: string
  y_answer :: string
  opacity_answer :: string
  font_size_answer :: string

definition answer_lines :: "watermark_answers \<Rightarrow> string list" where
  "answer_lines a =
     [text_answer a, position_answer a] @
     (if answer_is (position_answer a) CHR ''Y'' then [x_answer a, y_answer a] else []) @
     [opacity_answer a, font_size_answer a]"

definition ask_position :: "watermark_answers \<Rightarrow> py_error + int \<times> int" where
  "ask_position a =
     (if answer_is (position_answer a) CHR ''Y'' then
        (case py_int (x_answer a) of
           Inl e \<Rightarrow> Inl e
         | Inr x \<Rightarrow> (case py_int (y_answer a) of Inl e \<Rightarrow> Inl e | Inr y \<Rightarrow> Inr (x, y)))
      else Inr (10, 10))"

definition ask_opacity :: "watermark_answers \<Rightarrow> py_error + int" where
  "ask_opacity a = map_sum id opacity_default (py_int (py_strip (opacity_answer a)))"

definition ask_font_size :: "watermark_answers \<Rightarrow> py_error + int" where
  "ask_font_size a = map_sum id font_size_default (py_int (py_strip (font_size_answer a)))"

definition watermark_settings_of :: "watermark_answers \<Rightarrow> py_error + watermark_settings" where
  "watermark_settings_of a =
     (case ask_position a of
        Inl e \<Rightarrow> Inl e
      | Inr position \<Rightarrow>
          (case ask_opacity a of
             Inl e \<Rightarrow> Inl e
           | Inr opacity \<Rightarrow>
               (case ask_font_size a of
                  Inl e \<Rightarrow> Inl e
                | Inr font_size \<Rightarrow>
                    Inr \<lparr>wm_text = py_strip (text_answer a), wm_position = position,
                         wm_opacity = opacity, wm_font_size = font_size\<rparr>)))"

section \<open>Drawing and saving the watermark\<close>

text \<open>\<open>Image.open(image_path).convert("RGBA")\<close> (line 45) on the modelled modes.\<close>

definition pixel_to_rgba :: "image_mode \<Rightarrow> byte list \<Rightarrow> byte list" where
  "pixel_to_rgba m p =
     (case m of
        Mode_L \<Rightarrow> [p ! 0, p ! 0, p ! 0, 255]
      | Mode_RGB \<Rightarrow> [p ! 0, p ! 1, p ! 2, 255]
      | Mode_RGBA \<Rightarrow> [p ! 0, p ! 1, p ! 2, p ! 3])"

definition convert_rgba :: "image \<Rightarrow> image" where
  "convert_rgba im = im\<lparr>mode := Mode_RGBA, data := map (map (pixel_to_rgba (mode im))) (data im)\<rparr>"

text \<open>
  What the \<open>try\<close> block (lines 42--84) ends with: the path the image was
  saved at, the save not being found afterwards, or a caught exception. The
  overlay, the font and \<open>draw.text\<close> followed by \<open>Image.alpha_composite\<close>
  (lines 48--61) are PIL's rendering and are the parameter \<open>render\<close>
  (theory \<open>Render\<close> defines the program's renderer, \<open>pil_render\<close>);
  \<open>os.path.abspath\<close> is the identity on the model's normalised paths.
\<close>

datatype watermark_result = WM_Saved string | WM_Not_Found string | WM_Caught os_error

definition watermark_try ::
  "fs_state \<Rightarrow> string \<Rightarrow> string \<Rightarrow> watermark_settings \<Rightarrow> (watermark_settings \<Rightarrow> image \<Rightarrow> image) \<Rightarrow>
     fs_state \<times> watermark_result" where
  "watermark_try fs image_path output_folder st render =
     (case fs_open fs image_path of
        Inl e \<Rightarrow> (fs, WM_Caught e)
      | Inr f \<Rightarrow>
          (let image = convert_rgba (file_image f);
               watermarked_image = render st image
           in case (if \<not> path_exists fs output_folder then fs_mkdir fs output_folder else Inr fs) of
                Inl e \<Rightarrow> (fs, WM_Caught e)
              | Inr fs1 \<Rightarrow>
                  (let output_path = path_join output_folder ''watermarked_image.png'' in
                   case fs_save_png fs1 output_path (convert_rgb watermarked_image) of
                     Inl e \<Rightarrow> (fs1, WM_Caught e)
                   | Inr fs2 \<Rightarrow>
                       (fs2, if path_exists fs2 output_path then WM_Saved output_path
                             else WM_Not_Found output_path))))"

text \<open>\<open>user_driven_watermarking(image_path, output_folder)\<close>: the prompts, then the \<open>try\<close> block.\<close>

definition user_driven_watermarking ::
  "fs_state \<Rightarrow> string \<Rightarrow> string \<Rightarrow> (watermark_settings \<Rightarrow> image \<Rightarrow> image) \<Rightarrow>
     (fs_state \<times> watermark_result) io" where
  "user_driven_watermarking fs image_path output_folder render =
     io_bind watermark_prompts (\<lambda>st. io_return (watermark_try fs image_path output_folder st render))"

text \<open>A file system holding one RGB image, the fixture of the examples below.\<close>

definition wm_fixture_fs :: fs_state where
  "wm_fixture_fs = \<lparr>fs_dirs = {}, fs_files = [''a.png'' \<mapsto> \<lparr>file_image = pil_1x1, file_format = ''PNG''\<rparr>]\<rparr>"

section \<open>Lemmas\<close>

lemma opacity_default_bounds: "0 \<le> opacity_default v \<and> opacity_default v \<le> 255"
  by (simp add: opacity_default_def)

lemma font_size_default_pos: "0 < font_size_default v"
  by (simp add: font_size_default_def)

lemmas watermark_prompt_simps = watermark_prompts_def io_lift_bind io_bind_assoc Let_def

text \<open>Reading the answers' lines one by one gives the reference settings.\<close>

lemma watermark_prompts_answers:
  "watermark_prompts (answer_lines a @ rest) =
     (case watermark_settings_of a of Inl e \<Rightarrow> Inl (Raised e) | Inr st \<Rightarrow> Inr (st, rest))"
  by (simp add: watermark_prompt_simps answer_lines_def watermark_settings_of_def ask_position_def
      ask_opacity_def ask_font_size_def split: sum.splits)

lemma watermark_try_saved:
  assumes "fs_files fs image_path = Some f"
    and "output_folder = [] \<or> last output_folder \<noteq> CHR ''/''"
    and "dir_exists fs output_folder \<or>
         (\<not> path_exists fs output_folder \<and> dir_exists fs (path_dirname output_folder))"
    and "\<not> dir_exists fs (path_join output_folder ''watermarked_image.png'')"
  shows "\<exists>fs'. watermark_try fs image_path output_folder st render =
           (fs', WM_Saved (path_join output_folder ''watermarked_image.png'')) \<and>
         fs_files fs' = (fs_files fs)(path_join output_folder ''watermarked_image.png'' \<mapsto>
           \<lparr>file_image = rgb_to_image (convert_rgb (render st (convert_rgba (file_image f)))),
            file_format = ''PNG''\<rparr>) \<and>
         dir_exists fs' output_folder"
proof -
  let ?out = "path_join output_folder ''watermarked_image.png''"
  have dn: "path_dirname ?out = output_folder"
    using assms(2) by (rule path_dirname_join) simp_all
  have "\<exists>fs1. (if \<not> path_exists fs output_folder then fs_mkdir fs output_folder else Inr fs) = Inr fs1 \<and>
      dir_exists fs1 output_folder \<and> fs_files fs1 = fs_files fs \<and>
      fs_dirs fs1 \<subseteq> insert output_folder (fs_dirs fs)"
    using assms(3)
  proof (elim disjE conjE)
    assume "dir_exists fs output_folder"
    then show ?thesis by (auto simp: dir_exists_def path_exists_def)
  next
    assume "\<not> path_exists fs output_folder" and "dir_exists fs (path_dirname output_folder)"
    then show ?thesis by (auto simp: fs_mkdir_def dir_exists_def)
  qed
  then obtain fs1 where fs1: "(if \<not> path_exists fs output_folder then fs_mkdir fs output_folder else Inr fs) = Inr fs1"
    and d1: "dir_exists fs1 output_folder" and f1: "fs_files fs1 = fs_files fs"
    and sub: "fs_dirs fs1 \<subseteq> insert output_folder (fs_dirs fs)" by blast
  have "?out \<noteq> output_folder" by (rule path_join_not_self) simp_all
  moreover have "?out \<noteq> []" by (simp add: path_join_def)
  ultimately have nd: "\<not> dir_exists fs1 ?out"
    using assms(4) sub by (auto simp: dir_exists_def)
  let ?img = "convert_rgb (render st (convert_rgba (file_image f)))"
  obtain fs2 where s: "fs_save_png fs1 ?out ?img = Inr fs2"
    using nd d1 dn by (simp add: fs_save_png_def)
  have files: "fs_files fs2 = (fs_files fs)(?out \<mapsto> \<lparr>file_image = rgb_to_image ?img, file_format = ''PNG''\<rparr>)"
    and dirs: "fs_dirs fs2 = fs_dirs fs1"
    using fs_save_png_files [OF s] f1 by simp_all
  have "path_exists fs2 ?out" using files by (simp add: path_exists_def)
  moreover have "dir_exists fs2 output_folder" using d1 dirs by (simp add: dir_exists_def)
  ultimately show ?thesis
    using assms(1) fs1 s files
    by (simp add: watermark_try_def fs_open_def Let_def)
qed

section \<open>The watermark's contract\<close>

text \<open>
  C26: whenever the prompts end without an exception, the text is the
  stripped first answer, the opacity is in \<open>0..255\<close>, the font size is
  positive, and the position is \<open>(10, 10)\<close> unless the second answer is Y.
\<close>

theorem watermark_settings_valid:
  assumes "watermark_prompts (t # p # s) = Inr (st, s')"
  shows "wm_text st = py_strip t \<and> 0 \<le> wm_opacity st \<and> wm_opacity st \<le> 255 \<and>
         0 < wm_font_size st \<and> (\<not> answer_is p CHR ''Y'' \<longrightarrow> wm_position st = (10, 10))"
  using assms opacity_default_bounds font_size_default_pos
  by (auto simp: watermark_prompt_simps io_bind_def io_input_def split: list.splits sum.splits if_splits)

theorem watermark_settings_valid_witness:
  "watermark_prompts ['' (c) '', ''n'', ''300'', ''-2''] =
     Inr (\<lparr>wm_text = ''(c)'', wm_position = (10, 10), wm_opacity = 128, wm_font_size = 30\<rparr>, []) \<and>
   wm_text \<lparr>wm_text = ''(c)'', wm_position = (10::int, 10::int), wm_opacity = 128::int, wm_font_size = 30::int\<rparr> =
     py_strip '' (c) '' \<and>
   0 < wm_font_size \<lparr>wm_text = ''(c)'', wm_position = (10::int, 10::int), wm_opacity = 128::int, wm_font_size = 30::int\<rparr>"
proof -
  have h: "watermark_prompts ['' (c) '', ''n'', ''300'', ''-2''] =
     Inr (\<lparr>wm_text = ''(c)'', wm_position = (10, 10), wm_opacity = 128, wm_font_size = 30\<rparr>, [])"
    by (simp add: watermark_prompt_simps py_int_def py_int_digits_def decimal_value_def py_isdecimal_def
        answer_is_eval sublist_code opacity_default_def font_size_default_def)
  show ?thesis using watermark_settings_valid [OF h] h by simp
qed

text \<open>
  C27: on the lines of a set of answers, \<open>user_driven_watermarking\<close> raises
  the first \<open>ValueError\<close> of the reference settings, and otherwise runs its
  \<open>try\<close> block on them with the remaining lines untouched.
\<close>

theorem watermark_refines:
  "user_driven_watermarking fs image_path output_folder render (answer_lines a @ rest) =
     (case watermark_settings_of a of
        Inl e \<Rightarrow> Inl (Raised e)
      | Inr st \<Rightarrow> Inr (watermark_try fs image_path output_folder st render, rest))"
  using watermark_prompts_answers [of a rest]
  by (simp add: user_driven_watermarking_def io_bind_def split: sum.splits)

text \<open>
  C28: answers typed as the decimal form of integers are taken as they are,
  except an opacity out of \<open>0..255\<close> (replaced by 128) and a font size that is
  not positive (replaced by 30); the text is stripped.
\<close>

theorem watermark_settings_typed:
  "watermark_prompts ([t, ''Y'', py_str x, py_str y, py_str o', py_str f] @ rest) =
     Inr (\<lparr>wm_text = py_strip t, wm_position = (x, y),
           wm_opacity = (if 0 \<le> o' \<and> o' \<le> 255 then o' else 128),
           wm_font_size = (if f \<le> 0 then 30 else f)\<rparr>, rest)"
proof -
  have "answer_is ''Y'' CHR ''Y''" by (simp add: answer_is_eval)
  then show ?thesis
    by (simp add: watermark_prompt_simps py_strip_py_str py_int_py_str opacity_default_def
        font_size_default_def)
qed

text \<open>
  C29: \<open>user_driven_watermarking\<close> raises exactly when one of the
  \<open>int(...)\<close> conversions it performs fails: the coordinates only after a Y,
  then the opacity, then the font size. Every error of the \<open>try\<close> block is
  caught.
\<close>

lemma watermark_settings_of_Inl_iff:
  "(\<exists>e. watermark_settings_of a = Inl e) \<longleftrightarrow>
     (answer_is (position_answer a) CHR ''Y'' \<and> (isl (py_int (x_answer a)) \<or> isl (py_int (y_answer a)))) \<or>
     isl (py_int (py_strip (opacity_answer a))) \<or> isl (py_int (py_strip (font_size_answer a)))"
  by (cases "py_int (x_answer a)"; cases "py_int (y_answer a)"; cases "py_int (py_strip (opacity_answer a))";
      cases "py_int (py_strip (font_size_answer a))")
     (simp_all add: watermark_settings_of_def ask_position_def ask_opacity_def ask_font_size_def)

theorem watermark_raises_iff:
  "(\<exists>e. user_driven_watermarking fs image_path output_folder render (answer_lines a @ rest) = Inl e) \<longleftrightarrow>
     (answer_is (position_answer a) CHR ''Y'' \<and> (isl (py_int (x_answer a)) \<or> isl (py_int (y_answer a)))) \<or>
     isl (py_int (py_strip (opacity_answer a))) \<or> isl (py_int (py_strip (font_size_answer a)))"
proof -
  have "(\<exists>e. user_driven_watermarking fs image_path output_folder render (answer_lines a @ rest) = Inl e) \<longleftrightarrow>
      (\<exists>e. watermark_settings_of a = Inl e)"
    using watermark_prompts_answers [of a rest]
    by (auto simp: user_driven_watermarking_def io_bind_def split: sum.splits)
  then show ?thesis by (simp only: watermark_settings_of_Inl_iff)
qed

text \<open>
  C30: when the prompts succeed, the image exists, and the output folder exists
  or its parent does, the watermarked image (RGBA conversion, rendering, RGB
  conversion) is saved as PNG at \<open>output_folder/watermarked_image.png\<close>; no
  other file changes and the folder exists afterwards.
\<close>

theorem watermark_saves:
  assumes "watermark_prompts s = Inr (st, s')" and "fs_files fs image_path = Some f"
    and "output_folder = [] \<or> last output_folder \<noteq> CHR ''/''"
    and "dir_exists fs output_folder \<or>
         (\<not> path_exists fs output_folder \<and> dir_exists fs (path_dirname output_folder))"
    and "\<not> dir_exists fs (path_join output_folder ''watermarked_image.png'')"
  shows "\<exists>fs'. user_driven_watermarking fs image_path output_folder render s =
           Inr ((fs', WM_Saved (path_join output_folder ''watermarked_image.png'')), s') \<and>
         fs_files fs' = (fs_files fs)(path_join output_folder ''watermarked_image.png'' \<mapsto>
           \<lparr>file_image = rgb_to_image (convert_rgb (render st (convert_rgba (file_image f)))),
            file_format = ''PNG''\<rparr>) \<and>
         dir_exists fs' output_folder"
  using watermark_try_saved [OF assms(2-5), of st render] assms(1)
  by (auto simp: user_driven_watermarking_def io_bind_def)

theorem watermark_saves_witness:
  "watermark_prompts [''w'', ''n'', ''1'', ''1''] =
     Inr (\<lparr>wm_text = ''w'', wm_position = (10, 10), wm_opacity = 1, wm_font_size = 1\<rparr>, []) \<and>
   \<not> path_exists wm_fixture_fs ''out'' \<and>
   (\<exists>fs'. user_driven_watermarking wm_fixture_fs ''a.png'' ''out'' (\<lambda>_ im. im) [''w'', ''n'', ''1'', ''1''] =
      Inr ((fs', WM_Saved ''out/watermarked_image.png''), []) \<and>
    fs_files fs' ''out/watermarked_image.png'' =
      Some \<lparr>file_image = rgb_to_image (convert_rgb (convert_rgba pil_1x1)), file_format = ''PNG''\<rparr> \<and>
    dir_exists fs' ''out'')"
proof -
  have h1: "watermark_prompts [''w'', ''n'', ''1'', ''1''] =
     Inr (\<lparr>wm_text = ''w'', wm_position = (10, 10), wm_opacity = 1, wm_font_size = 1\<rparr>, [])"
    by (simp add: watermark_prompt_simps py_int_def py_int_digits_def decimal_value_def py_isdecimal_def
        answer_is_eval sublist_code opacity_default_def font_size_default_def)
  have h2: "fs_files wm_fixture_fs ''a.png'' = Some \<lparr>file_image = pil_1x1, file_format = ''PNG''\<rparr>"
    by (simp add: wm_fixture_fs_def)
  have h3: "''out'' = [] \<or> last ''out'' \<noteq> CHR ''/''" by simp
  have h4: "dir_exists wm_fixture_fs ''out'' \<or>
      (\<not> path_exists wm_fixture_fs ''out'' \<and> dir_exists wm_fixture_fs (path_dirname ''out''))"
    by (simp add: wm_fixture_fs_def path_exists_def dir_exists_def path_dirname_def)
  have j: "path_join ''out'' ''watermarked_image.png'' = ''out/watermarked_image.png''"
    by (simp add: path_join_def)
  have h5: "\<not> dir_exists wm_fixture_fs (path_join ''out'' ''watermarked_image.png'')"
    by (simp add: wm_fixture_fs_def dir_exists_def j)
  have "\<not> path_exists wm_fixture_fs ''out''" by (simp add: wm_fixture_fs_def path_exists_def)
  then show ?thesis using h1 watermark_saves [OF h1 h2 h3 h4 h5, of "\<lambda>_ im. im"] by (auto simp: j)
qed

end
