(* ===== verification/TopLevel.thy ===== *)
theory TopLevel
  imports Pipeline Delimiter Caesar Watermark
begin

text \<open>
  The script part of \<open>src/Steganography.py\<close> (lines 157--245) with its
  helpers \<open>create_directory\<close> (lines 17--25), \<open>validate_image_format\<close>
  (lines 157--166) and \<open>delete_original_image\<close> (lines 231--245). The run is
  a sequence of phases, one per numbered step of the script; a configuration
  holds the phase, the unread lines of standard input, the file system, the
  paths chosen so far and the results the program printed. \<open>exit()\<close> ends
  the run in \<open>Exited\<close>, an uncaught exception in \<open>Crashed\<close>.
\<close>

datatype phase =
    Start
  | Validated
  | Ready
  | Loaded image
  | Delimited image string
  | Deleting
  | Finished
  | Exited
  | Crashed run_exc

datatype event =
    Embedding_Aborted
  | Embedded string
  | Retrieved "codepoint list option"
  | Watermarked watermark_result
  | Caesar_Module string string int
  | Caesar_Encrypted string
  | Caesar_Decrypted string
  | Deleted string
  | Delete_Failed os_error

record config =
  phase :: phase
  stdin :: "string list"
  fs :: fs_state
  original :: string
  destination :: string
  events :: "event list"

definition init_config :: "string list \<Rightarrow> fs_state \<Rightarrow> config" where
  "init_config s fs0 =
     \<lparr>phase = Start, stdin = s, fs = fs0, original = [], destination = [], events = []\<rparr>"

definition is_final :: "phase \<Rightarrow> bool" where
  "is_final p \<longleftrightarrow> p = Finished \<or> p = Exited \<or> (\<exists>e. p = Crashed e)"

text \<open>Running one phase: its lines are read from the configuration's input.\<close>

definition run_phase :: "config \<Rightarrow> (config \<Rightarrow> config) io \<Rightarrow> config" where
  "run_phase c m =
     (case m (stdin c) of
        Inl e \<Rightarrow> c\<lparr>phase := Crashed e, stdin := []\<rparr>
      | Inr (f, s') \<Rightarrow> f (c\<lparr>stdin := s'\<rparr>))"

text \<open>\<open>create_directory(path)\<close>: \<open>os.makedirs(path, exist_ok=True)\<close>, or \<open>exit()\<close>.\<close>

definition create_directory :: "string \<Rightarrow> config \<Rightarrow> config" where
  "create_directory path c =
     (case fs_makedirs (fs c) path of
        Inl _ \<Rightarrow> c\<lparr>phase := Exited\<rparr>
      | Inr fs' \<Rightarrow> c\<lparr>phase := Ready, fs := fs', destination := path\<rparr>)"

text \<open>Step 1 and \<open>validate_image_format\<close>: \<open>Image.open\<close> failing ends in \<open>exit()\<close>.\<close>

definition step_start :: "(config \<Rightarrow> config) io" where
  "step_start =
     io_bind io_input (\<lambda>path_to_original_image. io_return (\<lambda>c.
       case fs_open (fs c) path_to_original_image of
         Inl _ \<Rightarrow> c\<lparr>phase := Exited, original := path_to_original_image\<rparr>
       | Inr _ \<Rightarrow> c\<lparr>phase := Validated, original := path_to_original_image\<rparr>))"

text \<open>The destination folder (lines 175--187).\<close>

definition step_destination :: "(config \<Rightarrow> config) io" where
  "step_destination =
     io_bind io_input (\<lambda>ask_path_to_destination_folder.
       if answer_is ask_path_to_destination_folder CHR ''Y'' then
         io_bind io_input (\<lambda>path_in. io_return (create_directory (py_strip path_in)))
       else if answer_is ask_path_to_destination_folder CHR ''N'' then
         io_return (create_directory ''Modified_Images_StegEM'')
       else io_return (\<lambda>c. c\<lparr>phase := Exited\<rparr>))"

text \<open>Step 2 (lines 190--196): \<open>Image.open\<close> again.\<close>

definition step_load :: "config \<Rightarrow> config" where
  "step_load c =
     (case fs_open (fs c) (original c) of
        Inl _ \<Rightarrow> c\<lparr>phase := Exited\<rparr>
      | Inr f \<Rightarrow> c\<lparr>phase := Loaded (file_image f)\<rparr>)"

text \<open>Step 3 (line 199): \<open>get_delimiter()\<close>, reading its second line only after a Y.\<close>

definition step_delimiter :: "(nat \<Rightarrow> 53 word) \<Rightarrow> image \<Rightarrow> (config \<Rightarrow> config) io" where
  "step_delimiter rnd im =
     io_bind io_input (\<lambda>choice.
       if answer_is choice CHR ''Y'' then
         io_bind io_input (\<lambda>custom.
           io_return (\<lambda>c. c\<lparr>phase := Delimited im (get_delimiter choice custom rnd)\<rparr>))
       else io_return (\<lambda>c. c\<lparr>phase := Delimited im (get_delimiter choice [] rnd)\<rparr>))"

text \<open>
  \<open>embed_message(image, delimiter)\<close> with its prompts: the message, and the
  confirmation only when the message is longer than the capacity; the saved
  image goes to \<open>path_to_destination_folder/embedded_image.png\<close> (lines
  109--112), where a failing save is not caught.
\<close>

definition step_embed :: "image \<Rightarrow> string \<Rightarrow> (config \<Rightarrow> config) io" where
  "step_embed im delimiter =
     io_bind io_input (\<lambda>message_in.
       let message = map of_char message_in in
       io_bind
         (if calculate_max_message_size (size im) < length message then io_input else io_return [])
         (\<lambda>confirmation. io_return (\<lambda>c.
            case embed_message im delimiter message confirmation of
              Aborted \<Rightarrow> c\<lparr>phase := Deleting, events := events c @ [Embedding_Aborted]\<rparr>
            | Embed_Raised e \<Rightarrow> c\<lparr>phase := Crashed (Raised e)\<rparr>
            | Saved img \<Rightarrow>
                (let output_path = path_join (destination c) ''embedded_image.png'' in
                 case fs_save_png (fs c) output_path img of
                   Inl e \<Rightarrow> c\<lparr>phase := Crashed (OS_Raised e)\<rparr>
                 | Inr fs' \<Rightarrow> c\<lparr>phase := Deleting, fs := fs', events := events c @ [Embedded output_path]\<rparr>))))"

definition step_retrieve :: "image \<Rightarrow> string \<Rightarrow> config \<Rightarrow> config" where
  "step_retrieve im delimiter c =
     (case retrieve_message im delimiter of
        Inl e \<Rightarrow> c\<lparr>phase := Crashed (Raised e)\<rparr>
      | Inr r \<Rightarrow> c\<lparr>phase := Deleting, events := events c @ [Retrieved r]\<rparr>)"

definition step_watermark :: "(watermark_settings \<Rightarrow> image \<Rightarrow> image) \<Rightarrow> config \<Rightarrow> (config \<Rightarrow> config) io" where
  "step_watermark render c0 =
     io_bind (user_driven_watermarking (fs c0) (original c0) (destination c0) render) (\<lambda>(fs', r).
       io_return (\<lambda>c. c\<lparr>phase := Deleting, fs := fs', events := events c @ [Watermarked r]\<rparr>))"

text \<open>
  The Caesar branch (lines 207--221). \<open>from CaesarCipher import ...\<close> first
  runs that module's script (its two prompts and prints), then the branch asks
  for encryption or decryption.
\<close>

definition step_caesar :: "(config \<Rightarrow> config) io" where
  "step_caesar =
     io_bind io_input (\<lambda>module_message. io_bind io_input (\<lambda>module_shift.
     case caesar_script module_message module_shift of
       Caesar_Raised e \<Rightarrow> io_lift (Inl e)
     | Caesar_Printed enc dec sh \<Rightarrow>
         io_bind io_input (\<lambda>cipher_action.
           if answer_is cipher_action CHR ''E'' then
             io_bind io_input (\<lambda>original_message. io_bind io_input (\<lambda>shift_in.
             io_bind (io_lift (py_int shift_in)) (\<lambda>shift.
             io_return (\<lambda>c. c\<lparr>phase := Deleting, events := events c @
               [Caesar_Module enc dec sh, Caesar_Encrypted (caesar_cipher_encrypt original_message shift)]\<rparr>))))
           else if answer_is cipher_action CHR ''D'' then
             io_bind io_input (\<lambda>encrypted_message. io_bind io_input (\<lambda>shift_in.
             io_bind (io_lift (py_int shift_in)) (\<lambda>shift.
             io_return (\<lambda>c. c\<lparr>phase := Deleting, events := events c @
               [Caesar_Module enc dec sh, Caesar_Decrypted (caesar_cipher_decrypt encrypted_message shift)]\<rparr>))))
           else io_return (\<lambda>c. c\<lparr>phase := Deleting, events := events c @ [Caesar_Module enc dec sh]\<rparr>))))"

text \<open>
  Step 4 (lines 202--227). An answer other than E, R, W and C prints
  \<open>Invalid option selected. Exiting.\<close> but does not exit: the script goes
  on to step 6.
\<close>

definition step_action ::
  "(watermark_settings \<Rightarrow> image \<Rightarrow> image) \<Rightarrow> image \<Rightarrow> string \<Rightarrow> config \<Rightarrow> (config \<Rightarrow> config) io" where
  "step_action render im delimiter c0 =
     io_bind io_input (\<lambda>action.
       if answer_is action CHR ''E'' then step_embed im delimiter
       else if answer_is action CHR ''R'' then io_return (step_retrieve im delimiter)
       else if answer_is action CHR ''W'' then step_watermark render c0
       else if answer_is action CHR ''C'' then step_caesar
       else io_return (\<lambda>c. c\<lparr>phase := Deleting\<rparr>))"

text \<open>Step 6, \<open>delete_original_image\<close> (lines 231--245): errors of \<open>os.remove\<close> are caught.\<close>

definition step_delete :: "(config \<Rightarrow> config) io" where
  "step_delete =
     io_bind io_input (\<lambda>permission_delete_original. io_return (\<lambda>c.
       if answer_is permission_delete_original CHR ''Y'' then
         (case fs_remove (fs c) (original c) of
            Inl e \<Rightarrow> c\<lparr>phase := Finished, events := events c @ [Delete_Failed e]\<rparr>
          | Inr fs' \<Rightarrow> c\<lparr>phase := Finished, fs := fs', events := events c @ [Deleted (original c)]\<rparr>)
       else c\<lparr>phase := Finished\<rparr>))"

definition stegem_step :: "(nat \<Rightarrow> 53 word) \<Rightarrow> (watermark_settings \<Rightarrow> image \<Rightarrow> image) \<Rightarrow> config \<Rightarrow> config" where
  "stegem_step rnd render c =
     (case phase c of
        Start \<Rightarrow> run_phase c step_start
      | Validated \<Rightarrow> run_phase c step_destination
      | Ready \<Rightarrow> step_load c
      | Loaded im \<Rightarrow> run_phase c (step_delimiter rnd im)
      | Delimited im delimiter \<Rightarrow> run_phase c (step_action render im delimiter c)
      | Deleting \<Rightarrow> run_phase c step_delete
      | _ \<Rightarrow> c)"

text \<open>The configurations a run can reach.\<close>

inductive reachable :: "(nat \<Rightarrow> 53 word) \<Rightarrow> (watermark_settings \<Rightarrow> image \<Rightarrow> image) \<Rightarrow>
    string list \<Rightarrow> fs_state \<Rightarrow> config \<Rightarrow> bool"
  for rnd render s fs0 where
  init: "reachable rnd render s fs0 (init_config s fs0)"
| step: "reachable rnd render s fs0 c \<Longrightarrow> reachable rnd render s fs0 (stegem_step rnd render c)"

text \<open>The whole script: six phases take every run to its end.\<close>

definition stegem_run ::
  "(nat \<Rightarrow> 53 word) \<Rightarrow> (watermark_settings \<Rightarrow> image \<Rightarrow> image) \<Rightarrow> string list \<Rightarrow> fs_state \<Rightarrow> config" where
  "stegem_run rnd render s fs0 = (stegem_step rnd render ^^ 6) (init_config s fs0)"

text \<open>How far a phase is from the end of the script.\<close>

definition phase_rank :: "phase \<Rightarrow> nat" where
  "phase_rank p =
     (case p of Start \<Rightarrow> 0 | Validated \<Rightarrow> 1 | Ready \<Rightarrow> 2 | Loaded _ \<Rightarrow> 3 | Delimited _ _ \<Rightarrow> 4
      | Deleting \<Rightarrow> 5 | _ \<Rightarrow> 6)"

text \<open>
  The file-system effect allowed between two states: directories are only
  added, and a file changes only at a path satisfying \<open>P\<close>.
\<close>

definition fs_frame :: "fs_state \<Rightarrow> fs_state \<Rightarrow> (string \<Rightarrow> bool) \<Rightarrow> bool" where
  "fs_frame fs0 fs1 P \<longleftrightarrow>
     fs_dirs fs0 \<subseteq> fs_dirs fs1 \<and> (\<forall>p. fs_files fs1 p \<noteq> fs_files fs0 p \<longrightarrow> P p)"

definition late_phase :: "phase \<Rightarrow> bool" where
  "late_phase p \<longleftrightarrow> p = Deleting \<or> p = Finished \<or> (\<exists>e. p = Crashed e)"

definition output_paths :: "config \<Rightarrow> string \<Rightarrow> bool" where
  "output_paths c p \<longleftrightarrow>
     p = path_join (destination c) ''embedded_image.png'' \<or> p = path_join (destination c) ''watermarked_image.png''"

text \<open>
  The frame invariant of a run from the file system \<open>fs0\<close>: directories
  are only created, and a file differs from \<open>fs0\<close> only once the action
  has run, and only at the original image or at one of the two output files.
\<close>

definition frame_inv :: "fs_state \<Rightarrow> config \<Rightarrow> bool" where
  "frame_inv fs0 c \<longleftrightarrow>
     fs_frame fs0 (fs c) (\<lambda>p. late_phase (phase c) \<and> (p = original c \<or> output_paths c p))"

text \<open>Only the first two phases choose the paths.\<close>

definition same_paths :: "config \<Rightarrow> config \<Rightarrow> bool" where
  "same_paths c c' \<longleftrightarrow> original c' = original c \<and> destination c' = destination c"

text \<open>
  Well-formed images (\<open>Image.wf_pil_image\<close>) throughout a run: every stored
  image file, and the image a phase carries after step 2. A renderer is
  well-behaved when it maps well-formed images to well-formed images.
\<close>

definition wf_files :: "fs_state \<Rightarrow> bool" where
  "wf_files fa \<longleftrightarrow> (\<forall>p f. fs_files fa p = Some f \<longrightarrow> wf_pil_image (file_image f))"

definition phase_image_wf :: "phase \<Rightarrow> bool" where
  "phase_image_wf p =
     (case p of Loaded im \<Rightarrow> wf_pil_image im | Delimited im _ \<Rightarrow> wf_pil_image im | _ \<Rightarrow> True)"

definition wf_config :: "config \<Rightarrow> bool" where
  "wf_config c \<longleftrightarrow> wf_files (fs c) \<and> phase_image_wf (phase c)"

definition render_wf :: "(watermark_settings \<Rightarrow> image \<Rightarrow> image) \<Rightarrow> bool" where
  "render_wf render \<longleftrightarrow> (\<forall>st im. wf_pil_image im \<longrightarrow> wf_pil_image (render st im))"

text \<open>
  How many more lines of input a phase may read before the script ends
  (the W branch with a Y to the position question reads the most).
\<close>

definition phase_reads :: "phase \<Rightarrow> nat" where
  "phase_reads p =
     (case p of Start \<Rightarrow> 13 | Validated \<Rightarrow> 12 | Ready \<Rightarrow> 10 | Loaded _ \<Rightarrow> 10 | Delimited _ _ \<Rightarrow> 8
      | Deleting \<Rightarrow> 1 | _ \<Rightarrow> 0)"

definition input_ok :: "config \<Rightarrow> bool" where
  "input_ok c \<longleftrightarrow> (case phase c of Crashed e \<Rightarrow> e \<noteq> EOF_Error | p \<Rightarrow> phase_reads p \<le> length (stdin c))"

text \<open>What the function a step returns may do: keep the input, and lead to a phase that reads at most \<open>k\<close> more lines or to a crash other than \<open>EOFError\<close>.\<close>

definition next_ok :: "nat \<Rightarrow> (config \<Rightarrow> config) \<Rightarrow> bool" where
  "next_ok k f \<longleftrightarrow>
     (\<forall>c. stdin (f c) = stdin c \<and>
        (case phase (f c) of Crashed e \<Rightarrow> e \<noteq> EOF_Error | p \<Rightarrow> phase_reads p \<le> k))"

text \<open>
  What steps 1 to 3 establish: after step 1 the original image is a file; after
  the destination prompt the destination folder exists; the image held from step
  2 on is the one stored at the original path.
\<close>

definition script_inv :: "config \<Rightarrow> bool" where
  "script_inv c \<longleftrightarrow>
     (case phase c of
        Validated \<Rightarrow> original c \<in> dom (fs_files (fs c))
      | Ready \<Rightarrow> original c \<in> dom (fs_files (fs c)) \<and> dir_exists (fs c) (destination c)
      | Loaded im \<Rightarrow> (\<exists>f. fs_files (fs c) (original c) = Some f \<and> file_image f = im) \<and>
          dir_exists (fs c) (destination c)
      | Delimited im _ \<Rightarrow> (\<exists>f. fs_files (fs c) (original c) = Some f \<and> file_image f = im) \<and>
          dir_exists (fs c) (destination c)
      | _ \<Rightarrow> True)"

section \<open>Lemmas\<close>

lemma is_final_rank: "is_final p \<longleftrightarrow> phase_rank p = 6"
  by (cases p) (auto simp: is_final_def phase_rank_def)

lemma final_step: "is_final (phase c) \<Longrightarrow> stegem_step rnd render c = c"
  by (auto simp: is_final_def stegem_step_def)

lemma run_phase_cases:
  assumes "\<And>f s'. m (stdin c) = Inr (f, s') \<Longrightarrow> P (f (c\<lparr>stdin := s'\<rparr>))"
    and "\<And>e. P (c\<lparr>phase := Crashed e, stdin := []\<rparr>)"
  shows "P (run_phase c m)"
  using assms by (auto simp: run_phase_def split: sum.splits)

lemmas io_step_simps = io_bind_def io_input_def io_lift_def io_return_def

lemma step_start_phase: "step_start s = Inr (f, s') \<Longrightarrow> phase (f c) \<in> {Exited, Validated}"
  by (auto simp: step_start_def io_step_simps split: list.splits sum.splits)

lemma step_start_rank: "step_start s = Inr (f, s') \<Longrightarrow> 0 < phase_rank (phase (f c))"
  using step_start_phase [of s f s' c] by (auto simp: phase_rank_def)

lemma create_directory_phase: "phase (create_directory p c) \<in> {Exited, Ready}"
  by (auto simp: create_directory_def split: sum.splits)

lemma step_destination_phase: "step_destination s = Inr (f, s') \<Longrightarrow> phase (f c) \<in> {Exited, Ready}"
  using create_directory_phase
  by (auto simp: step_destination_def io_step_simps split: list.splits sum.splits if_splits)

lemma step_load_phase: "phase (step_load c) = Exited \<or> (\<exists>im. phase (step_load c) = Loaded im)"
  by (auto simp: step_load_def split: sum.splits)

lemma step_delimiter_phase: "step_delimiter rnd im s = Inr (f, s') \<Longrightarrow> \<exists>d. phase (f c) = Delimited im d"
  by (auto simp: step_delimiter_def io_step_simps split: list.splits sum.splits if_splits)

lemma step_embed_phase:
  "step_embed im d s = Inr (f, s') \<Longrightarrow> phase (f c) = Deleting \<or> (\<exists>e. phase (f c) = Crashed e)"
  by (auto simp: step_embed_def io_step_simps Let_def split: list.splits sum.splits if_splits embed_outcome.splits)

lemma step_caesar_phase: "step_caesar s = Inr (f, s') \<Longrightarrow> phase (f c) = Deleting"
  by (auto simp: step_caesar_def io_step_simps split: list.splits sum.splits if_splits caesar_run.splits)

lemma step_watermark_phase: "step_watermark render c0 s = Inr (f, s') \<Longrightarrow> phase (f c) = Deleting"
  by (auto simp: step_watermark_def io_step_simps split: sum.splits prod.splits)

lemma step_action_phase:
  "step_action render im d c0 s = Inr (f, s') \<Longrightarrow> phase (f c) = Deleting \<or> (\<exists>e. phase (f c) = Crashed e)"
  using step_embed_phase step_caesar_phase step_watermark_phase
  by (auto simp: step_action_def step_retrieve_def io_bind_def io_input_def io_return_def
      split: list.splits sum.splits if_splits)

lemma step_delete_phase: "step_delete s = Inr (f, s') \<Longrightarrow> phase (f c) = Finished"
  by (auto simp: step_delete_def io_step_simps split: list.splits sum.splits if_splits)

lemma run_phase_rank:
  assumes "\<And>f s'. m (stdin c) = Inr (f, s') \<Longrightarrow> k < phase_rank (phase (f (c\<lparr>stdin := s'\<rparr>)))"
    and "k < 6"
  shows "k < phase_rank (phase (run_phase c m))"
proof (rule run_phase_cases [where P = "\<lambda>c. k < phase_rank (phase c)"])
  fix f s' assume "m (stdin c) = Inr (f, s')"
  then show "k < phase_rank (phase (f (c\<lparr>stdin := s'\<rparr>)))" by (rule assms(1))
next
  fix e show "k < phase_rank (phase (c\<lparr>phase := Crashed e, stdin := []\<rparr>))"
    using assms(2) by (simp add: phase_rank_def)
qed

lemma step_ranks:
  "step_destination s = Inr (f, s') \<Longrightarrow> 1 < phase_rank (phase (f c))"
  "step_delimiter rnd im s = Inr (f, s') \<Longrightarrow> 3 < phase_rank (phase (f c))"
  "step_action render im d c0 s = Inr (f, s') \<Longrightarrow> 4 < phase_rank (phase (f c))"
  "step_delete s = Inr (f, s') \<Longrightarrow> 5 < phase_rank (phase (f c))"
  using step_destination_phase [of s f s' c] step_delimiter_phase [of rnd im s f s' c]
    step_action_phase [of render im d c0 s f s' c] step_delete_phase [of s f s' c]
  by (auto simp: phase_rank_def)

lemma step_rank:
  assumes "\<not> is_final (phase c)"
  shows "phase_rank (phase c) < phase_rank (phase (stegem_step rnd render c))"
proof (cases "phase c")
  case Start
  have "0 < phase_rank (phase (run_phase c step_start))"
    by (rule run_phase_rank, erule step_start_rank, simp)
  then show ?thesis using Start by (simp add: stegem_step_def phase_rank_def)
next
  case Validated
  have "1 < phase_rank (phase (run_phase c step_destination))"
    by (rule run_phase_rank, erule step_ranks(1), simp)
  then show ?thesis using Validated by (simp add: stegem_step_def phase_rank_def)
next
  case Ready
  then show ?thesis using step_load_phase [of c] by (auto simp: stegem_step_def phase_rank_def)
next
  case (Loaded im)
  have "3 < phase_rank (phase (run_phase c (step_delimiter rnd im)))"
    by (rule run_phase_rank, erule step_ranks(2), simp)
  then show ?thesis using Loaded by (simp add: stegem_step_def phase_rank_def)
next
  case (Delimited im d)
  have "4 < phase_rank (phase (run_phase c (step_action render im d c)))"
    by (rule run_phase_rank, erule step_ranks(3), simp)
  then show ?thesis using Delimited by (simp add: stegem_step_def phase_rank_def)
next
  case Deleting
  have "5 < phase_rank (phase (run_phase c step_delete))"
    by (rule run_phase_rank, erule step_ranks(4), simp)
  then show ?thesis using Deleting by (simp add: stegem_step_def phase_rank_def)
qed (use assms in \<open>simp_all add: is_final_def\<close>)

lemma phase_rank_le: "phase_rank p \<le> 6"
  by (cases p) (simp_all add: phase_rank_def)

lemma steps_rank:
  "min 6 (phase_rank (phase c) + n) \<le> phase_rank (phase ((stegem_step rnd render ^^ n) c))"
proof (induction n)
  case 0
  then show ?case by simp
next
  case (Suc n)
  let ?c = "(stegem_step rnd render ^^ n) c"
  show ?case
  proof (cases "is_final (phase ?c)")
    case True
    then show ?thesis using final_step [OF True] by (simp add: is_final_rank)
  next
    case False
    then have "phase_rank (phase ?c) < 6" using phase_rank_le [of "phase ?c"] by (auto simp: is_final_rank)
    then show ?thesis using Suc step_rank [OF False, of rnd render] by simp
  qed
qed

lemma fs_frame_refl [simp]: "fs_frame fa fa P"
  by (simp add: fs_frame_def)

lemma fs_frame_trans:
  "fs_frame f0 f1 P \<Longrightarrow> fs_frame f1 f2 Q \<Longrightarrow> fs_frame f0 f2 (\<lambda>p. P p \<or> Q p)"
  unfolding fs_frame_def by (metis order_trans)

lemma fs_frame_mono: "fs_frame f0 f1 P \<Longrightarrow> (\<And>p. P p \<Longrightarrow> Q p) \<Longrightarrow> fs_frame f0 f1 Q"
  by (auto simp: fs_frame_def)

lemma fs_makedirs_frame: "fs_makedirs fa p = Inr fa' \<Longrightarrow> fs_frame fa fa' (\<lambda>_. False)"
  by (auto simp: fs_makedirs_def fs_frame_def split: if_splits)

lemma fs_mkdir_frame: "fs_mkdir fa p = Inr fa' \<Longrightarrow> fs_frame fa fa' (\<lambda>_. False)"
  by (auto simp: fs_mkdir_def fs_frame_def split: if_splits)

lemma fs_save_png_frame: "fs_save_png fa p img = Inr fa' \<Longrightarrow> fs_frame fa fa' (\<lambda>q. q = p)"
  by (auto simp: fs_save_png_def fs_frame_def split: if_splits)

lemma fs_remove_frame: "fs_remove fa p = Inr fa' \<Longrightarrow> fs_frame fa fa' (\<lambda>q. q = p)"
  by (auto simp: fs_remove_def fs_frame_def split: if_splits)

lemma watermark_try_frame:
  "fs_frame fa (fst (watermark_try fa image_path d st render))
     (\<lambda>q. q = path_join d ''watermarked_image.png'')"
proof -
  have "fs_frame fa f1 (\<lambda>_. False)"
    if "(if \<not> path_exists fa d then fs_mkdir fa d else Inr fa) = Inr f1" for f1
    using that fs_mkdir_frame by (auto split: if_splits)
  then show ?thesis
    using fs_save_png_frame fs_frame_trans
    by (fastforce simp: watermark_try_def Let_def split: sum.splits)
qed

text \<open>What one phase does to the files, the chosen paths and the phase.\<close>

lemma run_phase_frame:
  assumes "\<And>f s' c'. m (stdin c) = Inr (f, s') \<Longrightarrow> original c' = original c \<Longrightarrow>
      destination c' = destination c \<Longrightarrow> fs c' = fs c \<Longrightarrow> fs_frame (fs c') (fs (f c')) P"
  shows "fs_frame (fs c) (fs (run_phase c m)) P"
proof (rule run_phase_cases)
  fix f s'
  assume "m (stdin c) = Inr (f, s')"
  from assms [OF this, of "c\<lparr>stdin := s'\<rparr>"] show "fs_frame (fs c) (fs (f (c\<lparr>stdin := s'\<rparr>))) P"
    by simp
qed simp

lemma step_early_frame:
  assumes "phase c \<in> {Start, Validated, Ready} \<or> (\<exists>im. phase c = Loaded im)"
  shows "fs_frame (fs c) (fs (stegem_step rnd render c)) (\<lambda>_. False)"
proof -
  have dest: "step_destination s = Inr (f, s') \<Longrightarrow> fs c' = fa \<Longrightarrow> fs_frame fa (fs (f c')) (\<lambda>_. False)"
    for s f s' c' fa
    using fs_makedirs_frame
    by (auto simp: step_destination_def create_directory_def io_step_simps
        split: list.splits sum.splits if_splits)
  have "step_start s = Inr (f, s') \<Longrightarrow> fs (f c') = fs c'" for s f s' c'
    by (auto simp: step_start_def io_step_simps split: list.splits sum.splits)
  moreover have "step_delimiter rnd im s = Inr (f, s') \<Longrightarrow> fs (f c') = fs c'" for im s f s' c'
    by (auto simp: step_delimiter_def io_step_simps split: list.splits sum.splits if_splits)
  moreover have "fs (step_load c) = fs c" by (simp add: step_load_def split: sum.splits)
  ultimately show ?thesis using assms dest
    by (auto simp: stegem_step_def intro!: run_phase_frame)
qed

lemma user_driven_watermarking_frame:
  "user_driven_watermarking fa ip d render s = Inr ((fb, r), s') \<Longrightarrow>
     fs_frame fa fb (\<lambda>q. q = path_join d ''watermarked_image.png'')"
proof -
  assume "user_driven_watermarking fa ip d render s = Inr ((fb, r), s')"
  then obtain st where "watermark_try fa ip d st render = (fb, r)"
    by (auto simp: user_driven_watermarking_def io_bind_def split: sum.splits)
  then show ?thesis using watermark_try_frame [of fa ip d st render] by simp
qed

lemma step_embed_frame:
  assumes "step_embed im d s = Inr (f, s')"
  shows "fs_frame (fs c) (fs (f c)) (\<lambda>q. q = path_join (destination c) ''embedded_image.png'')"
proof -
  have save: "fs_frame (fs c) (fs (case fs_save_png (fs c) p img of
        Inl e \<Rightarrow> c\<lparr>phase := Crashed (OS_Raised e)\<rparr>
      | Inr fs' \<Rightarrow> c\<lparr>phase := Deleting, fs := fs', events := ev\<rparr>)) (\<lambda>q. q = p)" for p img ev
    by (cases "fs_save_png (fs c) p img") (auto dest: fs_save_png_frame)
  show ?thesis
    using assms save
    by (auto simp: step_embed_def io_step_simps Let_def
        split: list.splits sum.splits if_splits embed_outcome.splits)
qed

lemma step_action_frame:
  assumes "step_action render im d c0 s = Inr (f, s')" and "fs c' = fs c0"
    and "destination c' = destination c0"
  shows "fs_frame (fs c') (fs (f c')) (output_paths c0)"
proof -
  have emb: "fs_frame (fs c') (fs (f c')) (output_paths c0)" if "step_embed im d s1 = Inr (f, s')" for s1
    using step_embed_frame [OF that, of c'] assms(3)
    by (auto simp: output_paths_def elim: fs_frame_mono)
  have wm: "fs_frame (fs c') (fs (f c')) (output_paths c0)" if "step_watermark render c0 s1 = Inr (f, s')" for s1
    using that assms(2) user_driven_watermarking_frame
    by (fastforce simp: step_watermark_def io_bind_def output_paths_def
        split: sum.splits prod.splits elim: fs_frame_mono)
  have cs: "fs (f c') = fs c'" if "step_caesar s1 = Inr (f, s')" for s1
    using that by (auto simp: step_caesar_def io_step_simps split: list.splits sum.splits if_splits caesar_run.splits)
  show ?thesis
    using assms(1) emb wm cs
    by (auto simp: step_action_def step_retrieve_def io_bind_def io_input_def io_return_def
        split: list.splits sum.splits if_splits)
qed

lemma step_delete_frame:
  "step_delete s = Inr (f, s') \<Longrightarrow> fs_frame (fs c) (fs (f c)) (\<lambda>q. q = original c)"
  using fs_remove_frame [of "fs c" "original c"]
  by (auto simp: step_delete_def io_step_simps split: list.splits sum.splits if_splits)

lemma same_paths_refl [simp]: "same_paths c c"
  by (simp add: same_paths_def)

lemma run_phase_paths:
  assumes "\<And>f s' c'. m (stdin c) = Inr (f, s') \<Longrightarrow> same_paths c' (f c')"
  shows "same_paths c (run_phase c m)"
  by (rule run_phase_cases) (use assms in \<open>auto simp: same_paths_def\<close>)

lemma step_paths:
  "step_delimiter rnd im s = Inr (f, s') \<Longrightarrow> same_paths c (f c)"
  "step_embed im d s = Inr (f, s') \<Longrightarrow> same_paths c (f c)"
  "step_caesar s = Inr (f, s') \<Longrightarrow> same_paths c (f c)"
  "step_watermark render c0 s = Inr (f, s') \<Longrightarrow> same_paths c (f c)"
  "step_delete s = Inr (f, s') \<Longrightarrow> same_paths c (f c)"
  by (auto simp: same_paths_def step_delimiter_def step_embed_def step_caesar_def step_watermark_def
      step_delete_def io_step_simps Let_def
      split: list.splits sum.splits if_splits embed_outcome.splits caesar_run.splits prod.splits)

lemma step_action_paths: "step_action render im d c0 s = Inr (f, s') \<Longrightarrow> same_paths c (f c)"
  using step_paths(2-4)
  by (auto simp: step_action_def step_retrieve_def same_paths_def io_bind_def io_input_def io_return_def
      split: list.splits sum.splits if_splits)

lemma stegem_step_paths:
  "phase c \<notin> {Start, Validated} \<Longrightarrow> same_paths c (stegem_step rnd render c)"
proof -
  have "same_paths c (step_load c)" by (simp add: step_load_def same_paths_def split: sum.splits)
  then show "phase c \<notin> {Start, Validated} \<Longrightarrow> same_paths c (stegem_step rnd render c)"
    using step_paths step_action_paths
    by (cases "phase c") (auto simp: stegem_step_def intro!: run_phase_paths)
qed

lemma run_phase_late:
  "(\<And>f s' c'. m (stdin c) = Inr (f, s') \<Longrightarrow> late_phase (phase (f c'))) \<Longrightarrow>
     late_phase (phase (run_phase c m))"
  by (rule run_phase_cases) (auto simp: late_phase_def)

lemma late_step:
  assumes "phase c = Delimited im d \<or> phase c = Deleting"
  shows "late_phase (phase (stegem_step rnd render c))"
proof -
  have act: "late_phase (phase (f c'))" if "step_action render im d c s = Inr (f, s')" for s f s' c'
    using step_action_phase [OF that, of c'] by (auto simp: late_phase_def)
  have del: "late_phase (phase (f c'))" if "step_delete s = Inr (f, s')" for s f s' c'
    using step_delete_phase [OF that, of c'] by (simp add: late_phase_def)
  have "late_phase (phase (run_phase c (step_action render im d c)))"
    by (rule run_phase_late, erule act)
  moreover have "late_phase (phase (run_phase c step_delete))"
    by (rule run_phase_late, erule del)
  ultimately show ?thesis using assms by (auto simp: stegem_step_def)
qed

lemma frame_inv_early: "frame_inv fs0 c \<Longrightarrow> \<not> late_phase (phase c) \<Longrightarrow> fs_frame fs0 (fs c) (\<lambda>_. False)"
  by (auto simp: frame_inv_def elim: fs_frame_mono)

lemma frame_inv_early_step:
  assumes early: "phase c \<in> {Start, Validated, Ready} \<or> (\<exists>im. phase c = Loaded im)"
    and inv: "frame_inv fs0 c"
  shows "frame_inv fs0 (stegem_step rnd render c)"
proof -
  have "\<not> late_phase (phase c)" using early by (auto simp: late_phase_def)
  with inv have "fs_frame fs0 (fs c) (\<lambda>_. False)" by (rule frame_inv_early)
  from fs_frame_trans [OF this step_early_frame [OF early]]
  show ?thesis unfolding frame_inv_def by (rule fs_frame_mono) simp
qed

lemma frame_inv_step:
  assumes inv: "frame_inv fs0 c"
  shows "frame_inv fs0 (stegem_step rnd render c)"
proof (cases "phase c")
  case (Delimited im d)
  then have e: "fs_frame fs0 (fs c) (\<lambda>_. False)" using inv by (intro frame_inv_early) (simp_all add: late_phase_def)
  have "fs_frame (fs c) (fs (stegem_step rnd render c)) (output_paths c)"
    using Delimited step_action_frame by (auto simp: stegem_step_def intro!: run_phase_frame)
  moreover have "same_paths c (stegem_step rnd render c)" using Delimited by (simp add: stegem_step_paths)
  ultimately show ?thesis
    using e fs_frame_trans late_step [of c im d rnd render] Delimited
    by (fastforce simp: frame_inv_def same_paths_def output_paths_def elim: fs_frame_mono)
next
  case Deleting
  have "fs_frame (fs c) (fs (run_phase c step_delete)) (\<lambda>q. q = original c)"
    by (rule run_phase_frame) (metis step_delete_frame)
  then have "fs_frame (fs c) (fs (stegem_step rnd render c)) (\<lambda>q. q = original c)"
    using Deleting by (simp add: stegem_step_def)
  moreover have "same_paths c (stegem_step rnd render c)" using Deleting by (simp add: stegem_step_paths)
  ultimately show ?thesis
    using inv fs_frame_trans late_step [of c _ _ rnd render] Deleting
    by (fastforce simp: frame_inv_def same_paths_def output_paths_def elim: fs_frame_mono)
qed (use inv frame_inv_early_step final_step in \<open>simp_all add: is_final_def\<close>)

lemma stegem_run_unfold:
  "stegem_run rnd render s fs0 =
     stegem_step rnd render (stegem_step rnd render (stegem_step rnd render (stegem_step rnd render
       (stegem_step rnd render (stegem_step rnd render (init_config s fs0))))))"
  by (simp add: stegem_run_def numeral_eq_Suc)

lemmas run_simps = stegem_run_unfold stegem_step_def run_phase_def step_start_def step_destination_def
  step_load_def step_delimiter_def step_action_def step_delete_def create_directory_def io_step_simps
  fs_open_def init_config_def

lemma reachable_funpow: "reachable rnd render s fs0 ((stegem_step rnd render ^^ n) (init_config s fs0))"
  by (induction n) (auto intro: reachable.intros)

lemma frame_inv_init: "frame_inv fs0 (init_config s fs0)"
  by (simp add: frame_inv_def init_config_def)

lemma caesar_script_raised: "py_int t = Inl e \<Longrightarrow> caesar_script m t = Caesar_Raised e"
  by (simp add: caesar_script_def)

text \<open>Two whole runs with the default destination and delimiter: embedding a message, and retrieving one.\<close>

lemma answers_N: "answer_is ''N'' CHR ''N''" "\<not> answer_is ''N'' CHR ''Y''"
  by (simp_all add: answer_is_eval)

lemma embed_run:
  assumes "fs_files fs0 p = Some f" and "''Modified_Images_StegEM'' \<notin> dom (fs_files fs0)"
    and "''Modified_Images_StegEM/embedded_image.png'' \<notin> fs_dirs fs0"
    and "length (map of_char msg) \<le> calculate_max_message_size (size (file_image f))"
    and "embed_message (file_image f) default_delimiter (map of_char msg) [] = Saved img"
  shows "stegem_run rnd render [p, ''N'', ''N'', ''E'', msg, ''N''] fs0 =
    \<lparr>phase = Finished, stdin = [],
     fs = \<lparr>fs_dirs = insert ''Modified_Images_StegEM'' (fs_dirs fs0),
           fs_files = (fs_files fs0)(''Modified_Images_StegEM/embedded_image.png'' \<mapsto>
             \<lparr>file_image = rgb_to_image img, file_format = ''PNG''\<rparr>)\<rparr>,
     original = p, destination = ''Modified_Images_StegEM'',
     events = [Embedded ''Modified_Images_StegEM/embedded_image.png'']\<rparr>"
proof -
  have "answer_is ''E'' CHR ''E''" by (simp add: answer_is_eval)
  then show ?thesis
    using assms answers_N
    by (simp add: run_simps fs_makedirs_def path_ancestors_single get_delimiter_def step_embed_def
        Let_def fs_save_png_def dir_exists_def path_join_def path_dirname_def not_less)
qed

lemma retrieve_run:
  assumes "fs_files fs0 q = Some f" and "''Modified_Images_StegEM'' \<notin> dom (fs_files fs0)"
    and "retrieve_message (file_image f) default_delimiter = Inr r"
  shows "stegem_run rnd render [q, ''N'', ''N'', ''R'', ''N''] fs0 =
    \<lparr>phase = Finished, stdin = [],
     fs = \<lparr>fs_dirs = insert ''Modified_Images_StegEM'' (fs_dirs fs0), fs_files = fs_files fs0\<rparr>,
     original = q, destination = ''Modified_Images_StegEM'', events = [Retrieved r]\<rparr>"
proof -
  have "answer_is ''R'' CHR ''R''" "\<not> answer_is ''R'' CHR ''E''" by (simp_all add: answer_is_eval)
  then show ?thesis
    using assms answers_N
    by (simp add: run_simps fs_makedirs_def path_ancestors_single get_delimiter_def step_retrieve_def)
qed

subsection \<open>Well-formed images\<close>

lemma wf_files_frame: "fs_frame fa fb (\<lambda>_. False) \<Longrightarrow> wf_files fa \<Longrightarrow> wf_files fb"
  by (simp add: fs_frame_def wf_files_def)

lemma wf_files_save:
  "fs_save_png fa p img = Inr fb \<Longrightarrow> wf_image img \<Longrightarrow> wf_files fa \<Longrightarrow> wf_files fb"
  using fs_save_png_files [of fa p img fb] wf_rgb_to_image [of img] by (auto simp: wf_files_def)

lemma wf_files_remove: "fs_remove fa p = Inr fb \<Longrightarrow> wf_files fa \<Longrightarrow> wf_files fb"
  using fs_remove_files [of fa p fb] by (auto simp: wf_files_def)

lemma wf_files_mkdir: "fs_mkdir fa p = Inr fb \<Longrightarrow> wf_files fa \<Longrightarrow> wf_files fb"
  by (auto simp: fs_mkdir_def wf_files_def split: if_splits)

lemma embed_message_wf:
  "embed_message im d msg conf = Saved img \<Longrightarrow> wf_pil_image im \<Longrightarrow> wf_image img"
  using embed_image_shape [OF ensure_rgb_wf]
  by (auto simp: embed_message_def Let_def split: if_splits sum.splits)

lemma convert_rgba_wf: "wf_pil_image im \<Longrightarrow> wf_pil_image (convert_rgba im)"
  by (auto simp: wf_pil_image_def convert_rgba_def pixel_to_rgba_def mode_channels_def split: image_mode.splits)

lemma convert_rgb_wf: "wf_pil_image im \<Longrightarrow> wf_image (convert_rgb im)"
  by (auto simp: wf_pil_image_def wf_image_def convert_rgb_def)

lemma watermark_try_wf:
  assumes "wf_files fa" and "render_wf render"
  shows "wf_files (fst (watermark_try fa ip d st render))"
proof -
  have "wf_image (convert_rgb (render st (convert_rgba (file_image f))))" if "fs_files fa ip = Some f" for f
  proof -
    have "wf_pil_image (convert_rgba (file_image f))"
      using assms(1) that by (simp add: wf_files_def convert_rgba_wf)
    then show ?thesis using assms(2) by (simp add: render_wf_def convert_rgb_wf)
  qed
  moreover have "wf_files f1" if "(if \<not> path_exists fa d then fs_mkdir fa d else Inr fa) = Inr f1" for f1
    using that assms(1) wf_files_mkdir by (auto split: if_splits)
  ultimately show ?thesis
    using assms(1) wf_files_save
    by (fastforce simp: watermark_try_def fs_open_def Let_def split: sum.splits option.splits)
qed

lemma step_embed_wf:
  assumes "step_embed im d s = Inr (f, s')" and "wf_pil_image im" and "wf_files (fs c)"
  shows "wf_files (fs (f c))"
proof -
  have save: "wf_files (fs (case fs_save_png (fs c) p img of
        Inl e \<Rightarrow> c\<lparr>phase := Crashed (OS_Raised e)\<rparr>
      | Inr fs' \<Rightarrow> c\<lparr>phase := Deleting, fs := fs', events := ev\<rparr>))" if "wf_image img" for p img ev
    using that assms(3) wf_files_save by (cases "fs_save_png (fs c) p img") auto
  show ?thesis
    using assms save embed_message_wf
    by (auto simp: step_embed_def io_step_simps Let_def
        split: list.splits sum.splits if_splits embed_outcome.splits)
qed

lemma step_action_wf:
  assumes "step_action render im d c0 s = Inr (f, s')" and "wf_pil_image im" and "render_wf render"
    and "fs c = fs c0" and "wf_files (fs c)"
  shows "wf_files (fs (f c))"
proof -
  have wm: "wf_files (fs (f c))" if "step_watermark render c0 s1 = Inr (f, s')" for s1
  proof -
    from that obtain st r where "watermark_try (fs c0) (original c0) (destination c0) st render = (fs (f c), r)"
      by (fastforce simp: step_watermark_def user_driven_watermarking_def io_bind_def split: sum.splits prod.splits)
    then have "fs (f c) = fst (watermark_try (fs c0) (original c0) (destination c0) st render)" by simp
    then show ?thesis using watermark_try_wf assms(3-5) by simp
  qed
  have cs: "fs (f c) = fs c" if "step_caesar s1 = Inr (f, s')" for s1
    using that by (auto simp: step_caesar_def io_step_simps split: list.splits sum.splits if_splits caesar_run.splits)
  show ?thesis
    using assms(1,2,5) step_embed_wf wm cs
    by (auto simp: step_action_def step_retrieve_def io_bind_def io_input_def io_return_def
        split: list.splits sum.splits if_splits)
qed

lemma step_delete_wf: "step_delete s = Inr (f, s') \<Longrightarrow> wf_files (fs c) \<Longrightarrow> wf_files (fs (f c))"
  using wf_files_remove by (auto simp: step_delete_def io_step_simps split: list.splits sum.splits if_splits)

lemma run_phase_phase:
  "(\<And>f s' c'. m (stdin c) = Inr (f, s') \<Longrightarrow> P (phase (f c'))) \<Longrightarrow> (\<And>e. P (Crashed e)) \<Longrightarrow>
     P (phase (run_phase c m))"
  by (rule run_phase_cases) auto

lemma run_phase_wf_files:
  "(\<And>f s'. m (stdin c) = Inr (f, s') \<Longrightarrow> wf_files (fs (f (c\<lparr>stdin := s'\<rparr>)))) \<Longrightarrow> wf_files (fs c) \<Longrightarrow>
     wf_files (fs (run_phase c m))"
  by (rule run_phase_cases) auto

lemma wf_config_step:
  assumes wf: "wf_config c" and r: "render_wf render"
  shows "wf_config (stegem_step rnd render c)"
proof -
  have files: "wf_files (fs c)" and img: "phase_image_wf (phase c)" using wf by (simp_all add: wf_config_def)
  have early: "wf_files (fs (stegem_step rnd render c))"
    if "phase c \<in> {Start, Validated, Ready} \<or> (\<exists>im. phase c = Loaded im)"
    using wf_files_frame [OF step_early_frame [OF that] files] .
  show ?thesis
  proof (cases "phase c")
    case Start
    have "phase_image_wf (phase (run_phase c step_start))"
      apply (rule run_phase_phase)
      subgoal for f s' c' using step_start_phase [of "stdin c" f s' c'] by (auto simp: phase_image_wf_def)
      by (simp add: phase_image_wf_def)
    then show ?thesis using early Start by (simp add: wf_config_def stegem_step_def)
  next
    case Validated
    have "phase_image_wf (phase (run_phase c step_destination))"
      apply (rule run_phase_phase)
      subgoal for f s' c' using step_destination_phase [of "stdin c" f s' c'] by (auto simp: phase_image_wf_def)
      by (simp add: phase_image_wf_def)
    then show ?thesis using early Validated by (simp add: wf_config_def stegem_step_def)
  next
    case Ready
    have "phase_image_wf (phase (step_load c))"
      using files by (auto simp: step_load_def fs_open_def phase_image_wf_def wf_files_def split: option.splits)
    then show ?thesis using early Ready by (simp add: wf_config_def stegem_step_def)
  next
    case (Loaded im)
    have "phase_image_wf (phase (run_phase c (step_delimiter rnd im)))"
      apply (rule run_phase_phase)
      subgoal for f s' c' using step_delimiter_phase [of rnd im "stdin c" f s' c'] img Loaded
        by (auto simp: phase_image_wf_def)
      by (simp add: phase_image_wf_def)
    then show ?thesis using early Loaded by (simp add: wf_config_def stegem_step_def)
  next
    case (Delimited im d)
    have "wf_files (fs (run_phase c (step_action render im d c)))"
    proof (rule run_phase_wf_files [OF _ files])
      fix f s' assume "step_action render im d c (stdin c) = Inr (f, s')"
      from step_action_wf [OF this _ r, of "c\<lparr>stdin := s'\<rparr>"] img Delimited files
      show "wf_files (fs (f (c\<lparr>stdin := s'\<rparr>)))" by (simp add: phase_image_wf_def)
    qed
    moreover have "phase_image_wf (phase (run_phase c (step_action render im d c)))"
      apply (rule run_phase_phase)
      subgoal for f s' c' using step_action_phase [of render im d c "stdin c" f s' c']
        by (auto simp: phase_image_wf_def)
      by (simp add: phase_image_wf_def)
    ultimately show ?thesis using Delimited by (simp add: wf_config_def stegem_step_def)
  next
    case Deleting
    have "wf_files (fs (run_phase c step_delete))"
    proof (rule run_phase_wf_files [OF _ files])
      fix f s' assume "step_delete (stdin c) = Inr (f, s')"
      from step_delete_wf [OF this, of "c\<lparr>stdin := s'\<rparr>"] files
      show "wf_files (fs (f (c\<lparr>stdin := s'\<rparr>)))" by simp
    qed
    moreover have "phase_image_wf (phase (run_phase c step_delete))"
      apply (rule run_phase_phase)
      subgoal for f s' c' using step_delete_phase [of "stdin c" f s' c'] by (simp add: phase_image_wf_def)
      by (simp add: phase_image_wf_def)
    ultimately show ?thesis using Deleting by (simp add: wf_config_def stegem_step_def)
  qed (use wf in \<open>simp_all add: stegem_step_def\<close>)
qed

subsection \<open>Lines of input read\<close>

lemma reads_le_case_caesar:
  assumes "\<And>e. reads_le k1 (f1 e)" and "\<And>a b n. reads_le k2 (f2 a b n)"
  shows "reads_le (max k1 k2) (case x of Caesar_Raised e \<Rightarrow> f1 e | Caesar_Printed a b n \<Rightarrow> f2 a b n)"
proof (cases x)
  case (Caesar_Raised e)
  then show ?thesis using reads_le_mono [OF assms(1) [of e], of "max k1 k2"] by simp
next
  case (Caesar_Printed a b n)
  then show ?thesis using reads_le_mono [OF assms(2) [of a b n], of "max k1 k2"] by simp
qed

lemma watermark_prompts_reads: "reads_le 6 watermark_prompts"
  unfolding watermark_prompts_def Let_def
  by (rule reads_le_mono, (rule reads_le_intros)+, simp)

lemma step_reads:
  "reads_le 1 step_start" "reads_le 2 step_destination" "reads_le 2 (step_delimiter rnd im)"
  "reads_le 1 step_delete" "reads_le 2 (step_embed im d)" "reads_le 6 (step_watermark render c0)"
  "reads_le 5 step_caesar"
  unfolding step_start_def step_destination_def step_delimiter_def step_delete_def step_embed_def
    step_watermark_def user_driven_watermarking_def step_caesar_def Let_def
  by (rule reads_le_mono, (rule reads_le_intros watermark_prompts_reads reads_le_case_caesar)+, simp)+

lemma step_action_reads: "reads_le 7 (step_action render im d c0)"
  unfolding step_action_def
  by (rule reads_le_mono, (rule reads_le_intros step_reads(5-7))+, simp)

lemma run_phase_input_ok:
  assumes m: "reads_le r m" and f: "\<And>f s'. m (stdin c) = Inr (f, s') \<Longrightarrow> next_ok k f"
    and len: "r + k \<le> length (stdin c)"
  shows "input_ok (run_phase c m)"
proof (cases "m (stdin c)")
  case (Inl e)
  have "e \<noteq> EOF_Error"
  proof
    assume "e = EOF_Error"
    then have "length (stdin c) < r" using m Inl unfolding reads_le_def by blast
    then show False using len by simp
  qed
  then show ?thesis using Inl by (simp add: run_phase_def input_ok_def)
next
  case (Inr r')
  then obtain f s' where h: "m (stdin c) = Inr (f, s')" by (cases r') auto
  then obtain pre where "stdin c = pre @ s'" "length pre \<le> r" using m unfolding reads_le_def by blast
  then have k: "k \<le> length s'" using len by simp
  let ?c = "c\<lparr>stdin := s'\<rparr>"
  have "stdin (f ?c) = s'" and ph: "case phase (f ?c) of Crashed e \<Rightarrow> e \<noteq> EOF_Error | p \<Rightarrow> phase_reads p \<le> k"
    using f [OF h] unfolding next_ok_def by (simp, blast)
  then have "input_ok (f ?c)" using k unfolding input_ok_def by (cases "phase (f ?c)") auto
  then show ?thesis using h by (simp add: run_phase_def)
qed

lemma next_ok_steps:
  "step_start s = Inr (f, s') \<Longrightarrow> next_ok 12 f"
  "step_destination s = Inr (f, s') \<Longrightarrow> next_ok 10 f"
  "step_delimiter rnd im s = Inr (f, s') \<Longrightarrow> next_ok 8 f"
  "step_delete s = Inr (f, s') \<Longrightarrow> next_ok 0 f"
  "step_embed im d s = Inr (f, s') \<Longrightarrow> next_ok 1 f"
  "step_caesar s = Inr (f, s') \<Longrightarrow> next_ok 1 f"
  "step_watermark render c0 s = Inr (f, s') \<Longrightarrow> next_ok 1 f"
  by (auto simp: next_ok_def phase_reads_def step_start_def step_destination_def create_directory_def
      step_delimiter_def step_delete_def step_embed_def step_caesar_def step_watermark_def io_step_simps Let_def
      split: list.splits sum.splits if_splits prod.splits embed_outcome.splits caesar_run.splits)

lemma next_ok_action: "step_action render im d c0 s = Inr (f, s') \<Longrightarrow> next_ok 1 f"
proof -
  have "next_ok 1 (step_retrieve im d)" "next_ok 1 (\<lambda>c. c\<lparr>phase := Deleting\<rparr>)"
    by (auto simp: next_ok_def step_retrieve_def phase_reads_def split: sum.splits)
  then show "step_action render im d c0 s = Inr (f, s') \<Longrightarrow> next_ok 1 f"
    using next_ok_steps(5-7)
    by (auto simp: step_action_def io_bind_def io_input_def io_return_def split: list.splits sum.splits if_splits)
qed

lemma input_ok_step: "input_ok c \<Longrightarrow> input_ok (stegem_step rnd render c)"
proof (cases "phase c")
  case Ready
  moreover assume "input_ok c"
  ultimately show ?thesis
    by (auto simp: stegem_step_def step_load_def input_ok_def phase_reads_def split: sum.splits)
next
  case Start
  moreover assume "input_ok c"
  ultimately show ?thesis
    using run_phase_input_ok [OF step_reads(1) next_ok_steps(1)]
    by (simp add: stegem_step_def input_ok_def phase_reads_def)
next
  case Validated
  moreover assume "input_ok c"
  ultimately show ?thesis
    using run_phase_input_ok [OF step_reads(2) next_ok_steps(2)]
    by (simp add: stegem_step_def input_ok_def phase_reads_def)
next
  case (Loaded im)
  moreover assume "input_ok c"
  ultimately show ?thesis
    using run_phase_input_ok [OF step_reads(3) next_ok_steps(3)]
    by (simp add: stegem_step_def input_ok_def phase_reads_def)
next
  case (Delimited im d)
  moreover assume "input_ok c"
  ultimately show ?thesis
    using run_phase_input_ok [OF step_action_reads next_ok_action]
    by (simp add: stegem_step_def input_ok_def phase_reads_def)
next
  case Deleting
  moreover assume "input_ok c"
  ultimately show ?thesis
    using run_phase_input_ok [OF step_reads(4) next_ok_steps(4)]
    by (simp add: stegem_step_def input_ok_def phase_reads_def)
qed (simp_all add: stegem_step_def)

subsection \<open>What steps 1 to 3 establish\<close>

lemma script_inv_crash [simp]: "script_inv (c\<lparr>phase := Crashed e, stdin := []\<rparr>)"
  by (simp add: script_inv_def)

lemma script_inv_step:
  assumes inv: "script_inv c"
  shows "script_inv (stegem_step rnd render c)"
proof (cases "phase c")
  case Start
  have "script_inv (f (c\<lparr>stdin := s'\<rparr>))" if "step_start (stdin c) = Inr (f, s')" for f s'
    using that by (auto simp: step_start_def io_step_simps script_inv_def fs_open_def
        split: list.splits sum.splits option.splits if_splits)
  then have "script_inv (run_phase c step_start)" by (rule run_phase_cases) auto
  then show ?thesis using Start by (simp add: stegem_step_def)
next
  case Validated
  have cd: "script_inv (create_directory p c')" if "original c' \<in> dom (fs_files (fs c'))" for p c'
    using that fs_makedirs_dir [of "fs c'" p]
    by (auto simp: create_directory_def script_inv_def split: sum.splits)
  have o: "original c \<in> dom (fs_files (fs c))" using inv Validated by (simp add: script_inv_def)
  have ex: "script_inv (c'\<lparr>phase := Exited\<rparr>)" for c' by (simp add: script_inv_def)
  have "script_inv (f (c\<lparr>stdin := s'\<rparr>))" if "step_destination (stdin c) = Inr (f, s')" for f s'
    using that o by (auto simp: step_destination_def io_step_simps intro!: cd ex split: list.splits sum.splits if_splits)
  then have "script_inv (run_phase c step_destination)" by (rule run_phase_cases) auto
  then show ?thesis using Validated by (simp add: stegem_step_def)
next
  case Ready
  then show ?thesis using inv
    by (auto simp: stegem_step_def step_load_def fs_open_def script_inv_def split: option.splits)
next
  case (Loaded im)
  have "script_inv (f (c\<lparr>stdin := s'\<rparr>))" if "step_delimiter rnd im (stdin c) = Inr (f, s')" for f s'
    using that inv Loaded by (auto simp: step_delimiter_def io_step_simps script_inv_def
        split: list.splits sum.splits if_splits)
  then have "script_inv (run_phase c (step_delimiter rnd im))" by (rule run_phase_cases) auto
  then show ?thesis using Loaded by (simp add: stegem_step_def)
next
  case (Delimited im d)
  have "script_inv (f c')" if "step_action render im d c (stdin c) = Inr (f, s')" for f s' c'
    using step_action_phase [OF that, of c'] by (auto simp: script_inv_def)
  then have "script_inv (run_phase c (step_action render im d c))" by (rule run_phase_cases) auto
  then show ?thesis using Delimited by (simp add: stegem_step_def)
next
  case Deleting
  have "script_inv (f c')" if "step_delete (stdin c) = Inr (f, s')" for f s' c'
    using step_delete_phase [OF that, of c'] by (simp add: script_inv_def)
  then have "script_inv (run_phase c step_delete)" by (rule run_phase_cases) auto
  then show ?thesis using Deleting by (simp add: stegem_step_def)
qed (use inv in \<open>simp_all add: stegem_step_def\<close>)

lemma reachable_script_inv: "reachable rnd render s fs0 c \<Longrightarrow> script_inv c"
proof (induction rule: reachable.induct)
  case init
  show ?case by (simp add: init_config_def script_inv_def)
next
  case (step c)
  from step.IH show ?case by (rule script_inv_step)
qed

subsection \<open>Runs past step 3\<close>

lemma funpow_3: "(f ^^ 3) x = f (f (f x))"
  by (simp add: numeral_3_eq_3)

lemma stegem_run_halves:
  "stegem_run rnd render s fs0 = (stegem_step rnd render ^^ 3) ((stegem_step rnd render ^^ 3) (init_config s fs0))"
  using funpow_add [of 3 3 "stegem_step rnd render"] by (simp add: stegem_run_def)

lemma input_ok_funpow: "input_ok c \<Longrightarrow> input_ok ((stegem_step rnd render ^^ n) c)"
  by (induction n) (simp_all add: input_ok_step)

lemma step_keeps_late:
  assumes "3 \<le> phase_rank (phase c)" and "phase c \<noteq> Exited"
  shows "3 \<le> phase_rank (phase (stegem_step rnd render c)) \<and> phase (stegem_step rnd render c) \<noteq> Exited"
proof (cases "is_final (phase c)")
  case True
  then show ?thesis using assms final_step [OF True] by simp
next
  case False
  have r: "3 \<le> phase_rank (phase (stegem_step rnd render c))"
    using step_rank [OF False, of rnd render] assms(1) by simp
  have "phase (stegem_step rnd render c) \<noteq> Exited"
  proof (cases "phase c")
    case (Loaded im)
    show ?thesis unfolding stegem_step_def Loaded
      apply (simp, rule run_phase_phase [where P = "\<lambda>p. p \<noteq> Exited"])
      subgoal for f s' c' using step_delimiter_phase [of rnd im "stdin c" f s' c'] by auto
      by simp
  next
    case (Delimited im d)
    show ?thesis unfolding stegem_step_def Delimited
      apply (simp, rule run_phase_phase [where P = "\<lambda>p. p \<noteq> Exited"])
      subgoal for f s' c' using step_action_phase [of render im d c "stdin c" f s' c'] by auto
      by simp
  next
    case Deleting
    show ?thesis unfolding stegem_step_def Deleting
      apply (simp, rule run_phase_phase [where P = "\<lambda>p. p \<noteq> Exited"])
      subgoal for f s' c' using step_delete_phase [of "stdin c" f s' c'] by auto
      by simp
  qed (use assms False in \<open>simp_all add: phase_rank_def is_final_def\<close>)
  with r show ?thesis by simp
qed

lemma steps_keep_late:
  "3 \<le> phase_rank (phase c) \<Longrightarrow> phase c \<noteq> Exited \<Longrightarrow>
     phase ((stegem_step rnd render ^^ n) c) \<noteq> Exited"
proof (induction n)
  case (Suc n)
  have "3 \<le> phase_rank (phase ((stegem_step rnd render ^^ n) c))"
    using steps_rank [of c n rnd render] Suc.prems(1) by simp
  then show ?case using Suc step_keeps_late by simp
qed simp

lemma embed_delete_run:
  assumes "fs_files fs0 p = Some f" and "p = path_join d ''embedded_image.png''"
    and "py_strip d = d" and "last d \<noteq> CHR ''/''" and "d \<noteq> []"
    and "fs_makedirs fs0 d = Inr fs1" and "p \<notin> fs_dirs fs1"
    and "length (map of_char msg) \<le> calculate_max_message_size (size (file_image f))"
    and "embed_message (file_image f) default_delimiter (map of_char msg) [] = Saved img"
  shows "events (stegem_run rnd render [p, ''Y'', d, ''N'', ''E'', msg, ''Y''] fs0) = [Embedded p, Deleted p] \<and>
    fs_files (fs (stegem_run rnd render [p, ''Y'', d, ''N'', ''E'', msg, ''Y''] fs0)) p = None"
proof -
  have dn: "path_dirname p = d" using assms(2,4) by (simp add: path_dirname_join)
  have d1: "dir_exists fs1 d" and f1: "fs_files fs1 = fs_files fs0" using fs_makedirs_dir [OF assms(6)] by simp_all
  have "answer_is ''Y'' CHR ''Y''" "answer_is ''E'' CHR ''E''" by (simp_all add: answer_is_eval)
  moreover have "p \<noteq> []" using assms(2) by (simp add: path_join_def)
  ultimately show ?thesis
    using assms dn d1 f1 answers_N
    by (simp add: run_simps get_delimiter_def step_embed_def Let_def fs_save_png_def dir_exists_def
        fs_remove_def not_less)
qed

section \<open>Properties of the script\<close>

text \<open>
  The script always ends. From any configuration, six phases reach a
  final one (finished, exited or crashed), whatever the input, the file
  system, the random source and the watermark renderer.
\<close>

lemma stegem_terminates: "is_final (phase ((stegem_step rnd render ^^ 6) c))"
  using steps_rank [of c 6 rnd render] phase_rank_le [of "phase ((stegem_step rnd render ^^ 6) c)"]
  by (simp add: is_final_rank)

text \<open>
  C32: the file-system frame of a run. No directory is removed, and a file
  differs from the initial file system only after the action step, and only at
  the original image (deleted in step 6) or at
  \<open>embedded_image.png\<close> or \<open>watermarked_image.png\<close> in the chosen
  destination folder.
\<close>

theorem stegem_frame:
  assumes "reachable rnd render s fs0 c"
  shows "fs_dirs fs0 \<subseteq> fs_dirs (fs c) \<and>
    (\<forall>p. fs_files (fs c) p \<noteq> fs_files fs0 p \<longrightarrow>
       late_phase (phase c) \<and>
       (p = original c \<or> p = path_join (destination c) ''embedded_image.png'' \<or>
        p = path_join (destination c) ''watermarked_image.png''))"
proof -
  from assms have "frame_inv fs0 c"
    by induction (simp_all add: frame_inv_init frame_inv_step)
  then show ?thesis by (simp add: frame_inv_def fs_frame_def output_paths_def)
qed

theorem stegem_frame_witness:
  "reachable (\<lambda>_. 0) (\<lambda>_ im. im) [''a.png'', ''N'', ''N'', ''W'', ''c'', ''N'', ''128'', ''30'', ''N''] wm_fixture_fs
     (stegem_run (\<lambda>_. 0) (\<lambda>_ im. im) [''a.png'', ''N'', ''N'', ''W'', ''c'', ''N'', ''128'', ''30'', ''N''] wm_fixture_fs) \<and>
   fs_files (fs (stegem_run (\<lambda>_. 0) (\<lambda>_ im. im) [''a.png'', ''N'', ''N'', ''W'', ''c'', ''N'', ''128'', ''30'', ''N'']
     wm_fixture_fs)) ''Modified_Images_StegEM/watermarked_image.png'' \<noteq>
     fs_files wm_fixture_fs ''Modified_Images_StegEM/watermarked_image.png'' \<and>
   late_phase (phase (stegem_run (\<lambda>_. 0) (\<lambda>_ im. im)
     [''a.png'', ''N'', ''N'', ''W'', ''c'', ''N'', ''128'', ''30'', ''N''] wm_fixture_fs))"
proof -
  let ?s = "[''a.png'', ''N'', ''N'', ''W'', ''c'', ''N'', ''128'', ''30'', ''N'']"
  have r: "reachable (\<lambda>_. 0) (\<lambda>_ im. im) ?s wm_fixture_fs (stegem_run (\<lambda>_. 0) (\<lambda>_ im. im) ?s wm_fixture_fs)"
    using reachable_funpow by (simp add: stegem_run_def)
  have "fs_files (fs (stegem_run (\<lambda>_. 0) (\<lambda>_ im. im) ?s wm_fixture_fs)) ''Modified_Images_StegEM/watermarked_image.png'' \<noteq>
     fs_files wm_fixture_fs ''Modified_Images_StegEM/watermarked_image.png''"
    by (simp add: run_simps wm_fixture_fs_def answer_is_eval fs_makedirs_def path_ancestors_single
        step_watermark_def user_driven_watermarking_def watermark_prompt_simps watermark_try_def
        py_int_def py_int_digits_def decimal_value_def py_isdecimal_def sublist_code path_exists_def
        fs_save_png_def dir_exists_def path_join_def path_dirname_def)
  with stegem_frame [OF r] r show ?thesis by blast
qed

text \<open>
  C33: an answer other than E, R, W or C to the action prompt prints
  \<open>Invalid option selected. Exiting.\<close> but does not exit. With the default
  destination and delimiter and a Y to the last prompt, the run goes on to step
  6 and deletes the original image; the only other effect is the default
  destination folder.
\<close>

theorem invalid_option_deletes:
  assumes "fs_files fs0 p = Some f" and "''Modified_Images_StegEM'' \<notin> dom (fs_files fs0)"
    and "\<not> answer_is act CHR ''E''" and "\<not> answer_is act CHR ''R''"
    and "\<not> answer_is act CHR ''W''" and "\<not> answer_is act CHR ''C''"
  shows "stegem_run rnd render [p, ''N'', ''N'', act, ''Y''] fs0 =
    \<lparr>phase = Finished, stdin = [],
     fs = \<lparr>fs_dirs = insert ''Modified_Images_StegEM'' (fs_dirs fs0), fs_files = (fs_files fs0)(p := None)\<rparr>,
     original = p, destination = ''Modified_Images_StegEM'', events = [Deleted p]\<rparr>"
proof -
  have "answer_is ''N'' CHR ''N''" "\<not> answer_is ''N'' CHR ''Y''" "answer_is ''Y'' CHR ''Y''"
    by (simp_all add: answer_is_eval)
  then show ?thesis
    using assms
    by (simp add: run_simps fs_makedirs_def path_ancestors_single fs_remove_def domIff)
qed

theorem invalid_option_deletes_witness:
  "stegem_run (\<lambda>_. 0) (\<lambda>_ im. im) [''a.png'', ''N'', ''N'', ''X'', ''Y''] wm_fixture_fs =
    \<lparr>phase = Finished, stdin = [],
     fs = \<lparr>fs_dirs = {''Modified_Images_StegEM''}, fs_files = Map.empty\<rparr>,
     original = ''a.png'', destination = ''Modified_Images_StegEM'', events = [Deleted ''a.png'']\<rparr>"
proof -
  have "\<not> answer_is ''X'' CHR ''E''" "\<not> answer_is ''X'' CHR ''R''"
    "\<not> answer_is ''X'' CHR ''W''" "\<not> answer_is ''X'' CHR ''C''"
    by (simp_all add: answer_is_eval)
  moreover have "fs_files wm_fixture_fs ''a.png'' = Some \<lparr>file_image = pil_1x1, file_format = ''PNG''\<rparr>"
    "''Modified_Images_StegEM'' \<notin> dom (fs_files wm_fixture_fs)"
    by (simp_all add: wm_fixture_fs_def)
  ultimately show ?thesis
    using invalid_option_deletes [of wm_fixture_fs "''a.png''" _ "''X''" "\<lambda>_. 0" "\<lambda>_ im. im"]
    by (simp add: wm_fixture_fs_def)
qed

text \<open>
  C34: choosing C runs the prompts of \<open>CaesarCipher.py\<close> first, because
  \<open>from CaesarCipher import ...\<close> executes its module-level script. A
  shift answer that \<open>int()\<close> rejects there ends the program with that
  \<open>ValueError\<close> before the cipher menu is shown, and the files are untouched.
\<close>

theorem caesar_import_raises:
  assumes "phase c = Delimited im d" and "stdin c = a # m # t # rest"
    and "answer_is a CHR ''C''" and "py_int t = Inl e"
  shows "stegem_step rnd render c = c\<lparr>phase := Crashed (Raised e), stdin := []\<rparr>"
proof -
  have "\<not> answer_is a CHR ''E'' \<and> \<not> answer_is a CHR ''R'' \<and> \<not> answer_is a CHR ''W''"
    using assms(3) by (auto simp: answer_is_eval)
  then show ?thesis
    using assms caesar_script_raised [OF assms(4), of m]
    by (simp add: stegem_step_def run_phase_def step_action_def step_caesar_def io_step_simps)
qed

theorem caesar_import_raises_witness:
  "stegem_step (\<lambda>_. 0) (\<lambda>_ im. im)
     \<lparr>phase = Delimited pil_1x1 default_delimiter, stdin = [''C'', ''Hi'', ''three'', ''E''],
      fs = wm_fixture_fs, original = ''a.png'', destination = [], events = []\<rparr> =
   \<lparr>phase = Crashed (Raised ValueError), stdin = [],
      fs = wm_fixture_fs, original = ''a.png'', destination = [], events = []\<rparr>"
proof -
  have "answer_is ''C'' CHR ''C''" "py_int ''three'' = Inl ValueError"
    by (simp_all add: answer_is_eval py_int_def py_int_digits_def py_isdecimal_def)
  then show ?thesis
    using caesar_import_raises [of "\<lparr>phase = Delimited pil_1x1 default_delimiter,
      stdin = [''C'', ''Hi'', ''three'', ''E''], fs = wm_fixture_fs, original = ''a.png'',
      destination = [], events = []\<rparr>" pil_1x1 default_delimiter "''C''" "''Hi''" "''three''" "[''E'']"
      ValueError "\<lambda>_. 0" "\<lambda>_ im. im"]
    by simp
qed

text \<open>
  The image type is kept. If every image file of the initial file system
  is a well-formed PIL image and the renderer keeps images well-formed, then in
  every reachable configuration every stored file (the embedded and the
  watermarked image included) is well-formed, and so is the image the script
  holds from step 2 on.
\<close>

lemma stegem_wf:
  assumes "reachable rnd render s fs0 c" and "wf_files fs0" and "render_wf render"
  shows "wf_config c"
  using assms(1)
proof induction
  case init
  show ?case using assms(2) by (simp add: wf_config_def init_config_def phase_image_wf_def)
next
  case (step c)
  then show ?case using wf_config_step [OF _ assms(3)] by blast
qed

text \<open>
  C37: the script reads at most 13 lines of standard input. With 13 lines or
  more, no reachable configuration has crashed with \<open>EOFError\<close>; the W
  branch with a custom delimiter and a Y to the position question reads all 13.
\<close>

theorem stegem_reads_13:
  assumes "reachable rnd render s fs0 c" and "13 \<le> length s"
  shows "phase c \<noteq> Crashed EOF_Error"
proof -
  from assms(1) have "input_ok c"
  proof induction
    case init
    then show ?case using assms(2) by (simp add: input_ok_def init_config_def phase_reads_def)
  next
    case (step c)
    from step.IH show ?case by (rule input_ok_step)
  qed
  then show ?thesis by (auto simp: input_ok_def)
qed

theorem stegem_reads_13_witness:
  "phase (stegem_run (\<lambda>_. 0) (\<lambda>_ im. im)
     [''a.png'', ''N'', ''N'', ''W'', ''c'', ''Y'', ''1'', ''2'', ''128'', ''30'', ''N'', ''E'', ''N''] wm_fixture_fs) \<noteq>
     Crashed EOF_Error \<and>
   phase (stegem_run (\<lambda>_. 0) (\<lambda>_ im. im)
     [''a.png'', ''Y'', ''out'', ''Y'', ''0101010101010101'', ''W'', ''c'', ''Y'', ''1'', ''2'', ''128'', ''30''] wm_fixture_fs) =
     Crashed EOF_Error"
proof -
  let ?s = "[''a.png'', ''N'', ''N'', ''W'', ''c'', ''Y'', ''1'', ''2'', ''128'', ''30'', ''N'', ''E'', ''N'']"
  have r: "reachable (\<lambda>_. 0) (\<lambda>_ im. im) ?s wm_fixture_fs (stegem_run (\<lambda>_. 0) (\<lambda>_ im. im) ?s wm_fixture_fs)"
    using reachable_funpow by (simp add: stegem_run_def)
  have "phase (stegem_run (\<lambda>_. 0) (\<lambda>_ im. im)
     [''a.png'', ''Y'', ''out'', ''Y'', ''0101010101010101'', ''W'', ''c'', ''Y'', ''1'', ''2'', ''128'', ''30''] wm_fixture_fs) =
     Crashed EOF_Error"
    by (simp add: run_simps wm_fixture_fs_def answer_is_eval fs_makedirs_def path_ancestors_single
        step_watermark_def user_driven_watermarking_def watermark_prompt_simps
        py_int_def py_int_digits_def decimal_value_def py_isdecimal_def sublist_code get_delimiter_def
        watermark_try_def fs_open_def path_exists_def fs_mkdir_def fs_save_png_def dir_exists_def
        path_join_def path_dirname_def is_bit_char_def)
  with stegem_reads_13 [OF r] show ?thesis by simp
qed

text \<open>
  C38: every run whose image exists and whose default destination folder can be
  created gets to step 6. Given the answer N for the destination and at least
  ten more lines of input, the run ends having answered the deletion prompt
  (\<open>Finished\<close>), unless the chosen action raised \<open>ValueError\<close> or an
  \<open>OSError\<close>. It never exits early and never runs out of input.
\<close>

theorem run_reaches_delete_prompt:
  assumes "fs_files fs0 p = Some f" and "''Modified_Images_StegEM'' \<notin> dom (fs_files fs0)"
    and "10 \<le> length rest"
  shows "phase (stegem_run rnd render (p # ''N'' # rest) fs0) = Finished \<or>
    (\<exists>e. phase (stegem_run rnd render (p # ''N'' # rest) fs0) = Crashed (Raised e)) \<or>
    (\<exists>e. phase (stegem_run rnd render (p # ''N'' # rest) fs0) = Crashed (OS_Raised e))"
proof -
  let ?c3 = "\<lparr>phase = Loaded (file_image f), stdin = rest,
     fs = \<lparr>fs_dirs = insert ''Modified_Images_StegEM'' (fs_dirs fs0), fs_files = fs_files fs0\<rparr>,
     original = p, destination = ''Modified_Images_StegEM'', events = []\<rparr>"
  have c3: "(stegem_step rnd render ^^ 3) (init_config (p # ''N'' # rest) fs0) = ?c3"
    using assms(1,2) answers_N
    by (simp add: funpow_3 run_simps fs_makedirs_def path_ancestors_single domIff)
  let ?c6 = "stegem_run rnd render (p # ''N'' # rest) fs0"
  have c6: "?c6 = (stegem_step rnd render ^^ 3) ?c3" by (simp add: stegem_run_halves c3)
  have "input_ok ?c3" using assms(3) by (simp add: input_ok_def phase_reads_def)
  then have ok: "input_ok ?c6" unfolding c6 by (rule input_ok_funpow)
  have "min 6 (phase_rank (phase ?c3) + 3) \<le> phase_rank (phase ?c6)"
    unfolding c6 by (rule steps_rank)
  then have fin: "is_final (phase ?c6)"
    using phase_rank_le [of "phase ?c6"] by (simp add: is_final_rank phase_rank_def)
  have "phase ?c6 \<noteq> Exited" unfolding c6 by (rule steps_keep_late) (simp_all add: phase_rank_def)
  then show ?thesis using fin ok
    by (cases "phase ?c6") (auto simp: is_final_def input_ok_def, metis run_exc.exhaust)
qed

theorem run_reaches_delete_prompt_witness:
  "phase (stegem_run (\<lambda>_. 0) (\<lambda>_ im. im)
      (''a.png'' # ''N'' # [''N'', ''X'', ''Y'', [], [], [], [], [], [], []]) wm_fixture_fs) = Finished \<or>
   (\<exists>e. phase (stegem_run (\<lambda>_. 0) (\<lambda>_ im. im)
      (''a.png'' # ''N'' # [''N'', ''X'', ''Y'', [], [], [], [], [], [], []]) wm_fixture_fs) = Crashed (Raised e)) \<or>
   (\<exists>e. phase (stegem_run (\<lambda>_. 0) (\<lambda>_ im. im)
      (''a.png'' # ''N'' # [''N'', ''X'', ''Y'', [], [], [], [], [], [], []]) wm_fixture_fs) = Crashed (OS_Raised e))"
proof -
  have "fs_files wm_fixture_fs ''a.png'' = Some \<lparr>file_image = pil_1x1, file_format = ''PNG''\<rparr>"
    "''Modified_Images_StegEM'' \<notin> dom (fs_files wm_fixture_fs)"
    by (simp_all add: wm_fixture_fs_def)
  from run_reaches_delete_prompt [OF this] show ?thesis by simp
qed

text \<open>
  C39: the W action composed with steps 1 to 3. In every reachable
  configuration at step 4, answering W and valid watermark settings saves the
  watermarked form of the image loaded in step 2 as
  \<open>watermarked_image.png\<close> in the folder created in step 1, with no
  other file changed, and the run moves on to step 6.
\<close>

theorem watermark_branch_saves:
  assumes "reachable rnd render s fs0 c" and "phase c = Delimited im d"
    and "stdin c = ''W'' # answer_lines a @ rest" and "watermark_settings_of a = Inr st"
    and "destination c = [] \<or> last (destination c) \<noteq> CHR ''/''"
    and "\<not> dir_exists (fs c) (path_join (destination c) ''watermarked_image.png'')"
  shows "\<exists>fs'. stegem_step rnd render c =
      c\<lparr>phase := Deleting, stdin := rest, fs := fs',
        events := events c @ [Watermarked (WM_Saved (path_join (destination c) ''watermarked_image.png''))]\<rparr> \<and>
      fs_files fs' = (fs_files (fs c))(path_join (destination c) ''watermarked_image.png'' \<mapsto>
        \<lparr>file_image = rgb_to_image (convert_rgb (render st (convert_rgba im))), file_format = ''PNG''\<rparr>)"
proof -
  obtain f where fo: "fs_files (fs c) (original c) = Some f" and im: "file_image f = im"
    and dd: "dir_exists (fs c) (destination c)"
    using reachable_script_inv [OF assms(1)] assms(2) by (auto simp: script_inv_def)
  obtain fs' where wt: "watermark_try (fs c) (original c) (destination c) st render =
      (fs', WM_Saved (path_join (destination c) ''watermarked_image.png''))"
    and files: "fs_files fs' = (fs_files (fs c))(path_join (destination c) ''watermarked_image.png'' \<mapsto>
        \<lparr>file_image = rgb_to_image (convert_rgb (render st (convert_rgba (file_image f)))), file_format = ''PNG''\<rparr>)"
    using watermark_try_saved [OF fo assms(5) disjI1 [OF dd] assms(6), of st render] by blast
  have "\<not> answer_is ''W'' CHR ''E''" "\<not> answer_is ''W'' CHR ''R''" "answer_is ''W'' CHR ''W''"
    by (simp_all add: answer_is_eval)
  then have "stegem_step rnd render c =
      c\<lparr>phase := Deleting, stdin := rest, fs := fs',
        events := events c @ [Watermarked (WM_Saved (path_join (destination c) ''watermarked_image.png''))]\<rparr>"
    using assms(2-4) wt watermark_prompts_answers [of a rest]
    by (simp add: stegem_step_def run_phase_def step_action_def step_watermark_def
        user_driven_watermarking_def io_bind_def io_input_def io_return_def)
  then show ?thesis using files im by blast
qed

theorem watermark_branch_saves_witness:
  "\<exists>fs'. stegem_step (\<lambda>_. 0) (\<lambda>_ im. im)
      \<lparr>phase = Delimited pil_1x1 default_delimiter, stdin = [''W'', ''c'', ''N'', ''128'', ''30'', ''N''],
       fs = \<lparr>fs_dirs = {''Modified_Images_StegEM''}, fs_files = fs_files wm_fixture_fs\<rparr>,
       original = ''a.png'', destination = ''Modified_Images_StegEM'', events = []\<rparr> =
      \<lparr>phase = Deleting, stdin = [''N''], fs = fs', original = ''a.png'', destination = ''Modified_Images_StegEM'',
       events = [Watermarked (WM_Saved ''Modified_Images_StegEM/watermarked_image.png'')]\<rparr> \<and>
    fs_files fs' = (fs_files wm_fixture_fs)(''Modified_Images_StegEM/watermarked_image.png'' \<mapsto>
      \<lparr>file_image = rgb_to_image (convert_rgb (convert_rgba pil_1x1)), file_format = ''PNG''\<rparr>)"
proof -
  let ?S = "[''a.png'', ''N'', ''N'', ''W'', ''c'', ''N'', ''128'', ''30'', ''N'']"
  let ?c = "\<lparr>phase = Delimited pil_1x1 default_delimiter, stdin = [''W'', ''c'', ''N'', ''128'', ''30'', ''N''],
       fs = \<lparr>fs_dirs = {''Modified_Images_StegEM''}, fs_files = fs_files wm_fixture_fs\<rparr>,
       original = ''a.png'', destination = ''Modified_Images_StegEM'', events = []\<rparr>"
  let ?a = "\<lparr>text_answer = ''c'', position_answer = ''N'', x_answer = [], y_answer = [],
       opacity_answer = ''128'', font_size_answer = ''30''\<rparr>"
  let ?st = "\<lparr>wm_text = ''c'', wm_position = (10, 10), wm_opacity = 128, wm_font_size = 30\<rparr>"
  have "(stegem_step (\<lambda>_. 0) (\<lambda>_ im. im) ^^ 4) (init_config ?S wm_fixture_fs) = ?c"
    using answers_N
    by (simp add: numeral_eq_Suc run_simps wm_fixture_fs_def fs_makedirs_def path_ancestors_single
        get_delimiter_def)
  then have r: "reachable (\<lambda>_. 0) (\<lambda>_ im. im) ?S wm_fixture_fs ?c"
    using reachable_funpow [of "\<lambda>_. 0" "\<lambda>_ im. im" ?S wm_fixture_fs 4] by simp
  have lines: "stdin ?c = ''W'' # answer_lines ?a @ [''N'']"
    by (simp add: answer_lines_def answer_is_eval)
  have st: "watermark_settings_of ?a = Inr ?st"
    by (simp add: watermark_settings_of_def ask_position_def ask_opacity_def ask_font_size_def
        py_int_def py_int_digits_def decimal_value_def py_isdecimal_def answer_is_eval sublist_code
        opacity_default_def font_size_default_def)
  have nd: "\<not> dir_exists (fs ?c) (path_join (destination ?c) ''watermarked_image.png'')"
    by (simp add: dir_exists_def path_join_def)
  show ?thesis
    using watermark_branch_saves [OF r _ lines st _ nd] by (simp add: path_join_def)
qed

end
