(* ===== verification/Render.thy ===== *)
theory Render
  imports Watermark
begin

unbundle bit_operations_syntax

text \<open>
  The rendering step of \<open>user_driven_watermarking\<close> in
  \<open>src/Watermarking.py\<close> (lines 48--61): the transparent overlay
  \<open>Image.new("RGBA", image.size, (255, 255, 255, 0))\<close>, the font choice with
  its fallback, \<open>draw.text\<close> with the ink \<open>(255, 255, 255, opacity)\<close>, and
  \<open>Image.alpha_composite(image, txt_overlay)\<close>. The last two are Pillow's C
  routines, written out in their integer arithmetic: \<open>fill_mask_L\<close> of
  \<open>Paste.c\<close> (the \<open>BLEND\<close> macro through the glyph mask) and
  \<open>ImagingAlphaComposite\<close> of \<open>AlphaComposite.c\<close> (\<open>UINT32\<close> coefficients
  with \<open>PRECISION_BITS = 7\<close> and the \<open>SHIFTFORDIV255\<close> rounding). The
  rasterisation of the text by FreeType or the bitmap default font is the
  parameter \<open>glyphs\<close>: the coverage (0 to 255) of overlay pixel \<open>(x, y)\<close>
  by the text drawn at the position in the font.
\<close>

section \<open>Definitions\<close>

datatype font = Truetype_Arial int | Default_Font

text \<open>
  Lines 52--57: \<open>ImageFont.truetype("arial.ttf", font_size)\<close>, and
  \<open>ImageFont.load_default()\<close> when it raises \<open>IOError\<close> because the font file
  is not available.
\<close>

definition load_font :: "bool \<Rightarrow> int \<Rightarrow> font" where
  "load_font arial_available font_size =
     (if arial_available then Truetype_Arial font_size else Default_Font)"

type_synonym glyphs = "font \<Rightarrow> string \<Rightarrow> int \<times> int \<Rightarrow> nat \<Rightarrow> nat \<Rightarrow> byte"

text \<open>Line 48: a fully transparent white RGBA image of the size of the input.\<close>

definition new_overlay :: "nat \<times> nat \<Rightarrow> image" where
  "new_overlay sz =
     \<lparr>mode = Mode_RGBA, size = sz, data = replicate (snd sz) (replicate (fst sz) [255, 255, 255, 0])\<rparr>"

text \<open>
  Bytes widened to Pillow's \<open>UINT32\<close> and the store back into a \<open>UINT8\<close>
  (which keeps the low eight bits), and \<open>SHIFTFORDIV255(a)\<close>, that is
  \<open>((a >> 8) + a) >> 8\<close>, the rounding division by 255 of both routines.
\<close>

definition widen :: "byte \<Rightarrow> 32 word" where
  "widen b = of_nat (unat b)"

definition narrow :: "32 word \<Rightarrow> byte" where
  "narrow w = of_nat (unat w)"

definition shift_div255 :: "32 word \<Rightarrow> 32 word" where
  "shift_div255 a = drop_bit 8 (drop_bit 8 a + a)"

text \<open>
  \<open>BLEND(mask, in1, in2)\<close> of \<open>Paste.c\<close>:
  \<open>DIV255(in1 * (255 - mask) + in2 * mask)\<close> with \<open>DIV255(a) = SHIFTFORDIV255(a + 128)\<close>.
\<close>

definition paste_blend :: "byte \<Rightarrow> byte \<Rightarrow> byte \<Rightarrow> byte" where
  "paste_blend m in1 in2 =
     narrow (shift_div255 (widen in1 * (255 - widen m) + widen in2 * widen m + 128))"

text \<open>
  \<open>fill_mask_L\<close> on an RGBA image, one pixel: channel \<open>i\<close> is blended with the
  ink under the glyph coverage \<open>m\<close>; for the colour channels a nonzero coverage
  is first raised by the pixel's current alpha,
  \<open>255 - (255 - m) * (out[3] / 255)\<close> (the integer division first, so only an
  opaque pixel changes the coverage), the alpha channel being written last.
\<close>

definition channel_mask :: "byte \<Rightarrow> nat \<Rightarrow> byte \<Rightarrow> byte" where
  "channel_mask m i a =
     (if i \<noteq> 3 \<and> m \<noteq> 0 then of_nat (255 - (255 - unat m) * (unat a div 255)) else m)"

definition ink_pixel :: "byte \<Rightarrow> byte list \<Rightarrow> byte list \<Rightarrow> byte list" where
  "ink_pixel m ink out =
     map (\<lambda>i. paste_blend (channel_mask m i (out ! 3)) (out ! i) (ink ! i)) [0..<length out]"

text \<open>
  Line 60, \<open>draw.text(position, watermark_text, fill=ink, font=font)\<close>:
  \<open>draw_bitmap\<close> of the text's mask, every pixel blended with the ink under
  its coverage.
\<close>

definition draw_text :: "glyphs \<Rightarrow> image \<Rightarrow> int \<times> int \<Rightarrow> string \<Rightarrow> font \<Rightarrow> byte list \<Rightarrow> image" where
  "draw_text glyphs im xy text fnt ink =
     im\<lparr>data := map (\<lambda>(y, row). map (\<lambda>(x, p). ink_pixel (glyphs fnt text xy x y) ink p) (enumerate 0 row))
                  (enumerate 0 (data im))\<rparr>"

text \<open>
  \<open>ImagingAlphaComposite\<close>, per pixel: the coefficients of the source
  (overlay) alpha \<open>src_a\<close> over the destination alpha \<open>dst_a\<close> in \<open>UINT32\<close>.
\<close>

definition composite_coefs :: "byte \<Rightarrow> byte \<Rightarrow> 32 word \<times> 32 word \<times> 32 word" where
  "composite_coefs src_a dst_a =
     (let blend = widen dst_a * (255 - widen src_a);
          outa255 = widen src_a * 255 + blend;
          coef1 = widen src_a * 255 * 255 * push_bit 7 1 div outa255;
          coef2 = 255 * push_bit 7 1 - coef1
      in (outa255, coef1, coef2))"

text \<open>One colour channel: \<open>SHIFTFORDIV255(s * coef1 + d * coef2 + (0x80 << 7)) >> 7\<close>.\<close>

definition composite_channel :: "byte \<Rightarrow> byte \<Rightarrow> 32 word \<Rightarrow> 32 word \<Rightarrow> byte" where
  "composite_channel s d coef1 coef2 =
     narrow (drop_bit 7 (shift_div255 (widen s * coef1 + widen d * coef2 + push_bit 7 0x80)))"

text \<open>
  The pixel: a fully transparent source pixel leaves the destination as it
  is; otherwise the three channels and \<open>SHIFTFORDIV255(outa255 + 0x80)\<close>.
\<close>

definition composite_pixel :: "byte list \<Rightarrow> byte list \<Rightarrow> byte list" where
  "composite_pixel dst src =
     (if src ! 3 = 0 then dst
      else (case composite_coefs (src ! 3) (dst ! 3) of
        (outa255, coef1, coef2) \<Rightarrow>
          [composite_channel (src ! 0) (dst ! 0) coef1 coef2,
           composite_channel (src ! 1) (dst ! 1) coef1 coef2,
           composite_channel (src ! 2) (dst ! 2) coef1 coef2,
           narrow (shift_div255 (outa255 + 0x80))]))"

text \<open>
  The same pixel computed on unbounded naturals, with the divisions and
  subtractions of the C code: the reference that \<open>composite_pixel\<close> is proved
  to compute without a \<open>UINT32\<close> wrap and without a truncating \<open>UINT8\<close> store.
\<close>

definition composite_channel_nat :: "nat \<Rightarrow> nat \<Rightarrow> nat \<Rightarrow> nat \<Rightarrow> nat" where
  "composite_channel_nat s d sa da =
     (let outa = sa * 255 + da * (255 - sa);
          coef1 = sa * 255 * 255 * 128 div outa;
          coef2 = 255 * 128 - coef1;
          t = s * coef1 + d * coef2 + 16384
      in ((t div 256 + t) div 256) div 128)"

definition composite_alpha_nat :: "nat \<Rightarrow> nat \<Rightarrow> nat" where
  "composite_alpha_nat sa da = (let t = sa * 255 + da * (255 - sa) + 128 in (t div 256 + t) div 256)"

definition composite_pixel_nat :: "nat list \<Rightarrow> nat list \<Rightarrow> nat list" where
  "composite_pixel_nat dst src =
     (if src ! 3 = 0 then dst
      else map (\<lambda>i. composite_channel_nat (src ! i) (dst ! i) (src ! 3) (dst ! 3)) [0, 1, 2] @
        [composite_alpha_nat (src ! 3) (dst ! 3)])"

text \<open>
  Line 61, \<open>Image.alpha_composite(image, txt_overlay)\<close>: Pillow raises
  \<open>ValueError\<close> unless both images are RGBA of the same size.
\<close>

definition alpha_composite :: "image \<Rightarrow> image \<Rightarrow> py_error + image" where
  "alpha_composite dst src =
     (if mode dst \<noteq> Mode_RGBA \<or> mode src \<noteq> Mode_RGBA \<or> size dst \<noteq> size src then Inl ValueError
      else Inr (dst\<lparr>data := map2 (map2 composite_pixel) (data dst) (data src)\<rparr>))"

text \<open>
  Lines 48--61 as the \<open>render\<close> parameter of \<open>watermark_try\<close>, given whether
  \<open>arial.ttf\<close> is available and the rasteriser. The image it is applied to is
  the RGBA conversion of line 45, so the \<open>ValueError\<close> branch is never taken
  (\<open>pil_render_composite\<close> below); the other branch returns the image.
\<close>

definition pil_render :: "bool \<Rightarrow> glyphs \<Rightarrow> watermark_settings \<Rightarrow> image \<Rightarrow> image" where
  "pil_render arial glyphs st im =
     (let fnt = load_font arial (wm_font_size st);
          overlay = draw_text glyphs (new_overlay (size im)) (wm_position st) (wm_text st) fnt
                      [255, 255, 255, word_of_int (wm_opacity st)]
      in case alpha_composite im overlay of Inr r \<Rightarrow> r | Inl _ \<Rightarrow> im)"

section \<open>Lemmas\<close>

lemma unat_byte_le: "unat (b :: byte) \<le> 255"
proof -
  have "unat b < 2 ^ LENGTH(8)" by (rule unsigned_less)
  then show ?thesis by simp
qed

lemma unat_widen [simp]: "unat (widen b) = unat b"
proof -
  have "unat b < 2 ^ LENGTH(32)" using unat_byte_le [of b] by simp
  then show ?thesis unfolding widen_def by (simp only: unat_of_nat) (rule mod_less)
qed

lemma composite_coefs_nat:
  assumes "sa \<noteq> 0" and "composite_coefs sa da = (outa, c1, c2)"
  shows "unat outa = unat sa * 255 + unat da * (255 - unat sa) \<and>
    unat c1 = unat sa * 255 * 255 * 128 div (unat sa * 255 + unat da * (255 - unat sa)) \<and>
    unat c2 = 255 * 128 - unat c1 \<and> unat c1 \<le> 255 * 128"
proof -
  let ?a = "unat sa" and ?d = "unat da"
  have a: "?a \<le> 255" "0 < ?a" and d: "?d \<le> 255" using unat_byte_le assms(1) by (auto simp: unat_gt_0)
  have sub: "unat (255 - widen sa) = 255 - ?a"
    using a by (subst unat_sub) (simp_all add: word_le_nat_alt)
  have m1: "unat (widen da * (255 - widen sa)) = ?d * (255 - ?a)"
  proof -
    have "?d * (255 - ?a) \<le> 255 * 255" using d by (intro mult_le_mono) simp_all
    then show ?thesis using sub by (subst unat_mult_lem [THEN iffD1]) simp_all
  qed
  have m2: "unat (widen sa * 255) = ?a * 255"
    using a by (subst unat_mult_lem [THEN iffD1]) simp_all
  have o: "unat (widen sa * 255 + widen da * (255 - widen sa)) = ?a * 255 + ?d * (255 - ?a)"
  proof -
    have "?d * (255 - ?a) \<le> 255 * 255" using d by (intro mult_le_mono) simp_all
    then show ?thesis using m1 m2 a by (subst unat_add_lem [THEN iffD1]) simp_all
  qed
  have n: "unat (widen sa * 255 * 255 * push_bit 7 1) = ?a * 255 * 255 * 128"
  proof -
    have "unat (widen sa * 255 * 255) = ?a * 255 * 255"
      using a m2 by (subst unat_mult_lem [THEN iffD1]) simp_all
    then show ?thesis using a by (subst unat_mult_lem [THEN iffD1]) simp_all
  qed
  have pos: "0 < ?a * 255 + ?d * (255 - ?a)" using a by simp
  have le: "?a * 255 * 255 * 128 div (?a * 255 + ?d * (255 - ?a)) \<le> 255 * 128"
  proof -
    have "?a * 255 * 255 * 128 div (?a * 255 + ?d * (255 - ?a)) \<le> ?a * 255 * 255 * 128 div (?a * 255)"
      using a by (intro div_le_mono2) simp_all
    also have "\<dots> = 255 * 128" using a by simp
    finally show ?thesis .
  qed
  show ?thesis
    using assms(2) o n le pos
    by (auto simp: composite_coefs_def Let_def unat_div unat_sub word_le_nat_alt)
qed

lemma unat_narrow: "n \<le> 255 \<Longrightarrow> unat w = n \<Longrightarrow> unat (narrow w) = n"
  unfolding narrow_def by (simp only: unat_of_nat) simp

lemma unat_shift_div255: "unat w \<le> 8339584 \<Longrightarrow> unat (shift_div255 w) = (unat w div 256 + unat w) div 256"
proof -
  assume w: "unat w \<le> 8339584"
  have "unat (drop_bit 8 w) = unat w div 256" by (simp add: unat_drop_bit_eq drop_bit_eq_div unat_div)
  moreover have "unat w div 256 + unat w < 2 ^ LENGTH(32)" using w by simp
  ultimately have "unat (drop_bit 8 w + w) = unat w div 256 + unat w"
    by (subst unat_add_lem [THEN iffD1]) simp_all
  then show ?thesis by (simp add: shift_div255_def unat_drop_bit_eq drop_bit_eq_div unat_div)
qed

lemma div255_bound: "t \<le> 8339584 \<Longrightarrow> ((t div 256 + t) div 256) div 128 \<le> (255::nat)"
proof -
  assume "t \<le> 8339584"
  then have "((t div 256 + t) div 256) div 128 \<le> ((8339584 div 256 + 8339584) div 256) div (128::nat)"
    by (intro div_le_mono add_le_mono) simp_all
  then show ?thesis by simp
qed

lemma composite_channel_nat_eq:
  assumes c: "unat c1 \<le> 255 * 128" "unat c2 = 255 * 128 - unat c1"
    and that: "t = unat s * unat c1 + unat d * unat c2 + 16384"
  shows "unat (composite_channel s d c1 c2) = ((t div 256 + t) div 256) div 128 \<and>
    ((t div 256 + t) div 256) div 128 \<le> 255"
proof -
  have s: "unat s \<le> 255" and d: "unat d \<le> 255" by (rule unat_byte_le)+
  have p1: "unat s * unat c1 \<le> 255 * unat c1" and p2: "unat d * unat c2 \<le> 255 * unat c2"
    using s d by simp_all
  have sum: "255 * unat c1 + 255 * unat c2 = 255 * (255 * 128)" using c by simp
  have tb: "t \<le> 8339584" using that p1 p2 sum by linarith
  have b1: "255 * unat c1 \<le> 255 * (255 * 128)" and b2: "255 * unat c2 \<le> 255 * (255 * 128)"
    using c by simp_all
  have l1: "unat s * unat c1 < 4294967296" using p1 b1 by linarith
  have l2: "unat d * unat c2 < 4294967296" using p2 b2 by linarith
  have m1: "unat (widen s * c1) = unat s * unat c1" using l1 by (subst unat_mult_lem [THEN iffD1]) simp_all
  have m2: "unat (widen d * c2) = unat d * unat c2" using l2 by (subst unat_mult_lem [THEN iffD1]) simp_all
  have l3: "unat s * unat c1 + unat d * unat c2 < 4294967296" using p1 p2 sum by linarith
  have a1: "unat (widen s * c1 + widen d * c2) = unat s * unat c1 + unat d * unat c2"
    using m1 m2 l3 by (subst unat_add_lem [THEN iffD1]) simp_all
  have a2: "unat (widen s * c1 + widen d * c2 + push_bit 7 0x80) = t"
    using a1 that tb by (subst unat_add_lem [THEN iffD1]) (simp_all add: push_bit_eq_mult)
  have "unat (drop_bit 7 (shift_div255 (widen s * c1 + widen d * c2 + push_bit 7 0x80))) =
      ((t div 256 + t) div 256) div 128"
    using a2 tb by (simp add: unat_drop_bit_eq drop_bit_eq_div unat_div unat_shift_div255)
  with div255_bound [OF tb] show ?thesis
    unfolding composite_channel_def by (simp add: unat_narrow)
qed


lemma composite_alpha_eq:
  assumes "sa \<noteq> 0" and "composite_coefs sa da = (outa, c1, c2)"
  shows "unat (narrow (shift_div255 (outa + 0x80))) = composite_alpha_nat (unat sa) (unat da)"
proof -
  let ?t = "unat sa * 255 + unat da * (255 - unat sa) + 128"
  have o: "unat outa = unat sa * 255 + unat da * (255 - unat sa)"
    using composite_coefs_nat [OF assms] by simp
  have "unat da * (255 - unat sa) \<le> 255 * (255 - unat sa)" using unat_byte_le [of da] by simp
  then have tb: "?t \<le> 65153" using unat_byte_le [of sa] by (simp add: diff_mult_distrib2)
  have a: "unat (outa + 0x80) = ?t" using o tb by (subst unat_add_lem [THEN iffD1]) simp_all
  have "(?t div 256 + ?t) div 256 \<le> (65153 div 256 + 65153) div 256"
    using tb by (intro div_le_mono add_le_mono) simp_all
  then show ?thesis using a tb
    by (simp add: composite_alpha_nat_def unat_shift_div255 unat_narrow Let_def)
qed

lemma composite_channel_exact:
  assumes "sa \<noteq> 0" and "composite_coefs sa da = (outa, c1, c2)"
  shows "unat (composite_channel s d c1 c2) = composite_channel_nat (unat s) (unat d) (unat sa) (unat da)"
proof -
  have c: "unat c1 \<le> 255 * 128" "unat c2 = 255 * 128 - unat c1"
    and c1: "unat c1 = unat sa * 255 * 255 * 128 div (unat sa * 255 + unat da * (255 - unat sa))"
    using composite_coefs_nat [OF assms] by simp_all
  show ?thesis
    using composite_channel_nat_eq [OF c refl] c1 c(2)
    by (simp add: composite_channel_nat_def Let_def)
qed

lemma paste_blend_clear: "m = 0 \<or> a = 0 \<Longrightarrow> paste_blend m 0 a = 0"
  by (auto simp: paste_blend_def widen_def narrow_def shift_div255_def)

lemma length_ink_pixel [simp]: "length (ink_pixel m ink p) = length p"
  by (simp add: ink_pixel_def)

lemma draw_text_size [simp]:
  "mode (draw_text g im xy t f ink) = mode im" "size (draw_text g im xy t f ink) = size im"
  by (simp_all add: draw_text_def)

lemma draw_text_wf: "wf_pil_image im \<Longrightarrow> wf_pil_image (draw_text g im xy t f ink)"
  by (auto simp: draw_text_def wf_pil_image_def in_set_enumerate_eq) (metis nth_mem)

lemma draw_text_length [simp]:
  "length (data (draw_text g im xy t f ink)) = length (data im)"
  "y < length (data im) \<Longrightarrow> length (data (draw_text g im xy t f ink) ! y) = length (data im ! y)"
  by (simp_all add: draw_text_def nth_enumerate_eq)

lemma new_overlay_length [simp]:
  "length (data (new_overlay sz)) = snd sz" "y < snd sz \<Longrightarrow> length (data (new_overlay sz) ! y) = fst sz"
  by (simp_all add: new_overlay_def)

lemma nth_map2 [simp]:
  "i < length xs \<Longrightarrow> i < length ys \<Longrightarrow> map2 f xs ys ! i = f (xs ! i) (ys ! i)"
  by simp

lemma draw_text_nth:
  "y < length (data im) \<Longrightarrow> x < length (data im ! y) \<Longrightarrow>
   data (draw_text g im xy t f ink) ! y ! x = ink_pixel (g f t xy x y) ink (data im ! y ! x)"
  by (simp add: draw_text_def nth_enumerate_eq)

lemma new_overlay_wf: "wf_pil_image (new_overlay sz)"
  by (simp add: new_overlay_def wf_pil_image_def mode_channels_def)

lemma new_overlay_nth:
  "y < snd sz \<Longrightarrow> x < fst sz \<Longrightarrow> data (new_overlay sz) ! y ! x = [255, 255, 255, 0]"
  by (simp add: new_overlay_def)

lemma overlay_alpha_clear:
  "m = 0 \<or> a = 0 \<Longrightarrow> ink_pixel m [r, g, b, a] [255, 255, 255, 0] ! 3 = 0"
  by (simp add: ink_pixel_def channel_mask_def paste_blend_clear)

lemma wf_pil_image_nth:
  "wf_pil_image im \<longleftrightarrow> length (data im) = snd (size im) \<and>
     (\<forall>y < snd (size im). length (data im ! y) = fst (size im) \<and>
        (\<forall>x < fst (size im). length (data im ! y ! x) = mode_channels (mode im)))"
  unfolding wf_pil_image_def by (auto simp: all_set_conv_all_nth)

lemma length_composite_pixel [simp]:
  "length dst = 4 \<Longrightarrow> length (composite_pixel dst src) = 4"
  by (simp add: composite_pixel_def split: prod.split)

text \<open>The overlay pixel that \<open>pil_render\<close> composites at \<open>(x, y)\<close>.\<close>

lemma pil_render_composite:
  "mode im = Mode_RGBA \<Longrightarrow> pil_render arial g st im =
     im\<lparr>data := map2 (map2 composite_pixel) (data im)
        (data (draw_text g (new_overlay (size im)) (wm_position st) (wm_text st)
           (load_font arial (wm_font_size st)) [255, 255, 255, word_of_int (wm_opacity st)]))\<rparr>"
  by (simp add: pil_render_def alpha_composite_def new_overlay_def Let_def)

lemma pil_render_nth:
  assumes "wf_pil_image im" "mode im = Mode_RGBA" "y < snd (size im)" "x < fst (size im)"
  shows "data (pil_render arial g st im) ! y ! x =
    composite_pixel (data im ! y ! x)
      (ink_pixel (g (load_font arial (wm_font_size st)) (wm_text st) (wm_position st) x y)
         [255, 255, 255, word_of_int (wm_opacity st)] [255, 255, 255, 0])"
proof -
  show ?thesis using assms
    by (simp add: pil_render_composite wf_pil_image_nth draw_text_nth new_overlay_nth)
qed

lemma pil_render_wf: "wf_pil_image im \<Longrightarrow> wf_pil_image (pil_render arial g st im)"
proof (cases "mode im = Mode_RGBA")
  case True
  assume wf: "wf_pil_image im"
  show ?thesis using wf True
    by (simp add: pil_render_composite wf_pil_image_nth draw_text_nth mode_channels_def)
next
  case False
  then show "wf_pil_image im \<Longrightarrow> ?thesis" by (simp add: pil_render_def alpha_composite_def Let_def)
qed

text \<open>A pixel with no ink on the overlay comes out of the composite unchanged.\<close>

lemma pil_render_clear_pixel:
  assumes "wf_pil_image im" and "mode im = Mode_RGBA" and "y < snd (size im)" and "x < fst (size im)"
    and "glyphs (load_font arial (wm_font_size st)) (wm_text st) (wm_position st) x y = 0 \<or> wm_opacity st = 0"
  shows "data (pil_render arial glyphs st im) ! y ! x = data im ! y ! x"
proof -
  have "ink_pixel (glyphs (load_font arial (wm_font_size st)) (wm_text st) (wm_position st) x y)
      [255, 255, 255, word_of_int (wm_opacity st)] [255, 255, 255, 0] ! 3 = 0"
    using assms(5) by (intro overlay_alpha_clear) auto
  then show ?thesis using pil_render_nth [OF assms(1-4)] by (simp add: composite_pixel_def)
qed

lemma ink_pixel_opaque: "ink_pixel 255 [255, 255, 255, 255] [255, 255, 255, 0] = [255, 255, 255, 255]"
  by (simp add: ink_pixel_def channel_mask_def paste_blend_def widen_def narrow_def shift_div255_def
      upt_rec)

lemma composite_pixel_opaque:
  "length dst = 4 \<Longrightarrow> composite_pixel dst [255, 255, 255, 255] = [255, 255, 255, 255]"
  by (simp add: composite_pixel_def composite_coefs_def composite_channel_def widen_def narrow_def
      shift_div255_def Let_def)

text \<open>
  C23: drawing the watermark and compositing it (lines 48--61) keeps a
  well-formed RGBA image well-formed and of its size, and leaves every pixel
  that the text does not cover, and every pixel when the opacity is 0, exactly
  as it was: the overlay stays fully transparent there and
  \<open>Image.alpha_composite\<close> copies the destination pixel.
\<close>

theorem pil_render_keeps_unmarked:
  assumes "wf_pil_image im" and "mode im = Mode_RGBA" and "y < snd (size im)" and "x < fst (size im)"
    and "glyphs (load_font arial (wm_font_size st)) (wm_text st) (wm_position st) x y = 0 \<or> wm_opacity st = 0"
  shows "wf_pil_image (pil_render arial glyphs st im) \<and> size (pil_render arial glyphs st im) = size im \<and>
    data (pil_render arial glyphs st im) ! y ! x = data im ! y ! x"
proof -
  have "data (pil_render arial glyphs st im) ! y ! x = data im ! y ! x"
    using assms by (rule pil_render_clear_pixel)
  moreover have "size (pil_render arial glyphs st im) = size im"
    using assms(2) by (simp add: pil_render_composite)
  ultimately show ?thesis using pil_render_wf [OF assms(1)] by simp
qed

theorem pil_render_keeps_unmarked_witness:
  "wf_pil_image \<lparr>mode = Mode_RGBA, size = (1, 1), data = [[[10, 20, 30, 255]]]\<rparr> \<and>
   data (pil_render True (\<lambda>_ _ _ _ _. 0) \<lparr>wm_text = ''w'', wm_position = (10, 10), wm_opacity = 128,
     wm_font_size = 30\<rparr> \<lparr>mode = Mode_RGBA, size = (1, 1), data = [[[10, 20, 30, 255]]]\<rparr>) ! 0 ! 0 =
     [10, 20, 30, 255]"
  using pil_render_keeps_unmarked [of "\<lparr>mode = Mode_RGBA, size = (1, 1), data = [[[10, 20, 30, 255]]]\<rparr>"
      0 0 "\<lambda>_ _ _ _ _. 0" True "\<lparr>wm_text = ''w'', wm_position = (10, 10), wm_opacity = 128, wm_font_size = 30\<rparr>"]
  by (simp add: wf_pil_image_def mode_channels_def)

text \<open>
  C10: Pillow's alpha composite of the overlay onto the image neither wraps
  its \<open>UINT32\<close> intermediates nor truncates at the \<open>UINT8\<close> store: on every
  pair of RGBA pixels it computes exactly the C formulas read over unbounded
  naturals (each of whose channels is therefore at most 255).
\<close>

theorem composite_pixel_no_overflow:
  assumes "length dst = 4" and "length src = 4"
  shows "map unat (composite_pixel dst src) = composite_pixel_nat (map unat dst) (map unat src)"
proof (cases "src ! 3 = 0")
  case True
  then show ?thesis using assms by (simp add: composite_pixel_def composite_pixel_nat_def)
next
  case False
  obtain outa c1 c2 where co: "composite_coefs (src ! 3) (dst ! 3) = (outa, c1, c2)"
    by (cases "composite_coefs (src ! 3) (dst ! 3)") auto
  have "unat (src ! 3) \<noteq> 0" using False by (simp add: unat_eq_zero)
  then show ?thesis using False assms co composite_channel_exact [OF False co] composite_alpha_eq [OF False co]
    by (simp add: composite_pixel_def composite_pixel_nat_def)
qed

theorem composite_pixel_no_overflow_witness:
  "map unat (composite_pixel [10, 20, 30, 255] [255, 128, 64, 200]) =
   composite_pixel_nat [10, 20, 30, 255] [255, 128, 64, 200]"
  using composite_pixel_no_overflow [of "[10, 20, 30, 255]" "[255, 128, 64, 200]"] by simp

text \<open>
  C31: where the text covers a pixel fully and the opacity is 255, the
  watermarked pixel is opaque white \<open>(255, 255, 255, 255)\<close>, whatever the
  original pixel was: the ink's alpha and the composite's rounding reach 255
  exactly.
\<close>

theorem pil_render_opaque:
  assumes "wf_pil_image im" and "mode im = Mode_RGBA" and "y < snd (size im)" and "x < fst (size im)"
    and "glyphs (load_font arial (wm_font_size st)) (wm_text st) (wm_position st) x y = 255"
    and "wm_opacity st = 255"
  shows "data (pil_render arial glyphs st im) ! y ! x = [255, 255, 255, 255]"
proof -
  have "length (data im ! y ! x) = 4" using assms(1-4) by (simp add: wf_pil_image_nth mode_channels_def)
  then show ?thesis using pil_render_nth [OF assms(1-4)] assms(5,6)
    by (simp add: ink_pixel_opaque composite_pixel_opaque)
qed

theorem pil_render_opaque_witness:
  "wf_pil_image \<lparr>mode = Mode_RGBA, size = (1, 1), data = [[[10, 20, 30, 77]]]\<rparr> \<and>
   data (pil_render False (\<lambda>_ _ _ _ _. 255) \<lparr>wm_text = ''w'', wm_position = (0, 0), wm_opacity = 255,
     wm_font_size = 30\<rparr> \<lparr>mode = Mode_RGBA, size = (1, 1), data = [[[10, 20, 30, 77]]]\<rparr>) ! 0 ! 0 =
     [255, 255, 255, 255]"
  using pil_render_opaque [of "\<lparr>mode = Mode_RGBA, size = (1, 1), data = [[[10, 20, 30, 77]]]\<rparr>"
      0 0 "\<lambda>_ _ _ _ _. 255" False "\<lparr>wm_text = ''w'', wm_position = (0, 0), wm_opacity = 255, wm_font_size = 30\<rparr>"]
  by (simp add: wf_pil_image_def mode_channels_def)

end
