(* ===== verification/Spec2Isabelle.thy ===== *)
theory Spec2Isabelle
  imports Pipeline Delimiter Caesar Watermark TopLevel Render
begin

text \<open>
  \<^bold>\<open>StegEM: a verification development.\<close>

  StegEM is three Python files. \<open>src/Steganography.py\<close> hides a text
  message in the least significant bits of an image's colour channels and reads
  it back, and its module-level script drives everything: it asks for an image
  and a destination folder, loads the image, asks for a delimiter, dispatches on
  an action (E embed, R retrieve, W watermark, C Caesar cipher) and finally
  offers to delete the original. \<open>src/Watermarking.py\<close>
  (\<open>user_driven_watermarking\<close>) and \<open>src/CaesarCipher.py\<close> (the cipher
  and a module-level script of its own) are imported by the W and C branches.

  \<^bold>\<open>Theories.\<close>
  \<^item> \<open>Prelude\<close>: shared types (\<open>byte = 8 word\<close>, strings as
    \<open>char list\<close>, code points as \<open>nat\<close>), \<open>ValueError\<close>, and the
    Python built-ins the code calls (\<open>in\<close>, \<open>find\<close>, slicing,
    \<open>int(c)\<close>, \<open>strip\<close>, the \<open>strip().upper() == "Y"\<close> test).
  \<^item> \<open>Image\<close>: the PIL image (mode, size, channel lists),
    \<open>convert('RGB')\<close>, and the flat channel list both codec loops visit.
  \<^item> \<open>Capacity\<close> (\<open>calculate_max_message_size\<close>), \<open>Bitstring\<close>
    (\<open>format(ord(c), '08b')\<close> and the 8-bit decoding), \<open>Embed\<close>
    (\<open>embed_message\<close>), \<open>Extract\<close> (\<open>retrieve_message\<close>),
    \<open>Pipeline\<close> (the two joined), \<open>Delimiter\<close> (\<open>get_delimiter\<close>,
    \<open>generate_random_delimiter\<close> with the random source as a parameter).
  \<^item> \<open>PyInt\<close>: \<open>int(s)\<close> and \<open>str(n)\<close> on decimal strings;
    \<open>Caesar\<close>: \<open>caesar_cipher_encrypt\<close>/\<open>decrypt\<close> as their loop and the
    module script of \<open>CaesarCipher.py\<close> (\<open>caesar_script\<close>).
  \<^item> \<open>FileSystem\<close>: the file system as a record of directories and image
    files, with \<open>os.path.join\<close>, \<open>os.makedirs\<close>, \<open>os.mkdir\<close>,
    \<open>os.remove\<close>, \<open>Image.open\<close> and \<open>save\<close> and the errors they raise;
    \<open>Console\<close>: standard input as explicit state (\<open>'a io\<close>), \<open>input()\<close>
    raising \<open>EOFError\<close> at the end of the input.
  \<^item> \<open>Watermark\<close>: \<open>user_driven_watermarking\<close>, its prompts, defaults,
    the \<open>try\<close> block that opens, converts, renders and saves, with a
    reference function of the answers it is proved to refine; the renderer
    is a parameter \<open>render\<close> there.
  \<^item> \<open>Render\<close>: lines 48--61 of \<open>Watermarking.py\<close>, the renderer
    \<open>pil_render\<close>: the transparent overlay, the font with its fallback,
    \<open>draw.text\<close> as Pillow's \<open>fill_mask_L\<close> (the \<open>BLEND\<close> of the
    ink through the text's coverage mask) and \<open>Image.alpha_composite\<close> as
    Pillow's \<open>ImagingAlphaComposite\<close> in its \<open>UINT32\<close> arithmetic
    (\<open>32 word\<close>), with the \<open>ValueError\<close> of mismatched images.
  \<^item> \<open>TopLevel\<close>: the script of \<open>Steganography.py\<close> lines 170--244 with
    \<open>create_directory\<close>, \<open>validate_image_format\<close> and
    \<open>delete_original_image\<close>, as a step function \<open>stegem_step\<close> over
    phases (one per numbered step), its reachable configurations
    (\<open>reachable\<close>, an inductive step relation) and whole runs
    (\<open>stegem_run\<close>).

  \<^bold>\<open>How the code is modelled.\<close> Each Python function is a HOL function of
  the same name. The nested \<open>for y in range(height): for x in range(width)\<close>
  loops are recursive functions over the index lists (\<open>embed_rows\<close>,
  \<open>embed_cols\<close>, \<open>retrieve_rows\<close>, \<open>retrieve_cols\<close>) that read and write
  \<open>pixels ! y ! x\<close>; the state they thread is passed explicitly. Exceptions
  are values (\<open>py_error + _\<close>, \<open>run_exc\<close> for the script, which adds
  \<open>EOFError\<close> and the \<open>OSError\<close>s). Inside a library function the
  answers to \<open>input()\<close> are arguments; the script reads them from the list of
  input lines in its configuration, in the order the code asks. What the
  program prints as a result is recorded as an \<open>event\<close>. Saving as PNG and
  loading again is \<open>rgb_to_image\<close> (PNG is lossless). Two things the code
  takes from outside are parameters of the model: the random source of
  \<open>random.choices\<close> (\<open>rnd\<close>, one 53-bit draw per character) and the
  rasterisation of the watermark text (\<open>glyphs\<close>, the coverage of each
  pixel). The script and \<open>Watermark\<close> take the renderer as a parameter
  \<open>render\<close>; \<open>Render.pil_render\<close> is the program's renderer, and
  \<open>pil_render_render_wf\<close> below shows it meets the assumption the script's
  invariants make of \<open>render\<close>. All definitions are
  executable and every loop is a structural recursion; the script needs no fuel
  because its phases are strictly ranked (\<open>phase_rank\<close>), so six steps reach
  the end of any run (\<open>stegem_run\<close> takes exactly six).

  \<^bold>\<open>What is proved.\<close>
  \<^item> The codec: the index loops of both functions refine flat references
    over the raster-order channel list; the embedder changes only least
    significant bits and raises exactly when a character it reaches is no digit;
    the extractor's loops stop at the first occurrence of the delimiter in the
    bit stream (\<open>Extract.retrieve_image_first_occurrence\<close>); the round trip
    for messages below code point 256 (\<open>stego_roundtrip\<close>).
  \<^item> The delimiter provider's results, the Caesar cipher's round trip (and,
    for any message, exactly what it returns: the ASCII representative of
    each letter and digit, \<open>Caesar.caesar_latin1_lost\<close>), composition and
    period, \<open>int(str(n)) = n\<close>, the watermark settings'
    bounds and their refinement of the reference function, and when the
    watermark is saved.
  \<^item> The rendering (theory \<open>Render\<close>): the alpha composite computes its
    exact formulas without a \<open>UINT32\<close> wrap or a truncating byte store
    (\<open>Render.composite_pixel_no_overflow\<close>, from bounds on its coefficients
    and sums: at most \<open>255 * 128\<close> and \<open>8339584\<close>); the watermark keeps the
    image well-formed and of its size, and leaves unchanged every pixel the text
    does not cover and every pixel at opacity 0
    (\<open>Render.pil_render_keeps_unmarked\<close>); full coverage at opacity 255
    gives white (\<open>Render.pil_render_opaque\<close>); the \<open>ValueError\<close> of
    \<open>alpha_composite\<close> is unreachable from line 45's RGBA conversion
    (\<open>Render.pil_render_composite\<close>). Composed with the \<open>try\<close> block,
    the saved \<open>watermarked_image.png\<close> holds the original's RGB pixel
    wherever the text leaves no ink (\<open>watermark_file_keeps_unmarked\<close>).
  \<^item> The script: termination of every run, six ranked phases
    (\<open>TopLevel.stegem_terminates\<close>);
    the file-system frame of every reachable configuration by rule induction
    (\<open>TopLevel.stegem_frame\<close>); the image type invariant, that stored
    files and the loaded image stay well-formed PIL images when the renderer
    keeps them so (\<open>TopLevel.stegem_wf\<close>); the bound of 13 lines of
    input the script reads, so that 13 answers never meet \<open>EOFError\<close>
    (\<open>TopLevel.stegem_reads_13\<close>, from the bounds \<open>Console.reads_le\<close>
    of each step, composed through \<open>io_bind\<close>); the round trip across two
    runs through the saved file (\<open>two_run_roundtrip\<close>); liveness: with the
    image present and the default folder creatable, every run reaches the
    deletion prompt unless its action raises (\<open>TopLevel.run_reaches_delete_prompt\<close>,
    from the invariant \<open>TopLevel.script_inv\<close> of steps 1 to 3); the W action
    saves the watermark of the loaded image in the folder step 1 created
    (\<open>TopLevel.watermark_branch_saves\<close>).
  \<^item> Findings, each a theorem: the delimiter occurring inside the payload bits
    truncates the message; the default delimiter occurs in the bits of
    \<open>'<<<<<'\<close>; code points of 256 and more come back wrong; the capacity
    check ignores the delimiter; a random fallback delimiter raises or is never
    found; a trailing partial byte is decoded as a code point of its own
    (\<open>Bitstring.decode_message_partial_chunk\<close>); the Caesar cipher loses non-ASCII
    letters and digits; an invalid action prints ``Exiting'' but the run goes
    on to delete the original; choosing C first runs \<open>CaesarCipher.py\<close>'s
    own prompts, whose \<open>int()\<close> can end the program; when the original image is
    \<open>embedded_image.png\<close> in the destination folder, embedding overwrites it
    and step 6 deletes the result (\<open>embed_then_delete_loses_output\<close>); the
    watermark is saved without the original's alpha channel, so a transparent
    pixel is saved as the colour stored under it
    (\<open>watermark_file_keeps_unmarked\<close>).

  \<^bold>\<open>Not modelled.\<close> The text of the messages the program prints (only
  their results are events); the rasterisation of the watermark text by
  FreeType or the default bitmap font (the \<open>glyphs\<close> parameter: only the
  coverage it produces enters the model); exceptions Pillow might raise while
  drawing other than the mismatch \<open>ValueError\<close> (memory, a damaged font
  file), since \<open>pil_render\<close> is total and the \<open>try\<close> block's handler for
  them is not reached in the model; image formats other than a
  lossless PNG save and the format warning of \<open>validate_image_format\<close>; file
  permissions and paths with \<open>.\<close> or empty components; characters beyond
  Latin-1 in the Caesar cipher and the answers (the message itself is a list of
  code points). PIL is modelled only as far as the code uses it: three modes
  (RGB, RGBA, L), \<open>convert\<close>, pixel access, and the two C routines of
  the watermark.
\<close>


section \<open>The pipeline on whole messages\<close>

lemma embed_message_saved:
  assumes "wf_pil_image im" and "list_all is_bit_char d"
    and "length (message_bits msg @ d) \<le> 3 * fst (size im) * snd (size im)"
    and "message_bits msg @ d = q @ d @ t" and "d \<noteq> []" and "\<not> sublist d (q @ butlast d)"
  shows "\<exists>img'. embed_message im d msg conf = Saved img' \<and>
           retrieve_message (rgb_to_image img') d = Inr (Some (map bits_value (chunks8 q)))"
proof -
  have bits: "list_all is_bit_char (message_bits msg @ d)"
    using assms(2) message_bits_bits [of msg] by simp
  obtain img' where emb: "embed_image (ensure_rgb im) (message_bits msg @ d) = Inr img'"
    and ret: "retrieve_message (rgb_to_image img') d = map_sum id Some (decode_message q)"
    using embed_retrieve_core [OF assms(1) bits assms(3,4,5,6)] by blast
  have "list_all is_bit_char q"
    using bits assms(4) by simp
  then have "decode_message q = Inr (map bits_value (chunks8 q))"
    by (rule decode_message_bit_string)
  moreover have "8 * length msg \<le> 3 * fst (size im) * snd (size im)"
    using assms(3) length_message_bits_ge [of msg] by simp
  ultimately show ?thesis
    using emb ret by (simp add: embed_message_no_abort)
qed

lemma message_bits_wide:
  "\<exists>c \<in> set msg. 256 \<le> c \<Longrightarrow> 8 * length msg < length (message_bits msg)"
proof (induction msg)
  case Nil
  then show ?case by simp
next
  case (Cons c msg)
  have m: "message_bits (c # msg) = format_08b c @ message_bits msg"
    by (simp add: message_bits_def)
  show ?case
  proof (cases "256 \<le> c")
    case True
    then have "8 < length (format_08b c)" by (rule format_08b_long)
    moreover have "8 * length msg \<le> length (message_bits msg)" by (rule length_message_bits_ge)
    ultimately show ?thesis by (simp add: m)
  next
    case False
    with Cons.prems have "8 * length msg < length (message_bits msg)" by (intro Cons.IH) auto
    moreover have "8 \<le> length (format_08b c)" by (rule length_format_08b_ge)
    ultimately show ?thesis by (simp add: m)
  qed
qed

lemma message_bits_65: "message_bits [65] = ''01000001''"
  by (simp add: message_bits_def format_08b_def bin_digits.simps bit_char_def)

lemma message_bits_256: "message_bits [256] = ''100000000''"
  by (simp add: message_bits_def format_08b_def bin_digits.simps bit_char_def)

lemma message_bits_ABC: "message_bits [65, 66, 67] = ''010000010100001001000011''"
  by (simp add: message_bits_def format_08b_def bin_digits.simps bit_char_def)

text \<open>
  C1: embedding a message of code points below 256 with a binary delimiter that
  does not occur in the message bits followed by a proper prefix of itself, into
  an image with room for both, succeeds without asking for confirmation, and
  retrieving with the same delimiter from the saved image gives the message back.
\<close>

theorem stego_roundtrip:
  assumes "wf_pil_image im" and "\<forall>c \<in> set msg. c < 256"
    and "list_all is_bit_char d" and "d \<noteq> []"
    and "\<not> sublist d (message_bits msg @ butlast d)"
    and "8 * length msg + length d \<le> 3 * fst (size im) * snd (size im)"
  shows "\<exists>img'. embed_message im d msg conf = Saved img' \<and>
           retrieve_message (rgb_to_image img') d = Inr (Some msg)"
proof -
  have "length (message_bits msg @ d) \<le> 3 * fst (size im) * snd (size im)"
    using assms(2,6) by (simp add: length_message_bits)
  moreover have "message_bits msg @ d = message_bits msg @ d @ []" by simp
  ultimately obtain img' where "embed_message im d msg conf = Saved img'"
    and "retrieve_message (rgb_to_image img') d = Inr (Some (map bits_value (chunks8 (message_bits msg))))"
    using embed_message_saved [OF assms(1,3) _ _ assms(4,5), where conf = conf] by blast
  moreover have "map bits_value (chunks8 (message_bits msg)) = msg"
    using decode_message_bits [OF assms(2)] decode_message_bit_string [OF message_bits_bits]
    by simp
  ultimately show ?thesis by auto
qed

theorem stego_roundtrip_witness:
  "wf_pil_image pil_2x2 \<and> (65::nat) < 256 \<and> list_all is_bit_char ''110'' \<and>
   ''110'' \<noteq> [] \<and> \<not> sublist ''110'' (message_bits [65] @ butlast ''110'') \<and>
   8 * length [65::nat] + length ''110'' \<le> 3 * fst (size pil_2x2) * snd (size pil_2x2) \<and>
   (\<exists>img'. embed_message pil_2x2 ''110'' [65] [] = Saved img' \<and>
      retrieve_message (rgb_to_image img') ''110'' = Inr (Some [65]))"
proof -
  have h1: "wf_pil_image pil_2x2" by (rule wf_fixtures)
  have h: "\<forall>c \<in> set [65::nat]. c < 256" "list_all is_bit_char ''110''"
    "''110'' \<noteq> []" "\<not> sublist ''110'' (message_bits [65] @ butlast ''110'')"
    "8 * length [65::nat] + length ''110'' \<le> 3 * fst (size pil_2x2) * snd (size pil_2x2)"
    by (simp_all add: is_bit_char_def message_bits_65 sublist_code pil_2x2_def)
  have "(65::nat) < 256" by simp
  with h1 h show ?thesis using stego_roundtrip [OF h1 h, of "[]"] by (intro conjI) auto
qed

section \<open>Findings\<close>

text \<open>
  C11: when the first occurrence of the delimiter in \<open>binary_message\<close> starts
  inside the message bits, retrieval returns the decoding of the strictly
  shorter bit string before it. The spec's own scenario (a 2\<times>2 image,
  message \<open>'A'\<close>, delimiter \<open>0000\<close>) is such a case: \<open>'A'\<close> is
  \<open>01000001\<close>, the delimiter already occurs at its third bit, and the
  retrieved message is \<open>chr(1)\<close>.
\<close>

theorem delimiter_collision_truncates:
  assumes "wf_pil_image im" and "list_all is_bit_char d"
    and "length (message_bits msg @ d) \<le> 3 * fst (size im) * snd (size im)"
    and "message_bits msg @ d = q @ d @ t" and "t \<noteq> []" and "d \<noteq> []"
    and "\<not> sublist d (q @ butlast d)"
  shows "length q < length (message_bits msg) \<and>
         (\<exists>img'. embed_message im d msg conf = Saved img' \<and>
            retrieve_message (rgb_to_image img') d = Inr (Some (map bits_value (chunks8 q))))"
proof -
  have "length (message_bits msg @ d) = length (q @ d @ t)" using assms(4) by simp
  then have "length q < length (message_bits msg)" using assms(5) by simp
  then show ?thesis
    using embed_message_saved [OF assms(1,2,3,4,6,7)] by blast
qed

theorem delimiter_collision_truncates_witness:
  "wf_pil_image pil_2x2 \<and> list_all is_bit_char ''0000'' \<and>
   length (message_bits [65] @ ''0000'') \<le> 3 * fst (size pil_2x2) * snd (size pil_2x2) \<and>
   message_bits [65] @ ''0000'' = ''01'' @ ''0000'' @ ''010000'' \<and> ''010000'' \<noteq> [] \<and>
   ''0000'' \<noteq> [] \<and> \<not> sublist ''0000'' (''01'' @ butlast ''0000'') \<and>
   length ''01'' < length (message_bits [65]) \<and>
   (\<exists>img'. embed_message pil_2x2 ''0000'' [65] [] = Saved img' \<and>
      retrieve_message (rgb_to_image img') ''0000'' = Inr (Some (map bits_value (chunks8 ''01'')))) \<and>
   map bits_value (chunks8 ''01'') = [1]"
proof -
  have h1: "wf_pil_image pil_2x2" by (rule wf_fixtures)
  have h: "list_all is_bit_char ''0000''"
    "length (message_bits [65] @ ''0000'') \<le> 3 * fst (size pil_2x2) * snd (size pil_2x2)"
    "message_bits [65] @ ''0000'' = ''01'' @ ''0000'' @ ''010000''" "''010000'' \<noteq> []"
    "''0000'' \<noteq> []" "\<not> sublist ''0000'' (''01'' @ butlast ''0000'')"
    by (simp_all add: is_bit_char_def message_bits_65 sublist_code pil_2x2_def)
  have v: "map bits_value (chunks8 ''01'') = [1]"
    by (simp add: chunks8_def bits_value_def bit_val_def)
  show ?thesis using h1 h v delimiter_collision_truncates [OF h1 h, of "[]"] by blast
qed

text \<open>
  C12: a message with a code point of 256 or more (any character outside
  Latin-1) is serialised with more than 8 bits for that character; even when
  the delimiter is found where it was written, the retrieved message has more
  characters than the one embedded. \<open>chr(256)\<close> comes back as
  \<open>chr(128) + chr(0)\<close>.
\<close>

theorem wide_codepoint_garbled:
  assumes "wf_pil_image im" and "list_all is_bit_char d" and "d \<noteq> []"
    and "\<not> sublist d (message_bits msg @ butlast d)"
    and "length (message_bits msg @ d) \<le> 3 * fst (size im) * snd (size im)"
    and "\<exists>c \<in> set msg. 256 \<le> c"
  shows "\<exists>img' m. embed_message im d msg conf = Saved img' \<and>
           retrieve_message (rgb_to_image img') d = Inr (Some m) \<and> length msg < length m"
proof -
  obtain img' where emb: "embed_message im d msg conf = Saved img'"
    and ret: "retrieve_message (rgb_to_image img') d =
                Inr (Some (map bits_value (chunks8 (message_bits msg))))"
    using embed_message_saved [OF assms(1,2,5) _ assms(3,4), of "[]" conf] by auto
  have "8 * length msg < length (message_bits msg)"
    using assms(6) by (rule message_bits_wide)
  then have "length msg < (length (message_bits msg) + 7) div 8" by simp
  then have "length msg < length (map bits_value (chunks8 (message_bits msg)))"
    by (simp add: chunks8_def)
  with emb ret show ?thesis by blast
qed

theorem wide_codepoint_garbled_witness:
  "wf_pil_image pil_2x2 \<and> list_all is_bit_char ''110'' \<and> ''110'' \<noteq> [] \<and>
   \<not> sublist ''110'' (message_bits [256] @ butlast ''110'') \<and>
   length (message_bits [256] @ ''110'') \<le> 3 * fst (size pil_2x2) * snd (size pil_2x2) \<and>
   (\<exists>c \<in> set [256::nat]. 256 \<le> c) \<and>
   (\<exists>img' m. embed_message pil_2x2 ''110'' [256] [] = Saved img' \<and>
      retrieve_message (rgb_to_image img') ''110'' = Inr (Some m) \<and> length [256::nat] < length m)"
proof -
  have h1: "wf_pil_image pil_2x2" by (rule wf_fixtures)
  have h: "list_all is_bit_char ''110''" "''110'' \<noteq> []"
    "\<not> sublist ''110'' (message_bits [256] @ butlast ''110'')"
    "length (message_bits [256] @ ''110'') \<le> 3 * fst (size pil_2x2) * snd (size pil_2x2)"
    "\<exists>c \<in> set [256::nat]. 256 \<le> c"
    by (simp_all add: is_bit_char_def message_bits_256 sublist_code pil_2x2_def)
  show ?thesis using h1 h wide_codepoint_garbled [OF h1 h, of "[]"] by blast
qed

text \<open>
  C13: the capacity check of \<open>embed_message\<close> counts the message only. A
  message of exactly \<open>calculate_max_message_size\<close> characters, when the
  channels are a multiple of 8, is reported as acceptable and embedded, but the
  delimiter is cut off entirely: retrieval finds no message.
\<close>

theorem capacity_ignores_delimiter:
  assumes "wf_pil_image im" and "\<forall>c \<in> set msg. c < 256"
    and "3 * fst (size im) * snd (size im) = 8 * length msg"
    and "list_all is_bit_char d" and "d \<noteq> []" and "\<not> sublist d (message_bits msg)"
  shows "length msg = calculate_max_message_size (size im) \<and>
         (\<exists>img'. embed_message im d msg conf = Saved img' \<and>
            retrieve_message (rgb_to_image img') d = Inr None)"
proof -
  let ?img = "ensure_rgb im" and ?bm = "message_bits msg @ d"
  have wfi: "wf_image ?img" using assms(1) by (rule ensure_rgb_wf)
  have lenb: "length (message_bits msg) = 3 * width ?img * height ?img"
    using assms(2,3) by (simp add: length_message_bits)
  have bits: "list_all is_bit_char ?bm" using assms(4) message_bits_bits [of msg] by simp
  obtain img' where emb: "embed_image ?img ?bm = Inr img'"
    and flat: "flat_channels (pixels img') =
      write_lsbs (map bit_val (take (3 * width ?img * height ?img) ?bm)) (flat_channels (pixels ?img))"
    using embed_image_writes [OF wfi bits] by blast
  have wf': "wf_image img'" using embed_image_shape [OF wfi emb] by simp
  have stream: "lsb_stream (flat_channels (pixels img')) = message_bits msg"
    using lsb_stream_write_lsbs [OF message_bits_bits [of msg], where cs = "flat_channels (pixels ?img)"]
      flat lenb wf_image_channels [OF wfi] by simp
  have "retrieve_message (rgb_to_image img') d = extract_flat d (flat_channels (pixels img'))"
    using retrieve_message_flat [OF wf_rgb_to_image [OF wf']] by simp
  also have "\<dots> = Inr None"
    using scan_lsb_least [of d "[]" "message_bits msg"] assms(5,6)
    by (simp add: extract_flat_def stream py_contains_def)
  finally have ret: "retrieve_message (rgb_to_image img') d = Inr None" .
  have "embed_message im d msg conf = Saved img'"
    using emb assms(3) by (simp add: embed_message_no_abort)
  moreover have "length msg = calculate_max_message_size (size im)"
    using assms(3) by (cases "size im") (simp add: calculate_max_message_size_def)
  ultimately show ?thesis using ret by blast
qed

theorem capacity_ignores_delimiter_witness:
  "wf_pil_image pil_4x2 \<and> (65::nat) < 256 \<and> (66::nat) < 256 \<and> (67::nat) < 256 \<and>
   3 * fst (size pil_4x2) * snd (size pil_4x2) = 8 * length [65::nat, 66, 67] \<and>
   list_all is_bit_char ''1111'' \<and> ''1111'' \<noteq> [] \<and> \<not> sublist ''1111'' (message_bits [65, 66, 67]) \<and>
   length [65::nat, 66, 67] = calculate_max_message_size (size pil_4x2) \<and>
   (\<exists>img'. embed_message pil_4x2 ''1111'' [65, 66, 67] [] = Saved img' \<and>
      retrieve_message (rgb_to_image img') ''1111'' = Inr None)"
proof -
  have h1: "wf_pil_image pil_4x2" by (rule wf_fixtures)
  have h: "\<forall>c \<in> set [65::nat, 66, 67]. c < 256"
    "3 * fst (size pil_4x2) * snd (size pil_4x2) = 8 * length [65::nat, 66, 67]"
    "list_all is_bit_char ''1111''" "''1111'' \<noteq> []" "\<not> sublist ''1111'' (message_bits [65, 66, 67])"
    by (simp_all add: is_bit_char_def message_bits_ABC sublist_code pil_4x2_def)
  have "(65::nat) < 256" "(66::nat) < 256" "(67::nat) < 256" by simp_all
  with h1 h show ?thesis using capacity_ignores_delimiter [OF h1 h, of "[]"] by (intro conjI) auto
qed

text \<open>
  C14: a delimiter with any character other than \<open>'0'\<close> and \<open>'1'\<close> (as the
  random fallback delimiter of \<open>get_delimiter\<close> almost always has) can never
  occur in the string of \<open>str(v & 1)\<close> bits the extractor builds:
  \<open>retrieve_message\<close> always reports that no message was found.
\<close>

theorem retrieve_nonbinary_delimiter:
  assumes "wf_pil_image im" and "\<not> list_all is_bit_char d"
  shows "retrieve_message im d = Inr None"
  using assms by (rule retrieve_message_nonbinary)

theorem retrieve_nonbinary_delimiter_witness:
  "wf_pil_image pil_1x1 \<and> \<not> list_all is_bit_char ''0a'' \<and> retrieve_message pil_1x1 ''0a'' = Inr None"
proof -
  have h1: "wf_pil_image pil_1x1" by (rule wf_fixtures)
  have h2: "\<not> list_all is_bit_char ''0a''" by (simp add: is_bit_char_def)
  show ?thesis using h1 h2 retrieve_nonbinary_delimiter [OF h1 h2] by blast
qed

section \<open>The delimiter provider and the pipeline\<close>

text \<open>
  C18: when the answer to \<open>get_delimiter\<close>'s prompt is neither Y nor N, the
  random fallback delimiter is used; if one of its 32 draws is not a digit (all
  but a \<open>(10/94)^32\<close> share of draws), \<open>embed_message\<close> on a message
  that fits with the delimiter raises \<open>ValueError\<close> in \<open>int(...)\<close>, and
  \<open>retrieve_message\<close> never finds that delimiter in any image.
\<close>

theorem random_fallback_breaks_pipeline:
  assumes "wf_pil_image im" and "\<forall>c \<in> set msg. c < 256"
    and "8 * length msg + 32 \<le> 3 * fst (size im) * snd (size im)"
    and "\<not> answer_is choice CHR ''Y''" and "\<not> answer_is choice CHR ''N''"
    and "\<exists>i < 32. random_below 94 (rnd i) \<notin> {52..<62}"
  shows "embed_message im (get_delimiter choice custom rnd) msg conf = Embed_Raised ValueError \<and>
         (\<forall>im'. wf_pil_image im' \<longrightarrow> retrieve_message im' (get_delimiter choice custom rnd) = Inr None)"
proof -
  let ?d = "generate_random_delimiter 32 rnd"
  have d: "get_delimiter choice custom rnd = ?d" using assms(4,5) by (rule get_delimiter_fallback)
  obtain i where i: "i < 32" "random_below 94 (rnd i) \<notin> {52..<62}" using assms(6) by blast
  have len_d: "length ?d = 32" using generate_random_delimiter_shape by simp
  have nd: "\<not> py_isdecimal (?d ! i)"
    using i py_isdecimal_alphabet [OF random_below_94] by (simp add: nth_generate_random_delimiter)
  then have "\<not> list_all is_bit_char ?d"
    using i len_d is_bit_char_digit by (auto simp: list_all_length)
  then have ret: "\<forall>im'. wf_pil_image im' \<longrightarrow> retrieve_message im' ?d = Inr None"
    using retrieve_message_nonbinary by blast
  have lm: "length (message_bits msg) = 8 * length msg" using assms(2) by (rule length_message_bits)
  have pos: "length (message_bits msg) + i < 3 * fst (size im) * snd (size im)"
    using i assms(3) lm by simp
  have pos': "length (message_bits msg) + i < length (message_bits msg @ ?d)"
    using i len_d by simp
  have "\<not> py_isdecimal ((message_bits msg @ ?d) ! (length (message_bits msg) + i))"
    using nd by simp
  then have "\<not> list_all py_isdecimal (take (3 * fst (size im) * snd (size im)) (message_bits msg @ ?d))"
    by (rule nonmember_take [OF pos pos'])
  then have "\<exists>e. embed_image (ensure_rgb im) (message_bits msg @ ?d) = Inl e"
    using embed_image_raises [OF ensure_rgb_wf [OF assms(1)]] by simp
  moreover have "8 * length msg \<le> 3 * fst (size im) * snd (size im)" using assms(3) by simp
  ultimately have "embed_message im ?d msg conf = Embed_Raised ValueError"
    by (auto simp: embed_message_no_abort py_error_unique split: sum.splits)
  with ret d show ?thesis by simp
qed

theorem random_fallback_breaks_pipeline_witness:
  "wf_pil_image (blank_pil 4 3) \<and> 8 * length ([] :: codepoint list) + 32 \<le> 3 * 4 * 3 \<and>
   \<not> answer_is ''x'' CHR ''Y'' \<and> \<not> answer_is ''x'' CHR ''N'' \<and>
   (\<exists>i < (32::nat). random_below 94 ((\<lambda>_. 0) i) \<notin> {52..<62}) \<and>
   embed_message (blank_pil 4 3) (get_delimiter ''x'' [] (\<lambda>_. 0)) [] [] = Embed_Raised ValueError \<and>
   retrieve_message pil_1x1 (get_delimiter ''x'' [] (\<lambda>_. 0)) = Inr None"
proof -
  have h: "wf_pil_image (blank_pil 4 3)" "\<forall>c \<in> set ([] :: codepoint list). c < 256"
    "8 * length ([] :: codepoint list) + 32 \<le> 3 * fst (size (blank_pil 4 3)) * snd (size (blank_pil 4 3))"
    "\<not> answer_is ''x'' CHR ''Y''" "\<not> answer_is ''x'' CHR ''N''"
    by (simp_all only: wf_blank_pil) (simp_all add: blank_pil_def answer_is_eval eq_char_of_iff)
  have "\<exists>i < (32::nat). random_below 94 (((\<lambda>_. 0) :: nat \<Rightarrow> 53 word) i) \<notin> {52..<62}"
    by (rule exI [of _ 0]) (simp add: random_below_def)
  note h = h this
  show ?thesis
    using h random_fallback_breaks_pipeline [OF h, of "[]" "[]"] wf_fixtures(2)
    by (simp add: blank_pil_def)
qed

text \<open>
  C19: the hard-coded default delimiter (answer N) occurs inside the bits of
  ordinary printable text: \<open>'<'\<close> is \<open>00111100\<close>, and five of them
  contain \<open>0000111100001111...\<close> from bit 6 on. Embedding \<open>"<<<<<"\<close>
  succeeds, and retrieval returns \<open>chr(15)\<close> instead of the message.
\<close>

theorem default_delimiter_collision:
  "get_delimiter ''N'' custom rnd = default_delimiter \<and>
   (\<exists>img'. embed_message (blank_pil 8 3) default_delimiter [60, 60, 60, 60, 60] conf = Saved img' \<and>
      retrieve_message (rgb_to_image img') default_delimiter = Inr (Some [15]))"
proof -
  have mb: "message_bits [60, 60, 60, 60, 60] = ''0011110000111100001111000011110000111100''"
    by (simp add: message_bits_def format_08b_def bin_digits.simps bit_char_def) (simp add: numeral_2_eq_2)
  have split: "message_bits [60, 60, 60, 60, 60] @ default_delimiter =
      ''001111'' @ default_delimiter @ ''0000001111000011110000111100001111''"
    by (simp add: mb default_delimiter_def)
  have "\<not> sublist default_delimiter (''001111'' @ butlast default_delimiter)"
    by (simp add: default_delimiter_def sublist_code)
  moreover have "length (message_bits [60, 60, 60, 60, 60] @ default_delimiter) \<le>
      3 * fst (size (blank_pil 8 3)) * snd (size (blank_pil 8 3))"
    by (simp add: mb default_delimiter_def blank_pil_def)
  moreover have "default_delimiter \<noteq> []" by (simp add: default_delimiter_def)
  moreover have "map bits_value (chunks8 ''001111'') = [15]"
    by (simp add: chunks8_def bits_value_def bit_val_def)
  ultimately have "\<exists>img'. embed_message (blank_pil 8 3) default_delimiter [60, 60, 60, 60, 60] conf = Saved img' \<and>
      retrieve_message (rgb_to_image img') default_delimiter = Inr (Some [15])"
    using embed_message_saved [OF wf_blank_pil conjunct1 [OF default_delimiter_bits] _ split]
    by simp
  moreover have "get_delimiter ''N'' custom rnd = default_delimiter"
    by (simp add: get_delimiter_def answer_is_eval)
  ultimately show ?thesis by blast
qed

theorem default_delimiter_collision_witness:
  "get_delimiter ''N'' [] (\<lambda>_. 0) = default_delimiter \<and>
   (\<exists>img'. embed_message (blank_pil 8 3) default_delimiter [60, 60, 60, 60, 60] [] = Saved img' \<and>
      retrieve_message (rgb_to_image img') default_delimiter = Inr (Some [15]))"
  by (rule default_delimiter_collision)

section \<open>Two runs of the script\<close>

lemma default_delimiter_facts: "list_all is_bit_char default_delimiter" "default_delimiter \<noteq> []"
  "length default_delimiter = 32"
  using default_delimiter_bits by auto

text \<open>
  A message of characters that fits with the default delimiter and does not
  collide with it is embedded without a confirmation prompt and retrieved
  unchanged.
\<close>

lemma embed_default_saved:
  assumes "wf_pil_image im"
    and "8 * length msg + 32 \<le> 3 * fst (size im) * snd (size im)"
    and "\<not> sublist default_delimiter (message_bits (map of_char msg) @ butlast default_delimiter)"
  shows "\<exists>img. embed_message im default_delimiter (map of_char msg) [] = Saved img \<and>
    retrieve_message (rgb_to_image img) default_delimiter = Inr (Some (map of_char msg)) \<and>
    length (map of_char msg :: codepoint list) \<le> calculate_max_message_size (size im)"
proof -
  let ?m = "map of_char msg :: codepoint list"
  have small: "\<forall>c \<in> set ?m. c < 256" by simp
  have len: "length (message_bits ?m @ default_delimiter) \<le> 3 * fst (size im) * snd (size im)"
    using assms(2) small by (simp add: length_message_bits default_delimiter_facts)
  have "message_bits ?m @ default_delimiter = message_bits ?m @ default_delimiter @ []" by simp
  then obtain img where emb: "embed_message im default_delimiter ?m [] = Saved img"
    and ret: "retrieve_message (rgb_to_image img) default_delimiter =
      Inr (Some (map bits_value (chunks8 (message_bits ?m))))"
    using embed_message_saved [OF assms(1) default_delimiter_facts(1) len _ default_delimiter_facts(2) assms(3)]
    by blast
  have dec: "map bits_value (chunks8 (message_bits ?m)) = ?m"
    using decode_message_bits [OF small] decode_message_bit_string [OF message_bits_bits] by simp
  have cap: "length ?m \<le> calculate_max_message_size (size im)"
    using assms(2) by (simp add: calculate_max_message_size_def split_def less_eq_div_iff_mult_less_eq ac_simps)
  show ?thesis using emb ret dec cap by auto
qed

text \<open>
  C35: the script's own round trip across two runs. A first run that
  embeds a message of characters into an image with room for the message and
  the default delimiter (answers N, N, E, the message, N) saves
  \<open>Modified_Images_StegEM/embedded_image.png\<close> without asking for
  confirmation; a second run on that file (answers N, N, R, N) reports the same
  message, when the default delimiter does not occur in the message bits
  followed by a proper prefix of itself.
\<close>

theorem two_run_roundtrip:
  assumes "fs_files fs0 p = Some f" and "wf_pil_image (file_image f)"
    and "''Modified_Images_StegEM'' \<notin> dom (fs_files fs0)"
    and "''Modified_Images_StegEM/embedded_image.png'' \<notin> fs_dirs fs0"
    and "8 * length msg + 32 \<le> 3 * fst (size (file_image f)) * snd (size (file_image f))"
    and "\<not> sublist default_delimiter (message_bits (map of_char msg) @ butlast default_delimiter)"
  shows "events (stegem_run rnd render [p, ''N'', ''N'', ''E'', msg, ''N''] fs0) =
           [Embedded ''Modified_Images_StegEM/embedded_image.png''] \<and>
         events (stegem_run rnd' render' [''Modified_Images_StegEM/embedded_image.png'', ''N'', ''N'', ''R'', ''N'']
           (fs (stegem_run rnd render [p, ''N'', ''N'', ''E'', msg, ''N''] fs0))) =
           [Retrieved (Some (map of_char msg))]"
proof -
  let ?m = "map of_char msg :: codepoint list" and ?im = "file_image f"
  obtain img where emb: "embed_message ?im default_delimiter ?m [] = Saved img"
    and ret: "retrieve_message (rgb_to_image img) default_delimiter = Inr (Some ?m)"
    and cap: "length ?m \<le> calculate_max_message_size (size ?im)"
    using embed_default_saved [OF assms(2,5,6)] by blast
  have run1: "stegem_run rnd render [p, ''N'', ''N'', ''E'', msg, ''N''] fs0 =
    \<lparr>phase = Finished, stdin = [],
     fs = \<lparr>fs_dirs = insert ''Modified_Images_StegEM'' (fs_dirs fs0),
           fs_files = (fs_files fs0)(''Modified_Images_StegEM/embedded_image.png'' \<mapsto>
             \<lparr>file_image = rgb_to_image img, file_format = ''PNG''\<rparr>)\<rparr>,
     original = p, destination = ''Modified_Images_StegEM'',
     events = [Embedded ''Modified_Images_StegEM/embedded_image.png'']\<rparr>"
    by (rule embed_run [OF assms(1,3,4) cap emb])
  let ?fs1 = "\<lparr>fs_dirs = insert ''Modified_Images_StegEM'' (fs_dirs fs0),
           fs_files = (fs_files fs0)(''Modified_Images_StegEM/embedded_image.png'' \<mapsto>
             \<lparr>file_image = rgb_to_image img, file_format = ''PNG''\<rparr>)\<rparr>"
  have "events (stegem_run rnd' render' [''Modified_Images_StegEM/embedded_image.png'', ''N'', ''N'', ''R'', ''N'']
      ?fs1) = [Retrieved (Some ?m)]"
    using retrieve_run [of ?fs1 "''Modified_Images_StegEM/embedded_image.png''"
        "\<lparr>file_image = rgb_to_image img, file_format = ''PNG''\<rparr>" "Some ?m" rnd' render']
      assms(3) ret
    by simp
  then show ?thesis using run1 by simp
qed

theorem two_run_roundtrip_witness:
  "events (stegem_run (\<lambda>_. 0) (\<lambda>_ im. im) [''a.png'', ''N'', ''N'', ''E'', ''A'', ''N'']
      \<lparr>fs_dirs = {}, fs_files = [''a.png'' \<mapsto> \<lparr>file_image = blank_pil 4 4, file_format = ''PNG''\<rparr>]\<rparr>) =
     [Embedded ''Modified_Images_StegEM/embedded_image.png''] \<and>
   events (stegem_run (\<lambda>_. 0) (\<lambda>_ im. im)
      [''Modified_Images_StegEM/embedded_image.png'', ''N'', ''N'', ''R'', ''N'']
      (fs (stegem_run (\<lambda>_. 0) (\<lambda>_ im. im) [''a.png'', ''N'', ''N'', ''E'', ''A'', ''N'']
        \<lparr>fs_dirs = {}, fs_files = [''a.png'' \<mapsto> \<lparr>file_image = blank_pil 4 4, file_format = ''PNG''\<rparr>]\<rparr>))) =
     [Retrieved (Some [65])]"
proof -
  have "\<not> sublist default_delimiter (message_bits (map of_char ''A'') @ butlast default_delimiter)"
    by (simp add: default_delimiter_def message_bits_def format_08b_def bin_digits.simps bit_char_def sublist_code)
  moreover have "8 * length ''A'' + 32 \<le> 3 * fst (size (blank_pil 4 4)) * snd (size (blank_pil 4 4))"
    by (simp add: blank_pil_def)
  ultimately show ?thesis
    using two_run_roundtrip [of "\<lparr>fs_dirs = {}, fs_files = [''a.png'' \<mapsto> \<lparr>file_image = blank_pil 4 4, file_format = ''PNG''\<rparr>]\<rparr>"
        "''a.png''" "\<lparr>file_image = blank_pil 4 4, file_format = ''PNG''\<rparr>" "''A''" "\<lambda>_. 0" "\<lambda>_ im. im"
        "\<lambda>_. 0" "\<lambda>_ im. im"] wf_blank_pil
    by simp
qed

text \<open>
  C40: the script can delete its own output. When the original image is
  \<open>embedded_image.png\<close> in the folder the user names as destination,
  embedding overwrites it with the stego image, and answering Y to step 6 then
  removes that file: the run reports both the embedding and the deletion, and
  neither the original nor the result is left.
\<close>

theorem embed_then_delete_loses_output:
  assumes "fs_files fs0 p = Some f" and "wf_pil_image (file_image f)"
    and "p = path_join d ''embedded_image.png''" and "py_strip d = d" and "last d \<noteq> CHR ''/''"
    and "d \<noteq> []" and "fs_makedirs fs0 d = Inr fs1" and "p \<notin> fs_dirs fs1"
    and "8 * length msg + 32 \<le> 3 * fst (size (file_image f)) * snd (size (file_image f))"
    and "\<not> sublist default_delimiter (message_bits (map of_char msg) @ butlast default_delimiter)"
  shows "events (stegem_run rnd render [p, ''Y'', d, ''N'', ''E'', msg, ''Y''] fs0) = [Embedded p, Deleted p] \<and>
    fs_files (fs (stegem_run rnd render [p, ''Y'', d, ''N'', ''E'', msg, ''Y''] fs0)) p = None"
proof -
  obtain img where emb: "embed_message (file_image f) default_delimiter (map of_char msg) [] = Saved img"
    and cap: "length (map of_char msg :: codepoint list) \<le> calculate_max_message_size (size (file_image f))"
    using embed_default_saved [OF assms(2,9,10)] by blast
  show ?thesis by (rule embed_delete_run [OF assms(1,3-8) cap emb])
qed

theorem embed_then_delete_loses_output_witness:
  "events (stegem_run (\<lambda>_. 0) (\<lambda>_ im. im) [''out/embedded_image.png'', ''Y'', ''out'', ''N'', ''E'', ''A'', ''Y'']
      \<lparr>fs_dirs = {''out''}, fs_files = [''out/embedded_image.png'' \<mapsto>
        \<lparr>file_image = blank_pil 4 4, file_format = ''PNG''\<rparr>]\<rparr>) =
     [Embedded ''out/embedded_image.png'', Deleted ''out/embedded_image.png''] \<and>
   fs_files (fs (stegem_run (\<lambda>_. 0) (\<lambda>_ im. im) [''out/embedded_image.png'', ''Y'', ''out'', ''N'', ''E'', ''A'', ''Y'']
      \<lparr>fs_dirs = {''out''}, fs_files = [''out/embedded_image.png'' \<mapsto>
        \<lparr>file_image = blank_pil 4 4, file_format = ''PNG''\<rparr>]\<rparr>)) ''out/embedded_image.png'' = None"
proof -
  let ?fs = "\<lparr>fs_dirs = {''out''}, fs_files = [''out/embedded_image.png'' \<mapsto>
        \<lparr>file_image = blank_pil 4 4, file_format = ''PNG''\<rparr>]\<rparr>"
  let ?p = "''out/embedded_image.png''" and ?f = "\<lparr>file_image = blank_pil 4 4, file_format = ''PNG''\<rparr>"
  have h1: "fs_files ?fs ?p = Some ?f" by simp
  have h3: "?p = path_join ''out'' ''embedded_image.png''" by (simp add: path_join_def)
  have h4: "py_strip ''out'' = ''out''" by (simp add: py_strip_def py_isspace_def)
  have h5: "last ''out'' \<noteq> CHR ''/''" and h6: "''out'' \<noteq> []" by simp_all
  have h7: "fs_makedirs ?fs ''out'' = Inr ?fs"
    by (simp add: fs_makedirs_def path_ancestors_single)
  have h8: "?p \<notin> fs_dirs ?fs" by simp
  have h9: "8 * length ''A'' + 32 \<le> 3 * fst (size (file_image ?f)) * snd (size (file_image ?f))"
    by (simp add: blank_pil_def)
  have h10: "\<not> sublist default_delimiter (message_bits (map of_char ''A'') @ butlast default_delimiter)"
    by (simp add: default_delimiter_def message_bits_def format_08b_def bin_digits.simps bit_char_def sublist_code)
  have h2: "wf_pil_image (file_image ?f)" using wf_blank_pil by simp
  from embed_then_delete_loses_output [OF h1 h2 h3 h4 h5 h6 h7 h8 h9 h10, of "\<lambda>_. 0" "\<lambda>_ im. im"]
  show ?thesis .
qed

text \<open>
  Pillow's rendering of the watermark (theory Render) is a \<open>render\<close>
  function of the kind the script's invariants assume: it keeps images
  well-formed, so the well-formedness of every reachable configuration holds
  for the program with its real rendering step.
\<close>

lemma pil_render_render_wf: "render_wf (pil_render arial glyphs)"
  by (simp add: render_wf_def pil_render_wf)

text \<open>Pixels through line 45's RGBA conversion and the RGB conversion of the save.\<close>

lemma convert_rgba_nth:
  "y < length (data im) \<Longrightarrow> x < length (data im ! y) \<Longrightarrow>
   data (convert_rgba im) ! y ! x = pixel_to_rgba (mode im) (data im ! y ! x)"
  by (simp add: convert_rgba_def)

lemma pixel_to_rgb_rgba: "pixel_to_rgb Mode_RGBA (pixel_to_rgba m p) = pixel_to_rgb m p"
  by (cases m) (simp_all add: pixel_to_rgb_def pixel_to_rgba_def)

text \<open>
  C36: the watermark end to end (\<open>src/Watermarking.py\<close> lines 42--84 with
  the program's renderer): from a well-formed image and a usable output
  folder, \<open>watermarked_image.png\<close> is saved in the folder, and each pixel
  that the text leaves without ink (every pixel when the opacity is 0) is the
  original pixel read as RGB, whatever the original's mode; the original's
  alpha channel is dropped.
\<close>

theorem watermark_file_keeps_unmarked:
  assumes "fs_files fs0 image_path = Some f" and "wf_pil_image (file_image f)"
    and "output_folder = [] \<or> last output_folder \<noteq> CHR ''/''"
    and "dir_exists fs0 output_folder \<or>
         (\<not> path_exists fs0 output_folder \<and> dir_exists fs0 (path_dirname output_folder))"
    and "\<not> dir_exists fs0 (path_join output_folder ''watermarked_image.png'')"
    and "y < snd (size (file_image f))" and "x < fst (size (file_image f))"
    and "glyphs (load_font arial (wm_font_size st)) (wm_text st) (wm_position st) x y = 0 \<or> wm_opacity st = 0"
  shows "\<exists>fs' img. watermark_try fs0 image_path output_folder st (pil_render arial glyphs) =
           (fs', WM_Saved (path_join output_folder ''watermarked_image.png'')) \<and>
         fs_files fs' (path_join output_folder ''watermarked_image.png'') =
           Some \<lparr>file_image = rgb_to_image img, file_format = ''PNG''\<rparr> \<and>
         pixels img ! y ! x = pixel_to_rgb (mode (file_image f)) (data (file_image f) ! y ! x)"
proof -
  let ?im = "convert_rgba (file_image f)"
  have wf: "wf_pil_image ?im" using assms(2) by (rule convert_rgba_wf)
  have sz: "size ?im = size (file_image f)" "mode ?im = Mode_RGBA" by (simp_all add: convert_rgba_def)
  have px: "data (pil_render arial glyphs st ?im) ! y ! x = data ?im ! y ! x"
    using wf sz assms(6-8) by (intro pil_render_clear_pixel) simp_all
  have wf2: "wf_pil_image (pil_render arial glyphs st ?im)" using wf by (rule pil_render_wf)
  have "length (data (pil_render arial glyphs st ?im)) = snd (size ?im)"
    "length (data (pil_render arial glyphs st ?im) ! y) = fst (size ?im)"
    using wf2 wf sz assms(6) by (simp_all add: pil_render_composite wf_pil_image_nth)
  moreover have "length (data (file_image f)) = snd (size (file_image f))"
    "length (data (file_image f) ! y) = fst (size (file_image f))"
    using assms(2,6) by (simp_all add: wf_pil_image_nth)
  ultimately have "pixels (convert_rgb (pil_render arial glyphs st ?im)) ! y ! x =
      pixel_to_rgb (mode (file_image f)) (data (file_image f) ! y ! x)"
    using px sz assms(6,7)
    by (simp add: convert_rgb_def pil_render_composite convert_rgba_nth pixel_to_rgb_rgba)
  then show ?thesis
    using watermark_try_saved [OF assms(1,3-5), of st "pil_render arial glyphs"] by auto
qed

theorem watermark_file_keeps_unmarked_witness:
  "fs_files wm_fixture_fs ''a.png'' = Some \<lparr>file_image = pil_1x1, file_format = ''PNG''\<rparr> \<and>
   wf_pil_image pil_1x1 \<and> 0 < snd (size pil_1x1) \<and> 0 < fst (size pil_1x1) \<and>
   (\<exists>fs' img. watermark_try wm_fixture_fs ''a.png'' ''out''
        \<lparr>wm_text = ''w'', wm_position = (10, 10), wm_opacity = 128, wm_font_size = 30\<rparr>
        (pil_render False (\<lambda>_ _ _ _ _. 0)) =
      (fs', WM_Saved (path_join ''out'' ''watermarked_image.png'')) \<and>
    fs_files fs' (path_join ''out'' ''watermarked_image.png'') =
      Some \<lparr>file_image = rgb_to_image img, file_format = ''PNG''\<rparr> \<and>
    pixels img ! 0 ! 0 = pixel_to_rgb (mode pil_1x1) (data pil_1x1 ! 0 ! 0))"
proof -
  have h1: "fs_files wm_fixture_fs ''a.png'' = Some \<lparr>file_image = pil_1x1, file_format = ''PNG''\<rparr>"
    by (simp add: wm_fixture_fs_def)
  have h2: "wf_pil_image (file_image \<lparr>file_image = pil_1x1, file_format = ''PNG''\<rparr>)"
    using wf_fixtures by simp
  have h3: "''out'' = [] \<or> last ''out'' \<noteq> CHR ''/''" by simp
  have h4: "dir_exists wm_fixture_fs ''out'' \<or>
      (\<not> path_exists wm_fixture_fs ''out'' \<and> dir_exists wm_fixture_fs (path_dirname ''out''))"
    by (simp add: wm_fixture_fs_def path_exists_def dir_exists_def path_dirname_def)
  have h5: "\<not> dir_exists wm_fixture_fs (path_join ''out'' ''watermarked_image.png'')"
    by (simp add: wm_fixture_fs_def dir_exists_def path_join_def)
  have h6: "0 < snd (size (file_image \<lparr>file_image = pil_1x1, file_format = ''PNG''\<rparr>))"
    and h7: "0 < fst (size (file_image \<lparr>file_image = pil_1x1, file_format = ''PNG''\<rparr>))"
    by (simp_all add: pil_1x1_def)
  have h8: "(\<lambda>_ _ _ _ _. 0 :: byte) (load_font False (wm_font_size
        \<lparr>wm_text = ''w'', wm_position = (10, 10), wm_opacity = 128, wm_font_size = 30\<rparr>))
      (wm_text \<lparr>wm_text = ''w'', wm_position = (10, 10), wm_opacity = 128, wm_font_size = 30\<rparr>)
      (wm_position \<lparr>wm_text = ''w'', wm_position = (10, 10), wm_opacity = 128, wm_font_size = 30\<rparr>) 0 0 = 0 \<or>
      wm_opacity \<lparr>wm_text = ''w'', wm_position = (10, 10), wm_opacity = 128, wm_font_size = 30\<rparr> = 0"
    by simp
  have c: "\<exists>fs' img. watermark_try wm_fixture_fs ''a.png'' ''out''
        \<lparr>wm_text = ''w'', wm_position = (10, 10), wm_opacity = 128, wm_font_size = 30\<rparr>
        (pil_render False (\<lambda>_ _ _ _ _. 0)) =
      (fs', WM_Saved (path_join ''out'' ''watermarked_image.png'')) \<and>
    fs_files fs' (path_join ''out'' ''watermarked_image.png'') =
      Some \<lparr>file_image = rgb_to_image img, file_format = ''PNG''\<rparr> \<and>
    pixels img ! 0 ! 0 = pixel_to_rgb (mode pil_1x1) (data pil_1x1 ! 0 ! 0)"
    using watermark_file_keeps_unmarked [OF h1 h2 h3 h4 h5 h6 h7 h8] by simp
  show ?thesis using h1 h2 h6 h7 c by simp
qed

end
